(* ===== verification/Prelude.thy ===== *)
theory Prelude
  imports Main "HOL-Library.Word"
begin

unbundle bit_operations_syntax

text \<open>
  Shared vocabulary of the development.  Go's \<open>byte\<close> is an 8-bit word and a byte slice or a
  fixed-size byte array is a list of bytes (the length of an array type is a lemma about the
  operations that build it).  A Go function that may panic returns an \<open>outcome\<close>; a Go function with
  an \<open>error\<close> result returns a sum or an option.  Here too are \<open>copy\<close>, the hexadecimal codec of
  \<open>encoding/hex\<close>, big-endian 16-bit integers and the decimal parser behind
  \<open>strconv.ParseUint(s, 10, 8)\<close>, which are the parts of Go's standard library that the
  modelled code relies on.
\<close>

named_theorems go_simps \<open>equations of the Go primitives the components share\<close>

section \<open>Bytes, panics\<close>

type_synonym byte = "8 word"
type_synonym bytes = "byte list"

datatype 'a outcome = Ret 'a | Panic

fun bind_outcome :: "'a outcome \<Rightarrow> ('a \<Rightarrow> 'b outcome) \<Rightarrow> 'b outcome" where
  "bind_outcome (Ret x) f = f x"
| "bind_outcome Panic f = Panic"

lemma bind_outcome_eq_Ret [go_simps]:
  "bind_outcome m f = Ret y \<longleftrightarrow> (\<exists>x. m = Ret x \<and> f x = Ret y)"
  by (cases m) auto

lemma bind_outcome_eq_Panic [go_simps]:
  "bind_outcome m f = Panic \<longleftrightarrow> m = Panic \<or> (\<exists>x. m = Ret x \<and> f x = Panic)"
  by (cases m) auto

section \<open>Go's copy\<close>

definition go_copy :: "'a list \<Rightarrow> 'a list \<Rightarrow> 'a list" where
  "go_copy dst src = take (length dst) src @ drop (length src) dst"

definition copy_at :: "'a list \<Rightarrow> nat \<Rightarrow> 'a list \<Rightarrow> 'a list" where
  "copy_at dst off src = take off dst @ go_copy (drop off dst) src"

lemma length_go_copy [simp]: "length (go_copy dst src) = length dst"
  by (simp add: go_copy_def)

lemma length_copy_at [simp]: "length (copy_at dst off src) = length dst"
  by (simp add: copy_at_def)

lemma go_copy_same [simp]: "length src = length dst \<Longrightarrow> go_copy dst src = src"
  by (simp add: go_copy_def)

lemma go_copy_short: "length src \<le> length dst \<Longrightarrow> go_copy dst src = src @ drop (length src) dst"
  by (simp add: go_copy_def)

lemma go_copy_long: "length dst \<le> length src \<Longrightarrow> go_copy dst src = take (length dst) src"
  by (simp add: go_copy_def)

section \<open>encoding/hex\<close>

definition hex_digits :: string where
  "hex_digits = ''0123456789abcdef''"

definition hex_val :: "char \<Rightarrow> byte option" where
  "hex_val c = map_of (zip (hex_digits @ ''ABCDEF'')
     [0, 1, 2, 3, 4, 5, 6, 7, 8, 9, 10, 11, 12, 13, 14, 15, 10, 11, 12, 13, 14, 15]) c"

fun hex_decode :: "string \<Rightarrow> bytes option" where
  "hex_decode [] = Some []"
| "hex_decode [c] = None"
| "hex_decode (a # b # rest) =
     (case hex_val a of None \<Rightarrow> None
      | Some x \<Rightarrow> (case hex_val b of None \<Rightarrow> None
        | Some y \<Rightarrow> map_option ((#) (push_bit 4 x OR y)) (hex_decode rest)))"

definition hex_char :: "byte \<Rightarrow> char" where
  "hex_char x = hex_digits ! unat x"

fun hex_encode :: "bytes \<Rightarrow> string" where
  "hex_encode [] = []"
| "hex_encode (x # xs) = hex_char (drop_bit 4 x) # hex_char (x AND 15) # hex_encode xs"

lemma hex_val_digit:
  assumes "n < 16"
  shows "hex_val (hex_digits ! n) = Some (word_of_nat n)"
proof -
  have "list_all (\<lambda>n. hex_val (hex_digits ! n) = Some (word_of_nat n)) [0..<16]"
    by code_simp
  with assms show ?thesis by (simp add: list_all_iff)
qed

lemma hex_val_char: "unat x < 16 \<Longrightarrow> hex_val (hex_char x) = Some x"
  by (simp add: hex_char_def hex_val_digit)

lemma fifteen_mask: "(15 :: byte) = mask 4"
  by (simp add: mask_eq_exp_minus_1)

lemma unat_high_nibble: "unat (drop_bit 4 (x :: byte)) < 16"
  using unsigned_less [of x, where 'a = nat] by (simp add: drop_bit_eq_div unat_div)

lemma unat_low_nibble: "unat (x AND 15 :: byte) < 16"
proof -
  have "x AND 15 = take_bit 4 x"
    by (simp add: fifteen_mask take_bit_eq_mask)
  then show ?thesis by (simp add: take_bit_eq_mod unat_mod)
qed

lemma nibbles_join: "push_bit 4 (drop_bit 4 x) OR (x AND 15) = (x :: byte)"
  by (rule bit_word_eqI) (auto simp: fifteen_mask bit_simps)

lemma hex_decode_encode [simp]: "hex_decode (hex_encode xs) = Some xs"
  by (induction xs) (simp_all add: hex_val_char unat_high_nibble unat_low_nibble nibbles_join)

lemma length_hex_encode [simp]: "length (hex_encode xs) = 2 * length xs"
  by (induction xs) simp_all

lemma length_hex_decode: "hex_decode s = Some xs \<Longrightarrow> length s = 2 * length xs"
  by (induction s arbitrary: xs rule: hex_decode.induct) (auto split: option.splits)

section \<open>Big-endian 16-bit integers\<close>

definition put_uint16 :: "16 word \<Rightarrow> bytes" where
  "put_uint16 v = [ucast (drop_bit 8 v), ucast v]"

definition get_uint16 :: "bytes \<Rightarrow> 16 word" where
  "get_uint16 bs = push_bit 8 (ucast (bs ! 0)) OR ucast (bs ! 1)"

lemma length_put_uint16 [simp]: "length (put_uint16 v) = 2"
  by (simp add: put_uint16_def)

lemma get_put_uint16 [simp]: "get_uint16 (put_uint16 v) = v"
  by (rule bit_word_eqI) (auto simp: get_uint16_def put_uint16_def bit_simps)

section \<open>Decimal numbers\<close>

definition digit :: "nat \<Rightarrow> char" where
  "digit n = ''0123456789'' ! n"

fun show_nat :: "nat \<Rightarrow> string" where
  "show_nat n = (if n < 10 then [digit n] else show_nat (n div 10) @ [digit (n mod 10)])"

declare show_nat.simps [simp del]

definition digit_val :: "char \<Rightarrow> nat option" where
  "digit_val c = map_of (zip ''0123456789'' [0..<10]) c"

fun parse_digits :: "nat \<Rightarrow> string \<Rightarrow> nat option" where
  "parse_digits acc [] = Some acc"
| "parse_digits acc (c # cs) =
     (case digit_val c of None \<Rightarrow> None | Some d \<Rightarrow> parse_digits (10 * acc + d) cs)"

definition ParseUint8 :: "string \<Rightarrow> nat option" where
  "ParseUint8 s =
     (if s = [] then None
      else case parse_digits 0 s of None \<Rightarrow> None | Some n \<Rightarrow> if n < 2 ^ 8 then Some n else None)"

lemma digit_val_digit [simp]:
  assumes "n < 10"
  shows "digit_val (digit n) = Some n"
proof -
  have "list_all (\<lambda>n. digit_val (digit n) = Some n) [0..<10]" by code_simp
  with assms show ?thesis by (simp add: list_all_iff)
qed

lemma parse_digits_append:
  "parse_digits acc (xs @ ys) = (case parse_digits acc xs of None \<Rightarrow> None | Some n \<Rightarrow> parse_digits n ys)"
  by (induction acc xs rule: parse_digits.induct) (auto split: option.splits)

lemma parse_show_nat [simp]: "parse_digits 0 (show_nat n) = Some n"
proof (induction n rule: show_nat.induct)
  case (1 n)
  show ?case
  proof (cases "n < 10")
    case False
    then show ?thesis using 1 by (subst show_nat.simps) (simp add: parse_digits_append)
  qed (simp add: show_nat.simps [of n])
qed

lemma show_nat_nonempty [simp]: "show_nat n \<noteq> []"
  by (simp add: show_nat.simps [of n])

lemma ParseUint8_show: "ParseUint8 (show_nat n) = (if n < 256 then Some n else None)"
  by (simp add: ParseUint8_def)

end
