(* ===== verification/Bit_Strings.thy ===== *)
theory Bit_Strings
  imports Prelude
begin

text \<open>
  Byte strings read as bit strings, most significant bit first: the order in which
  \<^verbatim>\<open>buf[idx/8] & (0x80 >> (idx%8))\<close> walks over a byte slice.  The address code of
  src/core/address.go is specified over these bit strings and its index loops are proved equal to
  them.
\<close>

section \<open>Bits of bytes\<close>

definition byte_bits :: "byte \<Rightarrow> bool list" where
  "byte_bits x = map (\<lambda>i. bit x (7 - i)) [0..<8]"

definition byte_of_bits :: "bool list \<Rightarrow> byte" where
  "byte_of_bits bs = fold (\<lambda>b w. push_bit 1 w OR of_bool b) bs 0"

fun bytes_bits :: "bytes \<Rightarrow> bool list" where
  "bytes_bits [] = []"
| "bytes_bits (x # xs) = byte_bits x @ bytes_bits xs"

text \<open>Groups of eight bits packed into bytes; an incomplete last group is dropped.\<close>

fun pack :: "bool list \<Rightarrow> bytes" where
  "pack (a # b # c # d # e # f # g # h # rest) = byte_of_bits [a, b, c, d, e, f, g, h] # pack rest"
| "pack _ = []"

lemma length_byte_bits [simp]: "length (byte_bits x) = 8"
  by (simp add: byte_bits_def)

lemma byte_bits_not_Nil [simp]: "byte_bits x \<noteq> []"
  by (simp add: byte_bits_def)

lemma seven_minus_less [simp]: "7 - i < (8 :: nat)"
  by simp

lemma nth_byte_bits [simp]: "i < 8 \<Longrightarrow> byte_bits x ! i = bit x (7 - i)"
  by (simp add: byte_bits_def)

lemma length_bytes_bits [simp]: "length (bytes_bits xs) = 8 * length xs"
  by (induction xs) simp_all

lemma bytes_bits_append [simp]: "bytes_bits (xs @ ys) = bytes_bits xs @ bytes_bits ys"
  by (induction xs) simp_all

lemma nth_bytes_bits:
  "i < 8 * length xs \<Longrightarrow> bytes_bits xs ! i = bit (xs ! (i div 8)) (7 - i mod 8)"
proof (induction xs arbitrary: i)
  case (Cons x xs)
  show ?case
  proof (cases "i < 8")
    case False
    then have "i div 8 = Suc ((i - 8) div 8)" and "i mod 8 = (i - 8) mod 8"
      by (simp_all add: le_div_geq le_mod_geq)
    with False Cons.prems show ?thesis
      by (simp add: nth_append Cons.IH)
  qed (simp add: nth_append)
qed simp

lemma take_bytes_bits: "take (8 * n) (bytes_bits xs) = bytes_bits (take n xs)"
proof (induction xs arbitrary: n)
  case (Cons x xs)
  show ?case by (cases n) (simp_all add: Cons.IH)
qed simp

lemma drop_bytes_bits: "drop (8 * n) (bytes_bits xs) = bytes_bits (drop n xs)"
proof (induction xs arbitrary: n)
  case (Cons x xs)
  show ?case by (cases n) (simp_all add: Cons.IH)
qed simp

lemma byte_bits_0 [simp]: "byte_bits 0 = replicate 8 False"
  by (rule nth_equalityI) simp_all

lemma byte_bits_NOT [simp]: "byte_bits (NOT x) = map Not (byte_bits x)"
  by (rule nth_equalityI) (simp_all add: bit_simps)

lemma bytes_bits_NOT [simp]: "bytes_bits (map NOT xs) = map Not (bytes_bits xs)"
  by (induction xs) simp_all

lemma bytes_bits_zeros [simp]: "bytes_bits (replicate n 0) = replicate (8 * n) False"
proof (induction n)
  case (Suc n)
  have "8 * Suc n = 8 + 8 * n" by simp
  with Suc show ?case by (simp only: replicate_Suc bytes_bits.simps byte_bits_0 replicate_add)
qed simp

lemma byte_bits_inj: "byte_bits x = byte_bits y \<Longrightarrow> x = y"
proof (rule bit_word_eqI)
  fix n assume eq: "byte_bits x = byte_bits y" and "n < LENGTH(8)"
  then have "byte_bits x ! (7 - n) = byte_bits y ! (7 - n)" and "n < 8" by simp_all
  then show "bit x n = bit y n" by simp
qed

lemma bytes_bits_inj: "bytes_bits xs = bytes_bits ys \<Longrightarrow> xs = ys"
proof (induction xs arbitrary: ys)
  case Nil
  then show ?case by (cases ys) auto
next
  case (Cons x xs)
  then show ?case by (cases ys) (auto dest: byte_bits_inj)
qed

section \<open>Packing\<close>

lemma byte_of_bits_snoc:
  "byte_of_bits (bs @ [b]) = push_bit 1 (byte_of_bits bs) OR of_bool b"
  by (simp add: byte_of_bits_def)

lemma bit_byte_of_bits:
  "bit (byte_of_bits bs) n \<longleftrightarrow> n < 8 \<and> n < length bs \<and> bs ! (length bs - 1 - n)"
proof (induction bs arbitrary: n rule: rev_induct)
  case Nil
  then show ?case by (simp add: byte_of_bits_def)
next
  case (snoc b bs)
  show ?case
  proof (cases n)
    case 0
    then show ?thesis
      by (simp add: byte_of_bits_snoc bit_or_iff bit_push_bit_iff nth_append del: push_bit_Suc)
  next
    case (Suc m)
    then show ?thesis
      by (auto simp: byte_of_bits_snoc bit_or_iff bit_push_bit_iff snoc.IH nth_append
          bit_1_iff simp del: push_bit_Suc)
  qed
qed

lemma byte_bits_of_bits: "length bs = 8 \<Longrightarrow> byte_bits (byte_of_bits bs) = bs"
  by (rule nth_equalityI) (simp_all add: bit_byte_of_bits)

lemma byte_of_byte_bits [simp]: "byte_of_bits (byte_bits x) = x"
  by (rule byte_bits_inj) (simp add: byte_bits_of_bits)

lemma byte_of_bits_fold:
  "fold (\<lambda>b w. push_bit 1 w OR of_bool b) bs w = push_bit (length bs) w OR byte_of_bits bs"
proof (induction bs rule: rev_induct)
  case Nil
  then show ?case by (simp add: byte_of_bits_def)
next
  case (snoc b bs)
  have "push_bit 1 (push_bit (length bs) w OR byte_of_bits bs) =
      push_bit (length bs + 1) w OR push_bit 1 (byte_of_bits bs)"
    by (rule bit_word_eqI) (auto simp: bit_simps simp del: push_bit_Suc)
  with snoc show ?case
    by (simp add: byte_of_bits_snoc or.assoc del: push_bit_Suc)
qed

lemma pack_step: "length bs = 8 \<Longrightarrow> pack (bs @ rest) = byte_of_bits bs # pack rest"
  by (auto simp: numeral_eq_Suc length_Suc_conv)

lemma pack_short: "length bs < 8 \<Longrightarrow> pack bs = []"
  by (cases bs rule: pack.cases) auto

lemma pack_induct [case_names short step]:
  assumes "\<And>bs. length bs < 8 \<Longrightarrow> P bs"
    and "\<And>xs bs. length xs = 8 \<Longrightarrow> P bs \<Longrightarrow> P (xs @ bs)"
  shows "P bs"
proof (induction bs rule: length_induct)
  case (1 bs)
  show ?case
  proof (cases "length bs < 8")
    case False
    then have "length (take 8 bs) = 8" and "P (drop 8 bs)"
      using 1 by simp_all
    then have "P (take 8 bs @ drop 8 bs)" by (rule assms(2))
    then show ?thesis by simp
  qed (rule assms(1))
qed

lemma length_pack: "length (pack bs) = length bs div 8"
  by (induction bs rule: pack_induct) (simp_all add: pack_short pack_step)

lemma bytes_bits_pack: "bytes_bits (pack bs) = take (8 * (length bs div 8)) bs"
proof (induction bs rule: pack_induct)
  case (step xs bs)
  then show ?case by (simp add: pack_step byte_bits_of_bits div_add_self1)
qed (simp add: pack_short)

lemma pack_bytes_bits [simp]: "pack (bytes_bits xs) = xs"
  by (rule bytes_bits_inj) (simp add: bytes_bits_pack)

lemma pack_append_bytes: "pack (bytes_bits xs @ bs) = xs @ pack bs"
  by (induction xs) (simp_all add: pack_step)

lemma pack_take: "pack (take n bs) = take (n div 8) (pack bs)"
proof (rule bytes_bits_inj)
  have "min n (length bs) div 8 = min (n div 8) (length bs div 8)"
    using div_le_mono [of n "length bs" 8] div_le_mono [of "length bs" n 8]
    by (cases "n \<le> length bs") (simp_all add: min_absorb1 min_absorb2)
  moreover have "8 * (n div 8) \<le> n" by simp
  ultimately have "min (8 * (min n (length bs) div 8)) n = min (8 * (n div 8)) (8 * (length bs div 8))"
    by linarith
  then show "bytes_bits (pack (take n bs)) = bytes_bits (take (n div 8) (pack bs))"
    by (simp add: bytes_bits_pack take_bytes_bits [symmetric] min.commute)
qed

lemma pack_zeros: "pack (replicate m False) = replicate (m div 8) 0"
  by (rule bytes_bits_inj) (simp add: bytes_bits_pack)

lemma bytes_bits_go_copy:
  "bytes_bits (go_copy dst src) = go_copy (bytes_bits dst) (bytes_bits src)"
  by (simp add: go_copy_def take_bytes_bits drop_bytes_bits)

section \<open>The bit masks of the index loops\<close>

lemma bit_0x80 [simp]: "bit (0x80 :: byte) n \<longleftrightarrow> n = 7"
proof -
  have "(0x80 :: byte) = push_bit 7 1" by simp
  then show ?thesis by (simp only: bit_push_bit_iff bit_1_iff) auto
qed

lemma bit_mask_0x80: "bit (drop_bit m (0x80 :: byte)) n \<longleftrightarrow> m \<le> 7 \<and> n = 7 - m"
proof -
  have "bit (drop_bit m (0x80 :: byte)) n \<longleftrightarrow> m + n = 7"
    by (simp only: bit_drop_bit_eq comp_def bit_0x80)
  then show ?thesis by auto
qed

lemma and_mask_0x80:
  "m < 8 \<Longrightarrow> (x :: byte) AND drop_bit m 0x80 = of_bool (bit x (7 - m)) * drop_bit m 0x80"
  by (rule bit_word_eqI) (auto simp: bit_and_iff bit_mask_0x80)

end
