(* ===== verification/Address.thy ===== *)
theory Address
  imports Bit_Strings
begin

text \<open>
  src/core/address.go: the mapping from ed25519 public keys to overlay addresses and back to the
  part of the key that an address carries.  An \<open>Address\<close> is a list of 16 bytes, a \<open>Subnet\<close> a list of
  8, a public key 32.  A \<open>nil\<close> result is \<open>None\<close>, a panic is \<open>Panic\<close>; the configured network prefix
  is the only part of \<open>Core\<close> these methods read.
\<close>

section \<open>The code\<close>

record network_domain =
  Prefix :: string

abbreviation public_key_size :: nat where
  "public_key_size \<equiv> 32"

text \<open>\<open>p[:1]\<close> of an empty slice panics, as does an undecodable prefix.\<close>

definition GetPrefix :: "network_domain \<Rightarrow> bytes outcome" where
  "GetPrefix nd =
     (case hex_decode (Prefix nd) of
        None \<Rightarrow> Panic
      | Some p \<Rightarrow> if p = [] then Panic else Ret (go_copy [0] (take 1 p)))"

definition IsValidAddress :: "network_domain \<Rightarrow> bytes \<Rightarrow> bool outcome" where
  "IsValidAddress nd a =
     bind_outcome (GetPrefix nd) (\<lambda>prefix.
       Ret (list_all (\<lambda>idx. a ! idx = prefix ! idx) [0..<length prefix]))"

definition IsValidSubnet :: "network_domain \<Rightarrow> bytes \<Rightarrow> bool outcome" where
  "IsValidSubnet nd s =
     bind_outcome (GetPrefix nd) (\<lambda>prefix.
       let l = length prefix in
       Ret (list_all (\<lambda>idx. s ! idx = prefix ! idx) [0..<l - 1]
            \<and> s ! (l - 1) = prefix ! (l - 1) OR 0x01))"

text \<open>The state of the bit loop of \<open>AddrForKey\<close>, and one iteration of it.\<close>

record addr_loop =
  lp_done :: bool
  lp_ones :: byte
  lp_bits :: byte
  lp_nBits :: nat
  lp_temp :: bytes

definition key_bit :: "bytes \<Rightarrow> nat \<Rightarrow> byte" where
  "key_bit buf idx =
     drop_bit (7 - idx mod 8) (buf ! (idx div 8) AND drop_bit (idx mod 8) 0x80)"

definition addr_step :: "byte \<Rightarrow> addr_loop \<Rightarrow> addr_loop" where
  "addr_step b s =
     (if \<not> lp_done s \<and> b \<noteq> 0 then s\<lparr>lp_ones := lp_ones s + 1\<rparr>
      else if \<not> lp_done s \<and> b = 0 then s\<lparr>lp_done := True\<rparr>
      else let bits = push_bit 1 (lp_bits s) OR b; nBits = lp_nBits s + 1
           in if nBits = 8
              then s\<lparr>lp_bits := bits, lp_nBits := 0, lp_temp := lp_temp s @ [bits]\<rparr>
              else s\<lparr>lp_bits := bits, lp_nBits := nBits\<rparr>)"

definition addr_loop_init :: addr_loop where
  "addr_loop_init = \<lparr>lp_done = False, lp_ones = 0, lp_bits = 0, lp_nBits = 0, lp_temp = []\<rparr>"

definition addr_scan :: "bytes \<Rightarrow> addr_loop" where
  "addr_scan buf = fold (\<lambda>idx. addr_step (key_bit buf idx)) [0..<8 * length buf] addr_loop_init"

definition AddrForKey :: "network_domain \<Rightarrow> bytes \<Rightarrow> bytes option outcome" where
  "AddrForKey nd publicKey =
     (if length publicKey \<noteq> public_key_size then Ret None
      else let buf = map NOT (go_copy (replicate public_key_size 0) publicKey);
               s = addr_scan buf
           in bind_outcome (GetPrefix nd) (\<lambda>prefix.
                let addr = go_copy (replicate 16 0) prefix;
                    addr = addr[length prefix := lp_ones s]
                in Ret (Some (copy_at addr (length prefix + 1) (lp_temp s)))))"

definition SubnetForKey :: "network_domain \<Rightarrow> bytes \<Rightarrow> bytes option outcome" where
  "SubnetForKey nd publicKey =
     bind_outcome (AddrForKey nd publicKey) (\<lambda>addr.
       case addr of
         None \<Rightarrow> Ret None
       | Some a \<Rightarrow>
           let snet = go_copy (replicate 8 0) a
           in bind_outcome (GetPrefix nd) (\<lambda>prefix.
                let i = length prefix - 1
                in Ret (Some (snet[i := snet ! i OR 0x01]))))"

text \<open>The two loops of \<open>Address.GetKey\<close>: the leading ones, then the bits of the address, which
  stop (\<^verbatim>\<open>break\<close>) at the end of the key.\<close>

definition set_one :: "nat \<Rightarrow> bytes \<Rightarrow> bytes" where
  "set_one idx key = key[idx div 8 := key ! (idx div 8) OR drop_bit (idx mod 8) 0x80]"

fun key_loop :: "bytes \<Rightarrow> nat \<Rightarrow> nat \<Rightarrow> nat list \<Rightarrow> bytes \<Rightarrow> bytes" where
  "key_loop a keyOffset addrOffset [] key = key"
| "key_loop a keyOffset addrOffset (idx # rest) key =
     (let bits = a ! (idx div 8) AND drop_bit (idx mod 8) 0x80;
          bits = push_bit (idx mod 8) bits;
          keyIdx = keyOffset + (idx - addrOffset);
          bits = drop_bit (keyIdx mod 8) bits;
          i = keyIdx div 8
      in if i \<ge> length key then key
         else key_loop a keyOffset addrOffset rest (key[i := key ! i OR bits]))"

definition GetAddressKey :: "network_domain \<Rightarrow> bytes \<Rightarrow> bytes outcome" where
  "GetAddressKey nd a =
     bind_outcome (GetPrefix nd) (\<lambda>prefix.
       let ones = unat (a ! length prefix);
           key = fold set_one [0..<ones] (replicate public_key_size 0);
           keyOffset = ones + 1;
           addrOffset = 8 * length prefix + 8;
           key = key_loop a keyOffset addrOffset [addrOffset..<8 * length a] key
       in Ret (map NOT key))"

definition GetSubnetKey :: "network_domain \<Rightarrow> bytes \<Rightarrow> bytes outcome" where
  "GetSubnetKey nd s = GetAddressKey nd (go_copy (replicate 16 0) s)"

section \<open>What the code computes\<close>

text \<open>The key's inverted bits; the number of leading ones among them; how many whole bytes follow
  the first zero; and the fourteen payload bytes of the address.\<close>

definition inv_bits :: "bytes \<Rightarrow> bool list" where
  "inv_bits key = map Not (bytes_bits key)"

definition lead :: "bool list \<Rightarrow> nat" where
  "lead bs = length (takeWhile id bs)"

definition payload :: "bool list \<Rightarrow> bytes" where
  "payload bs = go_copy (replicate 14 0) (pack (drop (Suc (lead bs)) bs))"

definition addr_of_bits :: "byte \<Rightarrow> bool list \<Rightarrow> bytes" where
  "addr_of_bits p bs = p # word_of_nat (lead bs) # payload bs"


section \<open>The bit loop of AddrForKey\<close>

lemma key_bit_eq:
  assumes "idx < 8 * length buf"
  shows "key_bit buf idx = of_bool (bytes_bits buf ! idx)"
proof -
  have "drop_bit (7 - idx mod 8) (drop_bit (idx mod 8) (0x80 :: byte)) = 1"
  proof (rule bit_word_eqI)
    fix n assume "n < LENGTH(8)"
    have "bit (drop_bit (7 - idx mod 8) (drop_bit (idx mod 8) (0x80 :: byte))) n
        \<longleftrightarrow> idx mod 8 + (7 - idx mod 8 + n) = 7"
      by (simp only: bit_drop_bit_eq comp_def bit_0x80)
    also have "\<dots> \<longleftrightarrow> n = 0" using mod_less_divisor [of 8 idx] by linarith
    finally show "bit (drop_bit (7 - idx mod 8) (drop_bit (idx mod 8) (0x80 :: byte))) n =
        bit (1 :: byte) n" by (simp add: bit_1_iff)
  qed
  moreover have "key_bit buf idx = drop_bit (7 - idx mod 8)
      (of_bool (bytes_bits buf ! idx) * drop_bit (idx mod 8) 0x80)"
    unfolding key_bit_def using assms by (subst and_mask_0x80) (simp_all add: nth_bytes_bits)
  ultimately show ?thesis by (cases "bytes_bits buf ! idx") simp_all
qed

lemma addr_scan_bits:
  "addr_scan buf = fold (\<lambda>b. addr_step (of_bool b)) (bytes_bits buf) addr_loop_init"
proof -
  have "map (key_bit buf) [0..<8 * length buf] = map of_bool (bytes_bits buf)"
    by (rule nth_equalityI) (simp_all add: key_bit_eq)
  then have "fold addr_step (map (key_bit buf) [0..<8 * length buf]) addr_loop_init =
      fold addr_step (map of_bool (bytes_bits buf)) addr_loop_init" by simp
  then show ?thesis by (simp add: addr_scan_def fold_map comp_def)
qed

abbreviation scan_state :: "bool \<Rightarrow> byte \<Rightarrow> byte \<Rightarrow> nat \<Rightarrow> bytes \<Rightarrow> addr_loop" where
  "scan_state d ones w n t \<equiv>
     \<lparr>lp_done = d, lp_ones = ones, lp_bits = w, lp_nBits = n, lp_temp = t\<rparr>"

lemma lead_simps [simp]:
  "lead [] = 0" "lead (True # bs) = Suc (lead bs)" "lead (False # bs) = 0"
  by (simp_all add: lead_def)

lemma lead_le: "lead bs \<le> length bs"
  by (simp add: lead_def length_takeWhile_le)

lemma addr_step_simps [simp]:
  "addr_step 1 (scan_state False o1 w n t) = scan_state False (o1 + 1) w n t"
  "addr_step 0 (scan_state False o1 w n t) = scan_state True o1 w n t"
  by (simp_all add: addr_step_def)

lemma scan_leading:
  "fold (\<lambda>b. addr_step (of_bool b)) bs (scan_state False o1 w n t) =
     (if lead bs = length bs then scan_state False (o1 + word_of_nat (lead bs)) w n t
      else fold (\<lambda>b. addr_step (of_bool b)) (drop (Suc (lead bs)) bs)
             (scan_state True (o1 + word_of_nat (lead bs)) w n t))"
proof (induction bs arbitrary: o1)
  case (Cons b bs)
  then show ?case by (cases b) (simp_all add: add.assoc)
qed simp

lemma scan_partial:
  "n + length bs < 8 \<Longrightarrow>
     fold (\<lambda>b. addr_step (of_bool b)) bs (scan_state True o1 w n t) =
     scan_state True o1 (fold (\<lambda>b w. push_bit 1 w OR of_bool b) bs w) (n + length bs) t"
  by (induction bs arbitrary: w n) (simp_all add: addr_step_def Let_def)

lemma scan_byte:
  assumes "length bs = 8"
  shows "fold (\<lambda>b. addr_step (of_bool b)) bs (scan_state True o1 w 0 t) =
     scan_state True o1 (byte_of_bits bs) 0 (t @ [byte_of_bits bs])"
proof -
  from assms obtain ys b where bs: "bs = ys @ [b]" and ys: "length ys = 7"
    by (cases bs rule: rev_cases) auto
  have "push_bit 1 (fold (\<lambda>b w. push_bit 1 w OR of_bool b) ys w) OR of_bool b =
      fold (\<lambda>b w. push_bit 1 w OR of_bool b) bs w" by (simp add: bs)
  also have "\<dots> = push_bit 8 w OR byte_of_bits bs"
    by (simp only: byte_of_bits_fold assms)
  also have "push_bit 8 w = 0" by (rule bit_word_eqI) (simp add: bit_push_bit_iff)
  finally have w: "push_bit 1 (fold (\<lambda>b w. push_bit 1 w OR of_bool b) ys w) OR of_bool b =
      byte_of_bits bs" by simp
  have "fold (\<lambda>b. addr_step (of_bool b)) bs (scan_state True o1 w 0 t) =
      addr_step (of_bool b) (fold (\<lambda>b. addr_step (of_bool b)) ys (scan_state True o1 w 0 t))"
    by (simp add: bs)
  also have "\<dots> = addr_step (of_bool b)
      (scan_state True o1 (fold (\<lambda>b w. push_bit 1 w OR of_bool b) ys w) 7 t)"
    using ys by (subst scan_partial) simp_all
  also have "\<dots> = scan_state True o1 (byte_of_bits bs) 0 (t @ [byte_of_bits bs])"
    by (simp only: addr_step_def Let_def w addr_loop.simps) simp
  finally show ?thesis .
qed

lemma scan_payload:
  "lp_temp (fold (\<lambda>b. addr_step (of_bool b)) bs (scan_state True o1 w 0 t)) = t @ pack bs
   \<and> lp_ones (fold (\<lambda>b. addr_step (of_bool b)) bs (scan_state True o1 w 0 t)) = o1"
proof (induction bs arbitrary: w t rule: pack_induct)
  case (short bs)
  then show ?case by (simp add: scan_partial pack_short)
next
  case (step xs bs)
  then show ?case by (simp add: scan_byte pack_step)
qed

lemma addr_scan_result:
  "lp_ones (addr_scan buf) = word_of_nat (lead (bytes_bits buf))"
  "lp_temp (addr_scan buf) = pack (drop (Suc (lead (bytes_bits buf))) (bytes_bits buf))"
  by (simp_all add: addr_scan_bits addr_loop_init_def scan_leading scan_payload)

section \<open>Addresses of keys\<close>

lemma GetPrefix_cases:
  obtains (undecodable) "GetPrefix nd = Panic" | (byte) p where "GetPrefix nd = Ret [p]"
proof (cases "GetPrefix nd")
  case (Ret pre)
  then obtain p where "pre = [p]"
    by (auto simp: GetPrefix_def go_copy_def neq_Nil_conv split: option.splits if_splits)
  with Ret byte show ?thesis by simp
qed (rule undecodable)

lemma GetPrefix_RetD: "GetPrefix nd = Ret pre \<Longrightarrow> \<exists>p. pre = [p]"
  by (rule GetPrefix_cases [of nd]) auto

lemma length_payload [simp]: "length (payload bs) = 14"
  by (simp add: payload_def)

lemma length_addr_of_bits [simp]: "length (addr_of_bits p bs) = 16"
  by (simp add: addr_of_bits_def)

lemma AddrForKey_eq:
  "AddrForKey nd key =
     (if length key \<noteq> 32 then Ret None
      else case GetPrefix nd of Panic \<Rightarrow> Panic
           | Ret pre \<Rightarrow> Ret (Some (addr_of_bits (hd pre) (inv_bits key))))"
proof (cases "length key = 32")
  case True
  show ?thesis
  proof (cases nd rule: GetPrefix_cases)
    case (byte p)
    have "replicate 16 (0 :: byte) = 0 # 0 # replicate 14 0"
      by (simp add: numeral_eq_Suc)
    with True byte show ?thesis
      by (simp add: AddrForKey_def Let_def addr_scan_result inv_bits_def addr_of_bits_def
          payload_def copy_at_def go_copy_def)
  qed (use True in \<open>simp add: AddrForKey_def\<close>)
qed (simp add: AddrForKey_def)

lemma SubnetForKey_eq:
  "SubnetForKey nd key =
     (if length key \<noteq> 32 then Ret None
      else case GetPrefix nd of Panic \<Rightarrow> Panic
           | Ret pre \<Rightarrow> Ret (Some ((hd pre OR 1) # tl (take 8 (addr_of_bits (hd pre) (inv_bits key))))))"
proof (cases "length key = 32")
  case True
  show ?thesis
  proof (cases nd rule: GetPrefix_cases)
    case (byte p)
    with True show ?thesis
      by (simp add: SubnetForKey_def AddrForKey_eq go_copy_long addr_of_bits_def)
  qed (use True in \<open>simp add: SubnetForKey_def AddrForKey_eq\<close>)
qed (simp add: SubnetForKey_def AddrForKey_eq)

end
