(* ===== verification/Address_Key.thy ===== *)
theory Address_Key
  imports Address
begin

text \<open>
  What an address reveals of the key behind it: the loops of \<open>Address.GetKey\<close> as operations on bit
  strings, and the laws that the lookup protocol of src/ipv6rwc rests on.  The partial key of an
  address has that address again, and so has its subnet; two keys have one address exactly
  when they agree on the bits that the address carries.  And the bits of an address as a function of the
  bits of the key.
\<close>

section \<open>Setting single bits of a key\<close>

lemma bytes_bits_set_bit:
  assumes "i < 8 * length key"
  shows "bytes_bits (key[i div 8 := key ! (i div 8) OR of_bool b * drop_bit (i mod 8) 0x80]) =
     (bytes_bits key)[i := bytes_bits key ! i \<or> b]" (is "bytes_bits ?key' = _")
proof (rule nth_equalityI)
  fix j assume "j < length (bytes_bits ?key')"
  then have j: "j < 8 * length key" by simp
  have same: "i div 8 = j div 8 \<and> i mod 8 = j mod 8 \<longleftrightarrow> i = j"
    by (metis div_mult_mod_eq)
  have "bit (of_bool b * drop_bit (i mod 8) 0x80 :: byte) (7 - j mod 8) \<longleftrightarrow> b \<and> i mod 8 = j mod 8"
    by (cases b) (auto simp: bit_mask_0x80)
  then show "bytes_bits ?key' ! j = (bytes_bits key)[i := bytes_bits key ! i \<or> b] ! j"
    using assms j same by (auto simp: nth_bytes_bits nth_list_update bit_or_iff)
qed simp

lemma bytes_bits_set_one:
  "i < 8 * length key \<Longrightarrow> bytes_bits (set_one i key) = (bytes_bits key)[i := True]"
  using bytes_bits_set_bit [of i key True] by (simp add: set_one_def)

lemma length_set_one [simp]: "length (set_one i key) = length key"
  by (simp add: set_one_def)

lemma bytes_bits_ones:
  "n \<le> 8 * m \<Longrightarrow> bytes_bits (fold set_one [0..<n] (replicate m 0)) =
     replicate n True @ replicate (8 * m - n) False
   \<and> length (fold set_one [0..<n] (replicate m 0)) = m"
proof (induction n)
  case (Suc n)
  have "replicate (8 * m - n) False = False # replicate (8 * m - Suc n) False"
    using Suc.prems by (metis Suc_diff_Suc Suc_le_lessD replicate_Suc)
  with Suc show ?case
    by (simp add: bytes_bits_set_one list_update_append replicate_append_same)
qed simp

section \<open>The second loop: copying the address bits\<close>

lemma length_key_loop [simp]: "length (key_loop a ko ao idxs key) = length key"
  by (induction a ko ao idxs key rule: key_loop.induct) (simp add: Let_def)+

lemma shifted_mask:
  "drop_bit k (push_bit m (a AND drop_bit m (0x80 :: byte))) =
     of_bool (m < 8 \<and> bit a (7 - m)) * drop_bit k 0x80"
proof (cases "m < 8")
  case True
  have "push_bit m (drop_bit m (0x80 :: byte)) = 0x80"
  proof (rule bit_word_eqI)
    fix n assume "n < LENGTH(8)"
    then show "bit (push_bit m (drop_bit m (0x80 :: byte))) n = bit (0x80 :: byte) n"
      using True by (simp only: bit_push_bit_iff bit_mask_0x80 bit_0x80) auto
  qed
  with True show ?thesis by (cases "bit a (7 - m)") (simp_all add: and_mask_0x80)
next
  case False
  then have "drop_bit m (0x80 :: byte) = 0"
    by (intro bit_word_eqI) (simp only: bit_mask_0x80 bit_0_eq, simp)
  with False show ?thesis by simp
qed

lemma key_loop_bits:
  assumes "j < 8 * length key" and "ao \<le> i" and "i \<le> 8 * length a"
  shows "bytes_bits (key_loop a ko ao [i..<8 * length a] key) ! j =
     (bytes_bits key ! j \<or>
      (ko + (i - ao) \<le> j \<and> j - ko + ao < 8 * length a \<and> bytes_bits a ! (j - ko + ao)))"
  using assms
proof (induction "8 * length a - i" arbitrary: i key)
  case 0
  then show ?case by auto
next
  case (Suc d)
  then have i: "i < 8 * length a" and upt: "[i..<8 * length a] = i # [Suc i..<8 * length a]"
    by (simp_all add: upt_conv_Cons)
  define k where "k = ko + (i - ao)"
  show ?case
  proof (cases "k div 8 \<ge> length key")
    case True
    then have "j < k" using Suc.prems(1) by linarith
    with True show ?thesis by (simp add: upt Let_def k_def)
  next
    case False
    then have k: "k < 8 * length key" by linarith
    define key' where
      "key' = key[k div 8 := key ! (k div 8) OR of_bool (bytes_bits a ! i) * drop_bit (k mod 8) 0x80]"
    have "key_loop a ko ao [i..<8 * length a] key =
        key_loop a ko ao [Suc i..<8 * length a] key'"
      using False i by (simp add: upt Let_def shifted_mask nth_bytes_bits key'_def k_def
          del: push_bit_and drop_bit_and)
    moreover have "bytes_bits key' = (bytes_bits key)[k := bytes_bits key ! k \<or> bytes_bits a ! i]"
      unfolding key'_def by (rule bytes_bits_set_bit [OF k])
    moreover have "length key' = length key" by (simp add: key'_def)
    ultimately have "bytes_bits (key_loop a ko ao [i..<8 * length a] key) ! j =
        ((bytes_bits key)[k := bytes_bits key ! k \<or> bytes_bits a ! i] ! j \<or>
         (ko + (Suc i - ao) \<le> j \<and> j - ko + ao < 8 * length a \<and> bytes_bits a ! (j - ko + ao)))"
      using Suc.hyps(1) [of "Suc i" key'] Suc.hyps(2) Suc.prems i by simp
    moreover have "k = j \<Longrightarrow> j - ko + ao = i" using Suc.prems(2) by (simp add: k_def)
    moreover have "ko + (Suc i - ao) \<le> j \<longleftrightarrow> k \<le> j \<and> k \<noteq> j" using Suc.prems(2) by (auto simp: k_def)
    ultimately show ?thesis
      using Suc.prems(1) i k by (auto simp: nth_list_update k_def)
  qed
qed

section \<open>The partial key of an address\<close>

text \<open>The inverted bits of the partial key: the ones, a zero, the payload, and zeros.\<close>

definition partial_bits :: "nat \<Rightarrow> bool list \<Rightarrow> bool list" where
  "partial_bits n rest = take 256 (replicate n True @ False # rest @ replicate 256 False)"

lemma length_partial_bits [simp]: "n < 256 \<Longrightarrow> length (partial_bits n rest) = 256"
  by (simp add: partial_bits_def)

lemma nth_partial_bits:
  "j < 256 \<Longrightarrow> partial_bits n rest ! j \<longleftrightarrow>
     j < n \<or> (n + 1 \<le> j \<and> j - (n + 1) < length rest \<and> rest ! (j - (n + 1)))"
  by (auto simp: partial_bits_def nth_append nth_Cons')

lemma GetAddressKey_bits:
  assumes pre: "GetPrefix nd = Ret [p]" and a: "length a = 16"
  obtains key where "GetAddressKey nd a = Ret key" and "length key = 32"
    and "inv_bits key = partial_bits (unat (a ! 1)) (drop 16 (bytes_bits a))"
proof -
  define n where "n = unat (a ! 1)"
  have n: "n < 256" using unsigned_less [of "a ! 1", where 'a = nat] by (simp add: n_def)
  define k1 where "k1 = fold set_one [0..<n] (replicate 32 0)"
  define k2 where "k2 = key_loop a (n + 1) 16 [16..<8 * length a] k1"
  have k1: "bytes_bits k1 = replicate n True @ replicate (256 - n) False" "length k1 = 32"
    using bytes_bits_ones [of n 32] n by (simp_all add: k1_def)
  have "bytes_bits k2 = partial_bits n (drop 16 (bytes_bits a))"
  proof (rule nth_equalityI)
    show "length (bytes_bits k2) = length (partial_bits n (drop 16 (bytes_bits a)))"
      using n k1 by (simp add: k2_def)
    fix j assume "j < length (bytes_bits k2)"
    then have j: "j < 256" by (simp add: k2_def k1)
    have "bytes_bits k2 ! j = (bytes_bits k1 ! j \<or> (n + 1 \<le> j \<and> j - (n + 1) + 16 < 128 \<and>
        bytes_bits a ! (j - (n + 1) + 16)))"
      using key_loop_bits [of j k1 16 16 a "n + 1"] a j k1(2) by (simp add: k2_def)
    with j n a show "bytes_bits k2 ! j = partial_bits n (drop 16 (bytes_bits a)) ! j"
      by (auto simp: nth_partial_bits k1(1) nth_append add.commute)
  qed
  then have "inv_bits (map NOT k2) = partial_bits n (drop 16 (bytes_bits a))"
    by (simp add: inv_bits_def comp_def)
  moreover have "GetAddressKey nd a = Ret (map NOT k2)"
    using a by (simp add: GetAddressKey_def pre Let_def n_def k1_def k2_def)
  moreover have "length (map NOT k2) = 32" by (simp add: k2_def k1)
  ultimately show ?thesis using that n_def by blast
qed

lemma lead_partial_bits: "n < 256 \<Longrightarrow> lead (partial_bits n rest) = n"
proof -
  assume n: "n < 256"
  then have "partial_bits n rest = replicate n True @ False # take (255 - n) (rest @ replicate 256 False)"
    by (simp add: partial_bits_def take_Cons')
  moreover have "lead (replicate m True @ False # xs) = m" for m xs
    by (induction m) simp_all
  ultimately show ?thesis by simp
qed

lemma drop_partial_bits:
  "n < 256 \<Longrightarrow> drop (Suc n) (partial_bits n rest) = take (255 - n) (rest @ replicate 256 False)"
  by (simp add: partial_bits_def take_Cons' drop_take)


section \<open>Looking a key up by its address\<close>

definition carried :: "byte \<Rightarrow> nat" where
  "carried b = min 14 ((255 - unat b) div 8)"

lemma payload_partial_bits:
  assumes n: "n < 256" and r: "length r = 14"
  shows "payload (partial_bits n (bytes_bits r)) =
     take (min 14 ((255 - n) div 8)) r @ replicate (14 - min 14 ((255 - n) div 8)) 0"
proof -
  have "pack (drop (Suc n) (partial_bits n (bytes_bits r))) =
      take ((255 - n) div 8) (r @ replicate 32 0)"
    using n by (simp only: drop_partial_bits pack_take pack_append_bytes pack_zeros) simp
  with n r show ?thesis
    by (simp add: payload_def lead_partial_bits go_copy_def min_def)
qed

lemma AddrForKey_GetAddressKey:
  assumes pre: "GetPrefix nd = Ret [p]" and a: "length a = 16"
  shows "bind_outcome (GetAddressKey nd a) (AddrForKey nd) =
     Ret (Some (p # a ! 1 # take (carried (a ! 1)) (drop 2 a) @ replicate (14 - carried (a ! 1)) 0))"
proof -
  obtain key where key: "GetAddressKey nd a = Ret key" "length key = 32"
      "inv_bits key = partial_bits (unat (a ! 1)) (drop 16 (bytes_bits a))"
    using GetAddressKey_bits [OF pre a] .
  have n: "unat (a ! 1) < 256"
    using unsigned_less [of "a ! 1", where 'a = nat] by simp
  have r: "drop 16 (bytes_bits a) = bytes_bits (drop 2 a)"
    using drop_bytes_bits [of 2 a] by simp
  show ?thesis
    using key n a payload_partial_bits [OF n, of "drop 2 a"]
    by (simp add: AddrForKey_eq pre addr_of_bits_def lead_partial_bits r carried_def)
qed

lemma lead_full: "lead bs = length bs \<Longrightarrow> bs = replicate (length bs) True"
proof (induction bs)
  case (Cons b bs)
  then show ?case by (cases b) auto
qed simp

lemma length_inv_bits [simp]: "length (inv_bits key) = 8 * length key"
  by (simp add: inv_bits_def)

lemma inv_bits_inj: "inv_bits k = inv_bits k' \<Longrightarrow> k = k'"
  unfolding inv_bits_def by (rule bytes_bits_inj) (rule inj_map_eq_map [THEN iffD1, of Not],
    simp_all add: inj_def)

lemma lead_inv_bits:
  assumes "length key = 32"
  shows "lead (inv_bits key) \<le> 256"
    and "lead (inv_bits key) = 256 \<longleftrightarrow> key = replicate 32 0"
proof -
  show "lead (inv_bits key) \<le> 256" using lead_le [of "inv_bits key"] assms by simp
  have zero: "inv_bits (replicate 32 0) = replicate 256 True" by (simp add: inv_bits_def)
  have "lead (replicate m True) = m" for m by (induction m) simp_all
  then have "lead (inv_bits (replicate 32 0)) = 256" by (simp add: zero)
  moreover have "key = replicate 32 0" if "lead (inv_bits key) = 256"
    using lead_full [of "inv_bits key"] that assms by (auto intro: inv_bits_inj simp: zero)
  ultimately show "lead (inv_bits key) = 256 \<longleftrightarrow> key = replicate 32 0" by blast
qed

text \<open>The payload of a key's address is padded with zeros beyond the carried bytes, so it
  survives the way through the partial key, for every number of leading ones.\<close>

lemma payload_stable:
  assumes "length bs = 256"
  shows "take (carried (word_of_nat (lead bs))) (payload bs) @
     replicate (14 - carried (word_of_nat (lead bs))) 0 = payload bs"
proof (cases "lead bs = 256")
  case True
  then have "payload bs = replicate 14 0"
    using assms by (simp add: payload_def go_copy_def)
  then show ?thesis by (simp add: carried_def flip: replicate_add)
next
  case False
  then have n: "lead bs \<le> 255" using lead_le [of bs] assms by simp
  then have c: "carried (word_of_nat (lead bs)) = min 14 ((255 - lead bs) div 8)"
    by (simp add: carried_def unat_of_nat)
  have "length (pack (drop (Suc (lead bs)) bs)) = (255 - lead bs) div 8"
    using assms by (simp add: length_pack)
  then show ?thesis unfolding c payload_def go_copy_def
    by (cases "14 \<le> (255 - lead bs) div 8") (simp_all add: min_def)
qed

lemma addr_of_bits_nth [simp]:
  "addr_of_bits p bs ! Suc 0 = word_of_nat (lead bs)" "drop 2 (addr_of_bits p bs) = payload bs"
  by (simp_all add: addr_of_bits_def)

lemma AddrForKey_partial:
  assumes "GetPrefix nd = Ret [p]" and "length key = 32"
  shows "bind_outcome (GetAddressKey nd (addr_of_bits p (inv_bits key))) (AddrForKey nd) =
     Ret (Some (addr_of_bits p (inv_bits key)))"
  using AddrForKey_GetAddressKey [OF assms(1), of "addr_of_bits p (inv_bits key)"]
    payload_stable [of "inv_bits key"] assms(2)
  by simp (simp add: addr_of_bits_def)

lemma AddrForKey_SomeD:
  assumes "AddrForKey nd key = Ret (Some a)"
  shows "length key = 32 \<and> (\<exists>p. GetPrefix nd = Ret [p] \<and> a = addr_of_bits p (inv_bits key))"
  using assms by (auto simp: AddrForKey_eq split: if_splits outcome.splits dest: GetPrefix_RetD)

lemma SubnetForKey_SomeD:
  assumes "SubnetForKey nd key = Ret (Some s)"
  shows "length key = 32 \<and> (\<exists>p. GetPrefix nd = Ret [p] \<and>
     s = (p OR 1) # tl (take 8 (addr_of_bits p (inv_bits key))))"
  using assms by (auto simp: SubnetForKey_eq split: if_splits outcome.splits dest: GetPrefix_RetD)

lemma take_carried:
  assumes "length P = (14 :: nat)" and "c \<le> 14" and P: "take c P @ replicate (14 - c) z = P"
  shows "take 6 (take c (take 6 P @ replicate 8 z) @ replicate (14 - c) z) = take 6 P"
proof (rule nth_equalityI)
  fix i assume "i < length (take 6 (take c (take 6 P @ replicate 8 z) @ replicate (14 - c) z))"
  then have i: "i < 6" by (simp del: take_append)
  have "P ! i = z" if "\<not> i < c"
    using arg_cong [OF P, of "\<lambda>l. l ! i"] that assms(1,2) i by (simp add: nth_append)
  with assms i show "take 6 (take c (take 6 P @ replicate 8 z) @ replicate (14 - c) z) ! i = take 6 P ! i"
    by (simp add: nth_append)
qed (use assms in \<open>simp del: take_append\<close>)

lemma SubnetForKey_partial:
  assumes pre: "GetPrefix nd = Ret [p]" and key: "length key = 32"
    and s: "SubnetForKey nd key = Ret (Some s)"
  shows "bind_outcome (GetSubnetKey nd s) (SubnetForKey nd) = Ret (Some s)"
proof -
  define P where "P = payload (inv_bits key)"
  define c where "c = carried (word_of_nat (lead (inv_bits key)))"
  define a where "a = (p OR 1) # word_of_nat (lead (inv_bits key)) # take 6 P @ replicate 8 0"
  have s_eq: "s = (p OR 1) # word_of_nat (lead (inv_bits key)) # take 6 P"
    using s by (simp add: SubnetForKey_eq pre key addr_of_bits_def P_def)
  then have "go_copy (replicate 16 0) s = a"
    by (simp add: go_copy_def a_def P_def drop_replicate)
  moreover have a: "length a = 16" "a ! 1 = word_of_nat (lead (inv_bits key))"
      "drop 2 a = take 6 P @ replicate 8 0"
    by (simp_all add: a_def P_def)
  then have "bind_outcome (GetAddressKey nd a) (AddrForKey nd) =
      Ret (Some (p # word_of_nat (lead (inv_bits key)) #
        take c (take 6 P @ replicate 8 0) @ replicate (14 - c) 0))"
    using AddrForKey_GetAddressKey [OF pre a(1)] by (simp add: c_def)
  moreover have "take 6 (take c (take 6 P @ replicate 8 0) @ replicate (14 - c) 0) = take 6 P"
    by (rule take_carried) (use payload_stable [of "inv_bits key"] key in
        \<open>simp_all add: P_def c_def carried_def\<close>)
  ultimately show ?thesis
    by (auto simp: go_simps GetSubnetKey_def SubnetForKey_def pre go_copy_long s_eq
        simp del: take_append)
qed

text \<open>The contract that address lookup relies on, and the code's instance of it.\<close>

locale key_addressing =
  fixes addr_of :: "bytes \<Rightarrow> bytes option outcome"
    and subnet_of :: "bytes \<Rightarrow> bytes option outcome"
    and key_of_addr :: "bytes \<Rightarrow> bytes outcome"
    and key_of_subnet :: "bytes \<Rightarrow> bytes outcome"
  assumes addr_partial:
      "addr_of k = Ret (Some a) \<Longrightarrow> \<exists>k'. key_of_addr a = Ret k' \<and> addr_of k' = Ret (Some a)"
    and subnet_partial:
      "subnet_of k = Ret (Some s) \<Longrightarrow> \<exists>k'. key_of_subnet s = Ret k' \<and> subnet_of k' = Ret (Some s)"
    and addr_subnet:
      "addr_of k = Ret (Some a) \<Longrightarrow> addr_of k' = Ret (Some a) \<Longrightarrow> subnet_of k' = subnet_of k"
    and addr_gives_subnet:
      "addr_of k = Ret (Some a) \<Longrightarrow> \<exists>s. subnet_of k = Ret (Some s)"
begin

text \<open>The partial key that a node sends out to find the owner of an address lies in the owner's
  subnet: the owner, which compares subnets only, recognises the lookup as its own.\<close>

lemma lookup_by_addr:
  assumes "addr_of k = Ret (Some a)"
  obtains k' s where "key_of_addr a = Ret k'" "subnet_of k' = Ret (Some s)" "subnet_of k = Ret (Some s)"
  using addr_partial [OF assms] addr_subnet [OF assms] addr_gives_subnet [OF assms] that by metis

lemma lookup_by_subnet:
  assumes "subnet_of k = Ret (Some s)"
  obtains k' where "key_of_subnet s = Ret k'" "subnet_of k' = Ret (Some s)"
  using subnet_partial [OF assms] by blast

end

interpretation overlay:
  key_addressing "AddrForKey nd" "SubnetForKey nd" "GetAddressKey nd" "GetSubnetKey nd" for nd
proof unfold_locales
  fix k a assume "AddrForKey nd k = Ret (Some a)"
  then show "\<exists>k'. GetAddressKey nd a = Ret k' \<and> AddrForKey nd k' = Ret (Some a)"
    by (auto dest!: AddrForKey_SomeD simp: go_simps dest: AddrForKey_partial)
next
  fix k s assume s: "SubnetForKey nd k = Ret (Some s)"
  then obtain p where "GetPrefix nd = Ret [p]" "length k = 32"
    by (auto dest!: SubnetForKey_SomeD)
  from SubnetForKey_partial [OF this s]
  show "\<exists>k'. GetSubnetKey nd s = Ret k' \<and> SubnetForKey nd k' = Ret (Some s)"
    by (auto simp: go_simps)
next
  fix k k' a assume "AddrForKey nd k = Ret (Some a)" "AddrForKey nd k' = Ret (Some a)"
  then show "SubnetForKey nd k' = SubnetForKey nd k"
    by (simp add: SubnetForKey_def)
next
  fix k a assume a: "AddrForKey nd k = Ret (Some a)"
  then show "\<exists>s. SubnetForKey nd k = Ret (Some s)"
    by (auto dest!: AddrForKey_SomeD simp: SubnetForKey_eq)
qed

section \<open>Properties\<close>

text \<open>C17: looking an address up loses nothing.  For every key, valid or not, and every configured
  prefix, the partial key recovered from the key's address has that same address again; the
  panics and the \<open>nil\<close> of a key of the wrong length come out alike.\<close>

theorem addr_of_partial_key:
  "bind_outcome (AddrForKey nd key)
     (\<lambda>r. case r of None \<Rightarrow> Ret None
        | Some a \<Rightarrow> bind_outcome (GetAddressKey nd a) (AddrForKey nd)) = AddrForKey nd key"
proof (cases "AddrForKey nd key")
  case (Ret r)
  then show ?thesis
    by (cases r) (auto dest!: AddrForKey_SomeD simp: AddrForKey_partial)
qed simp

text \<open>the same for subnets: the partial key recovered from the subnet of a key, eight bytes that
  are padded with zeros, has that same subnet again.\<close>

theorem subnet_of_partial_key:
  "bind_outcome (SubnetForKey nd key)
     (\<lambda>r. case r of None \<Rightarrow> Ret None
        | Some s \<Rightarrow> bind_outcome (GetSubnetKey nd s) (SubnetForKey nd)) = SubnetForKey nd key"
proof (cases "SubnetForKey nd key")
  case (Ret r)
  show ?thesis
  proof (cases r)
    case (Some s)
    with Ret obtain p where "GetPrefix nd = Ret [p]" "length key = 32"
      using SubnetForKey_SomeD by blast
    from SubnetForKey_partial [OF this] Ret Some show ?thesis by simp
  qed (simp add: Ret)
qed simp

lemma take_Suc_lead:
  "lead bs < length bs \<Longrightarrow> take (Suc (lead bs)) bs = replicate (lead bs) True @ [False]"
proof (induction bs)
  case (Cons b bs)
  then show ?case by (cases b) simp_all
qed simp

lemma bytes_bits_payload:
  assumes "length bs = 256" and "lead bs < 256"
  shows "bytes_bits (payload bs) =
     take (8 * min 14 ((255 - lead bs) div 8)) (drop (Suc (lead bs)) bs)
     @ replicate (112 - 8 * min 14 ((255 - lead bs) div 8)) False"
proof -
  define q where "q = (255 - lead bs) div 8"
  have q: "8 * q \<le> 255 - lead bs" by (simp add: q_def)
  have "length (drop (Suc (lead bs)) bs) div 8 = q" using assms by (simp add: q_def)
  then have "bytes_bits (payload bs) =
      go_copy (replicate 112 False) (take (8 * q) (drop (Suc (lead bs)) bs))"
    by (simp add: payload_def bytes_bits_go_copy bytes_bits_pack)
  also have "\<dots> = take (8 * min 14 q) (drop (Suc (lead bs)) bs) @ replicate (112 - 8 * min 14 q) False"
    using q assms by (cases "14 \<le> q") (simp_all add: go_copy_def min_def)
  finally show ?thesis by (simp add: q_def)
qed

text \<open>How many leading bits of a key its address carries, read off the address.\<close>

definition known_bits :: "bytes \<Rightarrow> nat" where
  "known_bits a = unat (a ! 1) + 1 + 8 * carried (a ! 1)"

lemma partial_key_bits_aux:
  assumes addr: "AddrForKey nd key = Ret (Some a)" and nz: "key \<noteq> replicate 32 0"
  shows "\<exists>k'. GetAddressKey nd a = Ret k' \<and> known_bits a \<le> 256 \<and>
     bytes_bits k' = take (known_bits a) (bytes_bits key) @ replicate (256 - known_bits a) True"
proof -
  from addr obtain p where key: "length key = 32" and pre: "GetPrefix nd = Ret [p]"
    and a: "a = addr_of_bits p (inv_bits key)" using AddrForKey_SomeD by blast
  define bs where "bs = inv_bits key"
  define n where "n = lead bs"
  define c where "c = min 14 ((255 - n) div 8)"
  have bs: "length bs = 256" using key by (simp add: bs_def)
  have n: "n < 256" using lead_inv_bits [OF key] nz by (simp add: n_def bs_def)
  have c: "8 * c + n + 1 \<le> 256" using n by (simp add: c_def)
  have a1: "unat (a ! 1) = n" using n by (simp add: a unat_of_nat n_def bs_def)
  have m: "known_bits a = Suc n + 8 * c" using a1 by (simp add: known_bits_def carried_def c_def)
  have la: "length a = 16" by (simp add: a)
  have rest: "drop 16 (bytes_bits a) = bytes_bits (payload bs)"
    using drop_bytes_bits [of 2 a] by (simp add: a bs_def)
  obtain k' where k': "GetAddressKey nd a = Ret k'" "length k' = 32"
      "inv_bits k' = partial_bits n (bytes_bits (payload bs))"
    using GetAddressKey_bits [OF pre la] unfolding a1 rest .
  have "inv_bits k' = take 256 (take (Suc n) bs @ take (8 * c) (drop (Suc n) bs)
      @ replicate (112 - 8 * c) False @ replicate 256 False)"
    using take_Suc_lead [of bs] bytes_bits_payload [of bs] n bs
    by (simp add: k'(3) partial_bits_def n_def c_def)
  also have "take (Suc n) bs @ take (8 * c) (drop (Suc n) bs) = take (known_bits a) bs"
    by (simp only: m take_add)
  then have "take 256 (take (Suc n) bs @ take (8 * c) (drop (Suc n) bs)
      @ replicate (112 - 8 * c) False @ replicate 256 False) =
      take (known_bits a) bs @ replicate (256 - known_bits a) False"
    using c bs by (simp only: append_assoc [symmetric] replicate_add [symmetric]) (simp add: m)
  finally have "map Not (inv_bits k') = map Not (take (known_bits a) bs @ replicate (256 - known_bits a) False)"
    by simp
  then have "bytes_bits k' = take (known_bits a) (bytes_bits key) @ replicate (256 - known_bits a) True"
    by (simp add: inv_bits_def bs_def comp_def take_map)
  with k'(1) c show ?thesis by (simp add: m)
qed

text \<open>the partial key of an address is the key itself in the leading bits that the address
  carries, and ones after them.  (Only the all-zero key is excluded, whose 256 leading ones do
  not fit the byte that counts them.)\<close>

theorem partial_key_bits:
  assumes "AddrForKey nd key = Ret (Some a)" and "key \<noteq> replicate 32 0"
  shows "\<exists>k'. GetAddressKey nd a = Ret k' \<and> known_bits a \<le> 256 \<and>
     bytes_bits k' = take (known_bits a) (bytes_bits key) @ replicate (256 - known_bits a) True"
  using assms by (rule partial_key_bits_aux)

definition test_domain :: network_domain where
  "test_domain = \<lparr>Prefix = ''fc''\<rparr>"

definition test_key :: bytes where
  "test_key = [189, 186, 207, 216, 34, 64, 222, 61, 205, 18, 57, 36, 203, 181, 82, 86,
     251, 141, 171, 8, 170, 152, 227, 5, 82, 138, 184, 79, 65, 158, 110, 251]"

text \<open>The vectors of src/core/address_test.go.\<close>

lemma test_AddrForKey:
  "AddrForKey test_domain test_key =
     Ret (Some [0xfc, 0, 132, 138, 96, 79, 187, 126, 67, 132, 101, 219, 141, 182, 104, 149])"
  by code_simp

lemma test_SubnetForKey:
  "SubnetForKey test_domain test_key = Ret (Some [0xfd, 0, 132, 138, 96, 79, 187, 126])"
  by code_simp

lemma test_GetAddressKey:
  "GetAddressKey test_domain [0xfc, 0, 132, 138, 96, 79, 187, 126, 67, 132, 101, 219, 141, 182, 104, 149] =
     Ret [189, 186, 207, 216, 34, 64, 222, 61, 205, 18, 57, 36, 203, 181, 127, 255,
       255, 255, 255, 255, 255, 255, 255, 255, 255, 255, 255, 255, 255, 255, 255, 255]"
  by code_simp

lemma test_GetSubnetKey:
  "GetSubnetKey test_domain [0xfd, 0, 132, 138, 96, 79, 187, 126] =
     Ret [189, 186, 207, 216, 34, 64, 255, 255, 255, 255, 255, 255, 255, 255, 255, 255,
       255, 255, 255, 255, 255, 255, 255, 255, 255, 255, 255, 255, 255, 255, 255, 255]"
  by code_simp

theorem partial_key_bits_witness:
  "\<exists>k'. GetAddressKey test_domain
        [0xfc, 0, 132, 138, 96, 79, 187, 126, 67, 132, 101, 219, 141, 182, 104, 149] = Ret k' \<and>
     bytes_bits k' = take 113 (bytes_bits test_key) @ replicate 143 True"
proof -
  have nz: "test_key \<noteq> replicate 32 0" by code_simp
  have "known_bits [0xfc, 0, 132, 138, 96, 79, 187, 126, 67, 132, 101, 219, 141, 182, 104, 149] = 113"
    by code_simp
  with partial_key_bits [OF test_AddrForKey nz] show ?thesis by (simp del: take_append)
qed

text \<open>The byte that counts the leading ones wraps at 256: the all-zero key and the all-ones key share one address.
  (The code assumes that the count stays below that.)\<close>

lemma zero_key_address:
  "AddrForKey nd (replicate 32 0) = AddrForKey nd (replicate 32 255)"
proof -
  have ff: "inv_bits (replicate 32 255) = replicate 256 False" by code_simp
  have "lead (inv_bits (replicate 32 0)) = 256" using lead_inv_bits [of "replicate 32 0"] by simp
  moreover have "lead (replicate 256 False) = 0" by code_simp
  moreover have "payload (replicate 256 False) = replicate 14 0"
    using pack_zeros [of 255]
    by (simp add: payload_def go_copy_def \<open>lead (replicate 256 False) = 0\<close> drop_replicate)
  moreover have "payload (inv_bits (replicate 32 0)) = replicate 14 0"
    using \<open>lead (inv_bits (replicate 32 0)) = 256\<close> by (simp add: payload_def go_copy_def)
  ultimately have "addr_of_bits p (inv_bits (replicate 32 0)) = addr_of_bits p (inv_bits (replicate 32 255))"
    for p by (simp add: addr_of_bits_def ff)
  then show ?thesis by (simp add: AddrForKey_eq split: outcome.splits)
qed

text \<open>The keys with one address.  The bits after the leading ones and the zero count in whole bytes, at most
  fourteen; the all-zero key has as many leading ones, modulo 256, as the all-ones key.\<close>

lemma addr_of_bits_eq_iff:
  assumes "length bs = 256" and "length bs' = 256" and "lead bs < 256" and "lead bs' < 256"
  shows "addr_of_bits p bs = addr_of_bits p bs' \<longleftrightarrow>
     take (known_bits (addr_of_bits p bs)) bs = take (known_bits (addr_of_bits p bs)) bs'"
proof -
  define n where "n = lead bs"
  define c where "c = 8 * min 14 ((255 - n) div 8)"
  have known: "known_bits (addr_of_bits p bs) = Suc n + c"
    using assms(3) by (simp add: known_bits_def carried_def unat_of_nat n_def c_def)
  have n: "n < 256" using assms(3) by (simp add: n_def)
  have head: "take (Suc n) bs = replicate n True @ [False]"
    using take_Suc_lead [of bs] assms by (simp add: n_def)
  have count: "(word_of_nat (lead bs) = (word_of_nat (lead bs') :: byte)) \<longleftrightarrow> lead bs' = n"
    using assms(3,4) by (auto simp: n_def dest: arg_cong [where f = unat] simp: unat_of_nat)
  have lead': "lead bs' = n \<longleftrightarrow> take (Suc n) bs' = replicate n True @ [False]"
  proof
    assume "lead bs' = n"
    then show "take (Suc n) bs' = replicate n True @ [False]" using take_Suc_lead [of bs'] n assms(2) by simp
  next
    assume t: "take (Suc n) bs' = replicate n True @ [False]"
    have "lead (replicate m True @ False # xs) = m" for m xs by (induction m) simp_all
    then show "lead bs' = n" by (metis t append.assoc append_Cons append_Nil append_take_drop_id)
  qed
  have "payload bs = payload bs' \<longleftrightarrow> take c (drop (Suc n) bs) = take c (drop (Suc n) bs')" if "lead bs' = n"
  proof -
    have "payload bs = payload bs' \<longleftrightarrow> bytes_bits (payload bs) = bytes_bits (payload bs')"
      by (auto intro: bytes_bits_inj)
    then show ?thesis
      using bytes_bits_payload [OF assms(1,3)] bytes_bits_payload [OF assms(2,4)] that
      by (simp add: c_def n_def)
  qed
  moreover have "replicate n True @ False # xs = take (Suc n) bs' @ ys \<longleftrightarrow>
      replicate n True @ [False] = take (Suc n) bs' \<and> xs = ys" for xs ys
    using append_eq_append_conv [of "replicate n True @ [False]" "take (Suc n) bs'" xs ys] n assms(2) by simp
  ultimately show ?thesis
    unfolding known take_add by (auto simp: addr_of_bits_def count lead' head)
qed

definition counted :: "bytes \<Rightarrow> bytes" where
  "counted key = (if key = replicate 32 0 then replicate 32 255 else key)"

lemma counted_props:
  assumes "length key = 32"
  shows "length (counted key) = 32" and "lead (inv_bits (counted key)) < 256"
    and "AddrForKey nd (counted key) = AddrForKey nd key"
proof -
  have "replicate 32 (255 :: byte) \<noteq> replicate 32 0" by code_simp
  then have nz: "counted key \<noteq> replicate 32 0" by (auto simp: counted_def)
  show l: "length (counted key) = 32" using assms by (simp add: counted_def)
  show "lead (inv_bits (counted key)) < 256" using lead_inv_bits [OF l] nz by simp
  show "AddrForKey nd (counted key) = AddrForKey nd key"
    by (simp add: counted_def zero_key_address)
qed

text \<open>C18: which keys share an address: exactly those that agree in the leading bits that the address carries, whose
  number can be read off the address and is 113 at least.  The all-zero key counts as the all-ones key,
  because the byte with the number of its leading zeros wraps.\<close>

theorem address_collision:
  assumes "AddrForKey nd k1 = Ret (Some a)" and "length k2 = 32"
  shows "(AddrForKey nd k2 = Ret (Some a) \<longleftrightarrow>
       take (known_bits a) (bytes_bits (counted k1)) = take (known_bits a) (bytes_bits (counted k2)))
     \<and> 113 \<le> known_bits a \<and> known_bits a \<le> 256"
proof -
  obtain p where k1: "length k1 = 32" and pre: "GetPrefix nd = Ret [p]"
    using AddrForKey_SomeD [OF assms(1)] by blast
  note c1 = counted_props(1,2) [OF k1] and c2 = counted_props(1,2) [OF assms(2)]
  have addr: "AddrForKey nd k = Ret (Some (addr_of_bits p (inv_bits (counted k))))" if "length k = 32" for k
    by (subst counted_props(3) [OF that, symmetric]) (simp add: AddrForKey_eq pre counted_props(1) that)
  have a: "a = addr_of_bits p (inv_bits (counted k1))" using addr [OF k1] assms(1) by simp
  have "AddrForKey nd k2 = Ret (Some a) \<longleftrightarrow> addr_of_bits p (inv_bits (counted k1)) = addr_of_bits p (inv_bits (counted k2))"
    by (auto simp: addr [OF assms(2)] a)
  also have "\<dots> \<longleftrightarrow> take (known_bits a) (inv_bits (counted k1)) = take (known_bits a) (inv_bits (counted k2))"
    using addr_of_bits_eq_iff [of "inv_bits (counted k1)" "inv_bits (counted k2)" p] c1 c2 by (simp add: a)
  also have "\<dots> \<longleftrightarrow> take (known_bits a) (bytes_bits (counted k1)) = take (known_bits a) (bytes_bits (counted k2))"
    by (simp add: inv_bits_def take_map inj_map_eq_map inj_def)
  finally have same: "AddrForKey nd k2 = Ret (Some a) \<longleftrightarrow>
      take (known_bits a) (bytes_bits (counted k1)) = take (known_bits a) (bytes_bits (counted k2))" .
  have "unat (a ! 1) < 256" using unsigned_less [of "a ! 1", where 'a = nat] by simp
  then have "113 \<le> known_bits a \<and> known_bits a \<le> 256" by (simp add: known_bits_def carried_def min_def) linarith
  with same show ?thesis by blast
qed

theorem address_collision_witness:
  "AddrForKey test_domain (test_key[31 := 0]) = AddrForKey test_domain test_key
   \<and> AddrForKey test_domain (test_key[14 := 255]) \<noteq> AddrForKey test_domain test_key"
proof -
  have known: "known_bits [0xfc, 0, 132, 138, 96, 79, 187, 126, 67, 132, 101, 219, 141, 182, 104, 149] = 113"
    by code_simp
  have "take 113 (bytes_bits (counted test_key)) = take 113 (bytes_bits (counted (test_key[31 := 0])))"
    "take 113 (bytes_bits (counted test_key)) \<noteq> take 113 (bytes_bits (counted (test_key[14 := 255])))"
    by code_simp+
  moreover have "length (test_key[31 := 0]) = 32" "length (test_key[14 := 255]) = 32" by code_simp+
  ultimately show ?thesis
    using address_collision [OF test_AddrForKey, of "test_key[31 := 0]"]
      address_collision [OF test_AddrForKey, of "test_key[14 := 255]"]
    by (simp only: known test_AddrForKey) blast
qed

text \<open>C19: the address of a key as its bits: after the prefix byte comes the number of leading zeros of the key modulo
  256, then the inverted bits after the first one, as many whole bytes of them as there are, up to fourteen,
  filled with zeros.  The subnet of the key is the first half of the address with the last bit of the
  prefix set.  So the loop over single bits, with its counters and the byte under construction,
  computes what the function's comment says of the count and of the bits after it.\<close>

theorem address_bits:
  assumes "GetPrefix nd = Ret [p]" and "length key = 32"
    and "z = length (takeWhile Not (bytes_bits key))" and "rest = map Not (drop (z + 1) (bytes_bits key))"
  shows "\<exists>a. AddrForKey nd key = Ret (Some a) \<and> length a = 16 \<and> a ! 0 = p \<and> unat (a ! 1) = z mod 256
     \<and> bytes_bits (drop 2 a) = take 112 (take (8 * (length rest div 8)) rest @ replicate 112 False)
     \<and> SubnetForKey nd key = Ret (Some ((p OR 1) # take 7 (drop 1 a)))"
proof -
  have z: "z = lead (inv_bits key)"
    by (simp add: assms(3) lead_def inv_bits_def takeWhile_map comp_def)
  have rest: "rest = drop (Suc (lead (inv_bits key))) (inv_bits key)"
    by (simp add: assms(4) z inv_bits_def drop_map)
  have "bytes_bits (payload (inv_bits key)) = go_copy (replicate 112 False) (take (8 * (length rest div 8)) rest)"
    by (simp add: payload_def bytes_bits_go_copy bytes_bits_pack rest)
  also have "\<dots> = take 112 (take (8 * (length rest div 8)) rest @ replicate 112 False)"
    by (simp add: go_copy_def min_def)
  finally have "bytes_bits (drop 2 (addr_of_bits p (inv_bits key))) =
      take 112 (take (8 * (length rest div 8)) rest @ replicate 112 False)" by simp
  then show ?thesis
    using assms(1,2) by (simp add: AddrForKey_eq SubnetForKey_eq addr_of_bits_def unat_of_nat z)
qed

theorem address_bits_witness:
  "bytes_bits [132, 138, 96, 79, 187, 126, 67, 132, 101, 219, 141, 182, 104, 149] =
     take 112 (map Not (drop 1 (bytes_bits test_key)))"
proof -
  have z: "length (takeWhile Not (bytes_bits test_key)) = 0" and l: "length test_key = 32" by code_simp+
  have r: "length (map Not (drop (0 + 1) (bytes_bits test_key))) = 255" using l by simp
  have pre: "GetPrefix test_domain = Ret [0xfc]" by code_simp
  from address_bits [OF pre l z [symmetric] refl] show ?thesis
    unfolding r by (simp add: test_AddrForKey l)
qed

text \<open>the addresses and subnets that nodes derive are in the range that the code accepts for
  each; and an address in range is also a subnet in range exactly when the configured prefix
  byte is odd, because the code sets the last prefix bit for subnets and never clears it for
  addresses.\<close>

theorem address_ranges:
  assumes "AddrForKey nd key = Ret (Some a)" and "SubnetForKey nd key = Ret (Some s)"
  shows "IsValidAddress nd a = Ret True \<and> IsValidSubnet nd s = Ret True
     \<and> (\<exists>p. GetPrefix nd = Ret [p] \<and> IsValidSubnet nd (take 8 a) = Ret (odd p)
           \<and> IsValidAddress nd s = Ret (odd p))"
proof -
  obtain p where pre: "GetPrefix nd = Ret [p]" and a: "a = addr_of_bits p (inv_bits key)"
    using AddrForKey_SomeD [OF assms(1)] by blast
  have s: "s = (p OR 1) # tl (take 8 (addr_of_bits p (inv_bits key)))"
    using SubnetForKey_SomeD [OF assms(2)] pre by auto
  have "p OR 1 = p \<longleftrightarrow> bit p 0"
    by (metis bit_or_iff bit_1_iff bit_word_eqI)
  then have odd: "p OR 1 = p \<longleftrightarrow> odd p" by (simp add: bit_0)
  show ?thesis
    using odd by (auto simp: IsValidAddress_def IsValidSubnet_def pre a s addr_of_bits_def)
qed

theorem address_ranges_witness:
  "IsValidAddress test_domain
     [0xfc, 0, 132, 138, 96, 79, 187, 126, 67, 132, 101, 219, 141, 182, 104, 149] = Ret True
   \<and> IsValidSubnet test_domain [0xfd, 0, 132, 138, 96, 79, 187, 126] = Ret True"
  using address_ranges [OF test_AddrForKey test_SubnetForKey] by simp

end
