(* ===== verification/Genkeys.thy ===== *)
theory Genkeys
  imports Address_Key
begin

text \<open>
  cmd/genkeys/main.go: the search for good keys.  \<open>isBetter\<close> compares two public keys, worker
  threads (\<open>doKeys\<close>) send every key that beats their own best, and the main loop prints each key
  that beats the best so far.  A better key is a numerically smaller one, and the header comment
  of the file says that it has a higher address; the theorem says so too.
\<close>

section \<open>The code\<close>

text \<open>The loop ranges over the old key; indexing past the end of the new one panics.\<close>

fun isBetter :: "bytes \<Rightarrow> bytes \<Rightarrow> bool outcome" where
  "isBetter [] newPub = Ret False"
| "isBetter (x # oldPub) [] = Panic"
| "isBetter (x # oldPub) (y # newPub) =
     (if y < x then Ret True
      else if y > x then Ret False
      else isBetter oldPub newPub)"

text \<open>One worker: it starts from the all-ones key and sends a key when it beats its best.\<close>

fun doKeys :: "bytes \<Rightarrow> bytes list \<Rightarrow> bytes list outcome" where
  "doKeys bestKey [] = Ret []"
| "doKeys bestKey (pub # generated) =
     bind_outcome (isBetter bestKey pub) (\<lambda>better.
       if \<not> better then doKeys bestKey generated
       else bind_outcome (doKeys pub generated) (\<lambda>sent. Ret (pub # sent)))"

definition doKeys_start :: bytes where
  "doKeys_start = replicate public_key_size 0xff"

text \<open>The main loop over the keys received, with the keys it takes as \<open>currentBest\<close> in order.\<close>

fun main_loop :: "bytes \<Rightarrow> bytes list \<Rightarrow> (bytes \<times> bytes list) outcome" where
  "main_loop currentBest [] = Ret (currentBest, [])"
| "main_loop currentBest (newPub # newKeys) =
     bind_outcome (isBetter currentBest newPub) (\<lambda>better.
       if better \<or> length currentBest = 0
       then bind_outcome (main_loop newPub newKeys) (\<lambda>(best, printed). Ret (best, newPub # printed))
       else main_loop currentBest newKeys)"

text \<open>The address printed with a key: the node is made with no \<open>NetworkDomain\<close> option, so its prefix
  is the empty string.\<close>

definition genkeys_domain :: network_domain where
  "genkeys_domain = \<lparr>Prefix = ''''\<rparr>"

definition genkeys_print_ip :: "bytes \<Rightarrow> bytes outcome" where
  "genkeys_print_ip pub =
     bind_outcome (AddrForKey genkeys_domain pub)
       (\<lambda>addr. case addr of None \<Rightarrow> Panic | Some a \<Rightarrow> Ret a)"

section \<open>Keys and addresses as numbers\<close>

fun bits_nat :: "bool list \<Rightarrow> nat" where
  "bits_nat [] = 0"
| "bits_nat (b # bs) = of_bool b * 2 ^ length bs + bits_nat bs"

definition number :: "bytes \<Rightarrow> nat" where
  "number xs = bits_nat (bytes_bits xs)"

lemma bits_nat_append: "bits_nat (xs @ ys) = bits_nat xs * 2 ^ length ys + bits_nat ys"
  by (induction xs) (simp_all add: power_add algebra_simps)

lemma bits_nat_less: "bits_nat bs < 2 ^ length bs"
  by (induction bs) auto

lemma bits_nat_replicate [simp]: "bits_nat (replicate n False) = 0"
  by (induction n) simp_all

lemma bits_nat_ones: "bits_nat (replicate n True) = 2 ^ n - 1"
  by (induction n) simp_all

lemma bits_nat_Not: "bits_nat (map Not bs) + bits_nat bs + 1 = 2 ^ length bs"
  by (induction bs) auto

lemma bits_nat_byte: "bits_nat (byte_bits x) = unat x"
proof -
  have "unat (byte_of_bits bs) = bits_nat bs" if "length bs \<le> 8" for bs
    using that
  proof (induction bs rule: rev_induct)
    case (snoc b bs)
    have "bits_nat bs < 2 ^ 7"
      using bits_nat_less [of bs] snoc.prems power_increasing [of "length bs" 7 "2 :: nat"] by simp
    have "push_bit 1 (byte_of_bits bs) AND of_bool b = 0"
      by (rule bit_word_eqI) (auto simp: bit_simps simp del: push_bit_Suc)
    then have "byte_of_bits (bs @ [b]) = push_bit 1 (byte_of_bits bs) + of_bool b"
      by (simp only: byte_of_bits_snoc disjunctive_add_eq_or)
    then have "byte_of_bits (bs @ [b]) = 2 * byte_of_bits bs + of_bool b" by simp
    with snoc \<open>bits_nat bs < 2 ^ 7\<close> show ?case
      by (simp add: bits_nat_append unat_word_ariths)
  qed (simp add: byte_of_bits_def)
  from this [of "byte_bits x"] show ?thesis by simp
qed

lemma number_simps [simp]:
  "number [] = 0" "number (x # xs) = unat x * 2 ^ (8 * length xs) + number xs"
  by (simp_all add: number_def bits_nat_append bits_nat_byte)

lemma number_less: "number xs < 2 ^ (8 * length xs)"
  using bits_nat_less [of "bytes_bits xs"] by (simp add: number_def)

lemma isBetter_number:
  "length oldPub = length newPub \<Longrightarrow> isBetter oldPub newPub = Ret (number newPub < number oldPub)"
proof (induction oldPub newPub rule: isBetter.induct)
  case (3 x oldPub y newPub)
  have smaller: "unat a * 2 ^ l + m < unat b * 2 ^ l + n" if "a < b" "m < 2 ^ l" for a b :: byte and l m n
  proof -
    have "unat a + 1 \<le> unat b" using that(1) by (simp add: word_less_nat_alt)
    then have "(unat a + 1) * 2 ^ l \<le> unat b * 2 ^ l" by (rule mult_right_mono) simp
    with that(2) show ?thesis by (simp add: algebra_simps)
  qed
  show ?case
  proof (cases x y rule: linorder_cases)
    case less
    have "\<not> unat y * 2 ^ (8 * length newPub) + number newPub
        < unat x * 2 ^ (8 * length newPub) + number oldPub"
      using smaller [OF less number_less [of oldPub], of "number newPub"] 3 by simp
    with less 3 show ?thesis by simp
  next
    case equal
    with 3 show ?thesis by simp
  next
    case greater
    with smaller [OF greater number_less [of newPub]] 3 show ?thesis by simp
  qed
qed simp_all

section \<open>Better keys have higher addresses\<close>

lemma lead_mono:
  "length X = length Y \<Longrightarrow> bits_nat X \<le> bits_nat Y \<Longrightarrow> lead X \<le> lead Y"
proof (induction X Y rule: list_induct2)
  case (Cons x xs y ys)
  then show ?case using bits_nat_less [of ys] by (cases x; cases y) simp_all
qed simp

lemma bits_nat_take: "m \<le> length D \<Longrightarrow> bits_nat (take m D) = bits_nat D div 2 ^ (length D - m)"
  using bits_nat_append [of "take m D" "drop m D"] bits_nat_less [of "drop m D"] by simp

lemma bits_nat_drop_lead:
  assumes "length X = length Y" and "bits_nat X \<le> bits_nat Y"
    and "lead X = lead Y" and "lead X < length X"
  shows "bits_nat (drop (Suc (lead Y)) X) \<le> bits_nat (drop (Suc (lead Y)) Y)"
proof -
  have "take (Suc (lead Y)) X = take (Suc (lead Y)) Y"
    using take_Suc_lead [of X] take_Suc_lead [of Y] assms by simp
  moreover have "bits_nat Z = bits_nat (take k Z) * 2 ^ (length Z - k) + bits_nat (drop k Z)" for Z k
    using bits_nat_append [of "take k Z" "drop k Z"] by simp
  ultimately show ?thesis using assms(1,2) by (metis nat_add_left_cancel_le)
qed

lemma number_payload:
  assumes "length X = 256" and "lead X < 256"
  shows "number (payload X) =
     bits_nat (take (8 * min 14 ((255 - lead X) div 8)) (drop (Suc (lead X)) X))
     * 2 ^ (112 - 8 * min 14 ((255 - lead X) div 8))"
  using assms by (simp add: number_def bytes_bits_payload bits_nat_append)

lemma number_payload_mono:
  assumes X: "length X = 256" and Y: "length Y = 256" and le: "bits_nat X \<le> bits_nat Y"
    and lead: "lead X = lead Y" "lead Y < 256"
  shows "number (payload X) \<le> number (payload Y)"
proof -
  define m where "m = 8 * min 14 ((255 - lead Y) div 8)"
  have "m \<le> 255 - lead Y" by (simp add: m_def)
  then have "bits_nat (take m (drop (Suc (lead Y)) X)) \<le> bits_nat (take m (drop (Suc (lead Y)) Y))"
    using bits_nat_drop_lead [of X Y] assms by (simp add: bits_nat_take div_le_mono)
  then have "bits_nat (take m (drop (Suc (lead Y)) X)) * 2 ^ (112 - m)
      \<le> bits_nat (take m (drop (Suc (lead Y)) Y)) * 2 ^ (112 - m)"
    by (rule mult_right_mono) simp
  then show ?thesis
    using number_payload [OF X] number_payload [OF Y] unfolding lead(1) m_def
    by (simp only: lead(2) simp_thms)
qed

lemma number_addr:
  "number (addr_of_bits p X) =
     unat p * 2 ^ 120 + unat (word_of_nat (lead X) :: byte) * 2 ^ 112 + number (payload X)"
  by (simp add: addr_of_bits_def)

lemma number_addr_mono:
  assumes X: "length X = 256" and Y: "length Y = 256" and le: "bits_nat X \<le> bits_nat Y"
    and lead: "lead Y < 256"
  shows "number (addr_of_bits p X) \<le> number (addr_of_bits p Y)"
proof (cases "lead X = lead Y")
  case True
  with number_payload_mono [OF X Y le True lead] show ?thesis by (simp add: number_addr)
next
  case False
  then have "lead X + 1 \<le> lead Y" using lead_mono [OF _ le] X Y by simp
  then have "(lead X + 1) * 2 ^ 112 \<le> lead Y * 2 ^ 112" by (rule mult_right_mono) simp
  moreover have "number (payload X) < 2 ^ 112" using number_less [of "payload X"] by simp
  ultimately show ?thesis
    using lead \<open>lead X + 1 \<le> lead Y\<close> by (simp add: number_addr unat_of_nat)
qed

text \<open>a better key has a higher address: where \<open>isBetter\<close> prefers the new key, the node's
  address under the new key, read as a 128-bit number, is at least the address under the old
  one.\<close>

theorem better_key_higher_address:
  assumes "isBetter old new = Ret True" and "new \<noteq> replicate 32 0"
    and "AddrForKey nd old = Ret (Some a)" and "AddrForKey nd new = Ret (Some b)"
  shows "number a \<le> number b"
proof -
  obtain p where p: "length old = 32" "length new = 32" "a = addr_of_bits p (inv_bits old)"
      "b = addr_of_bits p (inv_bits new)"
    using AddrForKey_SomeD [OF assms(3)] AddrForKey_SomeD [OF assms(4)] by auto
  have "number new < number old" using assms(1) p by (simp add: isBetter_number)
  then have "bits_nat (inv_bits old) \<le> bits_nat (inv_bits new)"
    using bits_nat_Not [of "bytes_bits old"] bits_nat_Not [of "bytes_bits new"] p
    by (simp add: inv_bits_def number_def)
  moreover have "lead (inv_bits new) < 256" using lead_inv_bits [OF p(2)] assms(2) by simp
  ultimately show ?thesis using p by (simp add: number_addr_mono)
qed

theorem better_key_higher_address_witness:
  "number [0xfc, 0, 132, 138, 96, 79, 187, 126, 67, 132, 101, 219, 141, 182, 104, 149]
   \<le> number [0xfc, 8, 138, 96, 79, 187, 126, 67, 132, 101, 219, 141, 182, 104, 149, 91]"
proof (rule better_key_higher_address)
  show "isBetter test_key (0 # tl test_key) = Ret True" by code_simp
  show "0 # tl test_key \<noteq> replicate 32 0" by code_simp
  show "AddrForKey test_domain (0 # tl test_key) =
     Ret (Some [0xfc, 8, 138, 96, 79, 187, 126, 67, 132, 101, 219, 141, 182, 104, 149, 91])"
    by code_simp
qed (rule test_AddrForKey)

section \<open>The search keeps the minimum\<close>

lemma main_loop_best:
  assumes "length best = 32" and "\<forall>k \<in> set ks. length k = 32"
  shows "\<exists>best' printed. main_loop best ks = Ret (best', printed)
     \<and> best' \<in> insert best (set ks) \<and> (\<forall>k \<in> insert best (set ks). number best' \<le> number k)
     \<and> sorted_wrt (\<lambda>a b. number b < number a) (best # printed) \<and> best' = last (best # printed)"
  using assms
proof (induction ks arbitrary: best)
  case (Cons k ks)
  show ?case
  proof (cases "number k < number best")
    case True
    obtain b pr where "main_loop k ks = Ret (b, pr)" "b \<in> insert k (set ks)"
        "\<forall>x \<in> insert k (set ks). number b \<le> number x"
        "sorted_wrt (\<lambda>a b. number b < number a) (k # pr)" "b = last (k # pr)"
      using Cons.IH [of k] Cons.prems by auto
    with True Cons.prems show ?thesis
      by (auto simp: isBetter_number intro: less_trans)
  next
    case False
    obtain b pr where "main_loop best ks = Ret (b, pr)" "b \<in> insert best (set ks)"
        "\<forall>x \<in> insert best (set ks). number b \<le> number x"
        "sorted_wrt (\<lambda>a b. number b < number a) (best # pr)" "b = last (best # pr)"
      using Cons.IH [of best] Cons.prems by auto
    with False Cons.prems show ?thesis by (auto simp: isBetter_number)
  qed
qed simp

text \<open>the main loop ends up with the least of the keys it has received, whatever their order,
  and prints a strictly improving sequence of keys that ends with it.\<close>

theorem main_loop_minimum:
  assumes "ks \<noteq> []" and "\<forall>k \<in> set ks. length k = 32"
  shows "\<exists>best printed. main_loop [] ks = Ret (best, printed)
     \<and> best \<in> set ks \<and> (\<forall>k \<in> set ks. number best \<le> number k)
     \<and> sorted_wrt (\<lambda>a b. number b < number a) printed \<and> best = last printed"
proof -
  obtain k rest where ks: "ks = k # rest" using assms(1) by (cases ks) auto
  with main_loop_best [of k rest] assms(2) show ?thesis by auto
qed

theorem main_loop_minimum_witness:
  "\<exists>best printed. main_loop [] [test_key, replicate 32 9] = Ret (best, printed)
     \<and> number best \<le> number (replicate 32 9)"
  using main_loop_minimum [of "[test_key, replicate 32 9]"] by (auto simp: test_key_def)

text \<open>The tool cannot print an address: it makes the node without a network domain, the prefix
  is then the empty string, and \<open>GetPrefix\<close> panics on every key.\<close>

theorem genkeys_always_panics: "genkeys_print_ip pub = Panic"
proof -
  have "GetPrefix genkeys_domain = Panic" by code_simp
  then show ?thesis by (simp add: genkeys_print_ip_def AddrForKey_eq)
qed

end
