(* ===== verification/Systems.thy ===== *)
theory Systems
  imports Prelude
begin

text \<open>
  Two contracts that several components share.  A component with state is a transition system
  (its initial states and its step relation); an invariant that its initial states satisfy and
  its steps keep holds in every reachable state.  A wire format is a codec: what the encoder
  writes, the decoder reads back.  Each is a locale; the components interpret it on their own
  operations.
\<close>

section \<open>Reachable states and invariants\<close>

inductive reach :: "('s \<Rightarrow> bool) \<Rightarrow> ('s \<Rightarrow> 's \<Rightarrow> bool) \<Rightarrow> 's \<Rightarrow> bool"
  for init :: "'s \<Rightarrow> bool" and step :: "'s \<Rightarrow> 's \<Rightarrow> bool" where
  reach_init: "init s \<Longrightarrow> reach init step s"
| reach_step: "reach init step s \<Longrightarrow> step s t \<Longrightarrow> reach init step t"

lemma reach_steps:
  "reach init step s \<Longrightarrow> step\<^sup>*\<^sup>* s t \<Longrightarrow> reach init step t"
proof (rotate_tac, induction rule: rtranclp_induct)
qed (auto intro: reach_step)

locale invariant_system =
  fixes init :: "'s \<Rightarrow> bool"
    and step :: "'s \<Rightarrow> 's \<Rightarrow> bool"
    and inv :: "'s \<Rightarrow> bool"
  assumes init_inv: "init s \<Longrightarrow> inv s"
    and step_inv: "inv s \<Longrightarrow> step s t \<Longrightarrow> inv t"
begin

lemma reach_inv: "reach init step s \<Longrightarrow> inv s"
  by (induction rule: reach.induct) (auto intro: init_inv step_inv)

lemma steps_inv: "step\<^sup>*\<^sup>* s t \<Longrightarrow> inv s \<Longrightarrow> inv t"
  by (induction rule: rtranclp_induct) (auto intro: step_inv)

end

section \<open>Codecs\<close>

locale codec =
  fixes wf :: "'a \<Rightarrow> bool"
    and enc :: "'a \<Rightarrow> bytes"
    and dec :: "bytes \<Rightarrow> 'a option"
  assumes dec_enc: "wf x \<Longrightarrow> dec (enc x) = Some x"
begin

lemma enc_inj: "wf x \<Longrightarrow> wf y \<Longrightarrow> enc x = enc y \<Longrightarrow> x = y"
  by (metis dec_enc option.inject)

end

text \<open>A codec whose decoder accepts nothing but what the encoder writes.\<close>

locale strict_codec = codec +
  assumes enc_dec: "dec bs = Some x \<Longrightarrow> enc x = bs"
    and dec_wf: "dec bs = Some x \<Longrightarrow> wf x"
begin

lemma dec_iff: "dec bs = Some x \<longleftrightarrow> wf x \<and> enc x = bs"
  using dec_enc enc_dec dec_wf by blast

end

section \<open>Tables whose entries expire\<close>

text \<open>
  The code keeps tables of pointers and removes an entry when its timer has run.  A timer that was
  stopped too late still runs, so the removal compares the pointer it was armed with against the
  pointer that is in the table now.  \<open>expire k p\<close> is that removal.
\<close>

locale expiring_table =
  fixes lookup :: "'s \<Rightarrow> 'k \<Rightarrow> nat option"
    and expire :: "'k \<Rightarrow> nat \<Rightarrow> 's \<Rightarrow> 's"
  assumes lookup_expire:
    "lookup (expire k p s) k' = (if k' = k \<and> lookup s k = Some p then None else lookup s k')"
begin

lemma expire_gone: "lookup (expire k p s) k \<noteq> Some p"
  by (simp add: lookup_expire)

lemma expire_stale: "lookup s k \<noteq> Some p \<Longrightarrow> lookup (expire k p s) = lookup s"
  by (rule ext) (simp add: lookup_expire)

lemma expire_other: "q \<noteq> p \<Longrightarrow> lookup (expire k p s) k' = Some q \<longleftrightarrow> lookup s k' = Some q"
  by (auto simp: lookup_expire)

lemma expire_sub: "lookup (expire k p s) k' = Some q \<Longrightarrow> lookup s k' = Some q"
  by (auto simp: lookup_expire split: if_splits)

end

end
