(* ===== verification/Version_Meta.thy ===== *)
theory Version_Meta
  imports Systems
begin

text \<open>
  src/core/version.go: the metadata that both ends of a new connection exchange.  The array \<open>meta\<close>
  has four bytes; the key is a slice of any length, which is why \<open>encode\<close> checks the length of
  its result and panics.
\<close>

section \<open>The code\<close>

record version_metadata =
  vm_meta :: bytes
  vm_ver :: byte
  vm_minorVer :: byte
  vm_key :: bytes

definition version_getBaseMetadata :: version_metadata where
  "version_getBaseMetadata =
     \<lparr>vm_meta = map (\<lambda>c. of_char c) ''meta'', vm_ver = 0, vm_minorVer = 4, vm_key = []\<rparr>"

definition version_getMetaLength :: nat where
  "version_getMetaLength = 4 + 1 + 1 + 32"

definition encode :: "version_metadata \<Rightarrow> bytes outcome" where
  "encode m =
     (let bs = vm_meta m @ [vm_ver m] @ [vm_minorVer m] @ vm_key m
      in if length bs \<noteq> version_getMetaLength then Panic else Ret bs)"

text \<open>\<open>decode\<close> overwrites its receiver, and only when the length is right.\<close>

definition decode :: "version_metadata \<Rightarrow> bytes \<Rightarrow> bool \<times> version_metadata" where
  "decode m bs =
     (if length bs \<noteq> version_getMetaLength then (False, m)
      else let m = m\<lparr>vm_meta := go_copy (vm_meta m) bs\<rparr>; off = min (length (vm_meta m)) (length bs);
               m = m\<lparr>vm_ver := bs ! off\<rparr>; off = off + 1;
               m = m\<lparr>vm_minorVer := bs ! off\<rparr>; off = off + 1;
               m = m\<lparr>vm_key := drop off bs\<rparr>
           in (True, m))"

definition check :: "version_metadata \<Rightarrow> bool" where
  "check m =
     (let base = version_getBaseMetadata
      in vm_meta base = vm_meta m \<and> vm_ver base = vm_ver m \<and> vm_minorVer base = vm_minorVer m)"

text \<open>The zero value \<open>version_metadata{}\<close> that the handshake decodes into.\<close>

definition version_zero :: version_metadata where
  "version_zero = \<lparr>vm_meta = replicate 4 0, vm_ver = 0, vm_minorVer = 0, vm_key = []\<rparr>"

section \<open>The wire format\<close>

definition meta_wf :: "version_metadata \<Rightarrow> bool" where
  "meta_wf m \<longleftrightarrow> length (vm_meta m) = 4 \<and> length (vm_key m) = 32"

definition meta_bytes :: "version_metadata \<Rightarrow> bytes" where
  "meta_bytes m = vm_meta m @ vm_ver m # vm_minorVer m # vm_key m"

definition meta_read :: "bytes \<Rightarrow> version_metadata option" where
  "meta_read bs = (case decode version_zero bs of (ok, m) \<Rightarrow> if ok then Some m else None)"

lemma encode_eq:
  "length (vm_meta m) = 4 \<Longrightarrow> encode m = (if meta_wf m then Ret (meta_bytes m) else Panic)"
  by (simp add: encode_def version_getMetaLength_def meta_wf_def meta_bytes_def)

lemma decode_overwrites:
  "length (vm_meta m) = 4 \<Longrightarrow> length bs = 38 \<Longrightarrow>
     decode m bs = (True, \<lparr>vm_meta = take 4 bs, vm_ver = bs ! 4, vm_minorVer = bs ! 5, vm_key = drop 6 bs\<rparr>)"
  by (simp add: decode_def version_getMetaLength_def go_copy_def Let_def)

lemma meta_read_eq:
  "meta_read bs = (if length bs = 38
     then Some \<lparr>vm_meta = take 4 bs, vm_ver = bs ! 4, vm_minorVer = bs ! 5, vm_key = drop 6 bs\<rparr>
     else None)"
proof (cases "length bs = 38")
  case True
  then show ?thesis
    by (simp add: meta_read_def decode_overwrites version_zero_def)
next
  case False
  then show ?thesis by (simp add: meta_read_def decode_def version_getMetaLength_def)
qed

lemma list38:
  assumes "length bs = 38"
  shows "take 4 bs @ bs ! 4 # bs ! 5 # drop 6 bs = bs"
proof -
  have "drop 4 bs = bs ! 4 # bs ! 5 # drop 6 bs"
    using Cons_nth_drop_Suc [of 4 bs] Cons_nth_drop_Suc [of 5 bs] assms by simp
  then show ?thesis using append_take_drop_id [of 4 bs] by simp
qed

interpretation metadata: strict_codec meta_wf meta_bytes meta_read
proof unfold_locales
  fix x :: version_metadata assume wf: "meta_wf x"
  then show "meta_read (meta_bytes x) = Some x"
    by (cases x) (simp add: meta_read_eq meta_bytes_def meta_wf_def nth_append)
next
  fix bs x assume "meta_read bs = Some x"
  then show "meta_bytes x = bs" by (auto simp: meta_read_eq meta_bytes_def list38 split: if_splits)
next
  fix bs x assume "meta_read bs = Some x"
  then show "meta_wf x" by (auto simp: meta_read_eq meta_wf_def split: if_splits)
qed

section \<open>Properties\<close>

lemma check_decoded:
  assumes "length (vm_meta r) = 4"
  shows "fst (decode r bs) \<and> check (snd (decode r bs)) \<longleftrightarrow>
     length bs = 38 \<and> take 4 bs = map of_char ''meta'' \<and> bs ! 4 = 0 \<and> bs ! 5 = 4"
proof (cases "length bs = 38")
  case True
  then show ?thesis by (auto simp: decode_overwrites assms check_def version_getBaseMetadata_def)
qed (auto simp: decode_def version_getMetaLength_def)

text \<open>C20: what one end encodes, the other end decodes: for metadata with a key of the right length the
  encoder does not panic and the decoder returns it, whatever was in its receiver; any other key
  makes the encoder panic.  And bytes from the other end are decoded and pass \<open>check\<close> exactly when they
  are the encoding of the base values with some key of 32 bytes, which is then what was decoded.\<close>

theorem decode_encode:
  assumes "length (vm_meta m) = 4" and "length (vm_meta r) = 4"
  shows "bind_outcome (encode m) (\<lambda>bs. Ret (decode r bs)) =
       (if length (vm_key m) = 32 then Ret (True, m) else Panic)
     \<and> (fst (decode r bs) \<and> check (snd (decode r bs)) \<longleftrightarrow>
         (\<exists>key. length key = 32 \<and> encode (version_getBaseMetadata\<lparr>vm_key := key\<rparr>) = Ret bs
            \<and> snd (decode r bs) = version_getBaseMetadata\<lparr>vm_key := key\<rparr>))"
proof (intro conjI)
  show "bind_outcome (encode m) (\<lambda>bs. Ret (decode r bs)) =
      (if length (vm_key m) = 32 then Ret (True, m) else Panic)"
  proof (cases "length (vm_key m) = 32")
    case True
    then have wf: "meta_wf m" using assms(1) by (simp add: meta_wf_def)
    have "length (meta_bytes m) = 38" using wf by (simp add: meta_wf_def meta_bytes_def)
    then have "decode r (meta_bytes m) = (True, the (meta_read (meta_bytes m)))"
      using assms(2) by (simp add: decode_overwrites meta_read_eq)
    with True wf show ?thesis by (simp add: encode_eq assms(1) metadata.dec_enc)
  qed (simp add: encode_eq assms(1) meta_wf_def)
next
  let ?base = "\<lambda>key. version_getBaseMetadata\<lparr>vm_key := key\<rparr>"
  have enc: "encode (?base key) = Ret (map of_char ''meta'' @ 0 # 4 # key)" if "length key = 32" for key
    using that by (simp add: encode_def version_getBaseMetadata_def version_getMetaLength_def)
  show "fst (decode r bs) \<and> check (snd (decode r bs)) \<longleftrightarrow>
      (\<exists>key. length key = 32 \<and> encode (?base key) = Ret bs \<and> snd (decode r bs) = ?base key)" (is "?L \<longleftrightarrow> ?R")
  proof
    assume ?L
    then have l: "length bs = 38" and b: "take 4 bs = map of_char ''meta''" "bs ! 4 = 0" "bs ! 5 = 4"
      using check_decoded [OF assms(2)] by blast+
    have "encode (?base (drop 6 bs)) = Ret bs"
      using enc [of "drop 6 bs"] list38 [OF l] l by (simp add: b)
    moreover have "snd (decode r bs) = ?base (drop 6 bs)"
      using l b by (simp add: decode_overwrites assms(2) version_getBaseMetadata_def)
    ultimately show ?R using l by (intro exI [of _ "drop 6 bs"]) simp
  next
    assume ?R
    then obtain key where key: "length key = 32" and bs: "bs = map of_char ''meta'' @ 0 # 4 # key" using enc by force
    show ?L unfolding check_decoded [OF assms(2)] bs using key by simp
  qed
qed

theorem decode_encode_witness:
  "bind_outcome (encode (version_getBaseMetadata\<lparr>vm_key := replicate 32 7\<rparr>)) (\<lambda>bs. Ret (decode version_zero bs)) =
     Ret (True, version_getBaseMetadata\<lparr>vm_key := replicate 32 7\<rparr>)
   \<and> \<not> (fst (decode version_zero (replicate 38 7)) \<and> check (snd (decode version_zero (replicate 38 7))))"
proof -
  have "(\<exists>key. length key = 32 \<and> encode (version_getBaseMetadata\<lparr>vm_key := key\<rparr>) = Ret (replicate 38 7)
      \<and> snd (decode version_zero (replicate 38 7)) = version_getBaseMetadata\<lparr>vm_key := key\<rparr>) \<longleftrightarrow> False"
    by (auto simp: encode_def version_getBaseMetadata_def version_getMetaLength_def dest!: arg_cong [where f = hd])
  then show ?thesis
    using decode_encode [of "version_getBaseMetadata\<lparr>vm_key := replicate 32 7\<rparr>" version_zero "replicate 38 7"]
    by (simp add: version_getBaseMetadata_def version_zero_def)
qed

text \<open>the bytes accepted from the wire: metadata passes decoding and the version check exactly
  when it is 38 bytes long and starts with the letters of \<open>meta\<close>, a zero and a four; the key
  is then the rest.\<close>

theorem accepted_metadata:
  "fst (decode version_zero bs) \<and> check (snd (decode version_zero bs)) \<longleftrightarrow>
     (\<exists>key. length key = 32 \<and> bs = [109, 101, 116, 97, 0, 4] @ key
        \<and> vm_key (snd (decode version_zero bs)) = key)"
proof (cases "length bs = 38")
  case True
  have zero: "length (vm_meta version_zero) = 4" by (simp add: version_zero_def)
  have base: "map of_char ''meta'' = [109, 101, 116, 97 :: byte]" by code_simp
  show ?thesis
  proof
    assume "fst (decode version_zero bs) \<and> check (snd (decode version_zero bs))"
    then have "take 4 bs = [109, 101, 116, 97]" "bs ! 4 = 0" "bs ! 5 = 4"
      using True by (simp_all add: decode_overwrites zero check_def version_getBaseMetadata_def base)
    moreover have "bs = take 4 bs @ bs ! 4 # bs ! 5 # drop 6 bs" using list38 [OF True] by simp
    ultimately have "bs = [109, 101, 116, 97, 0, 4] @ drop 6 bs" by simp
    then show "\<exists>key. length key = 32 \<and> bs = [109, 101, 116, 97, 0, 4] @ key
        \<and> vm_key (snd (decode version_zero bs)) = key"
      using True by (auto simp: decode_overwrites zero)
  next
    assume "\<exists>key. length key = 32 \<and> bs = [109, 101, 116, 97, 0, 4] @ key
        \<and> vm_key (snd (decode version_zero bs)) = key"
    then obtain key where key: "length key = 32" and bs: "bs = [109, 101, 116, 97, 0, 4] @ key"
      by blast
    show "fst (decode version_zero bs) \<and> check (snd (decode version_zero bs))"
      unfolding bs using key
      by (simp add: decode_overwrites zero check_def version_getBaseMetadata_def base)
  qed
qed (auto simp: decode_def version_getMetaLength_def)

end
