(* ===== verification/Icmpv6.thy ===== *)
theory Icmpv6
  imports Prelude
begin

text \<open>
  src/ipv6rwc/icmpv6.go: building ICMPv6 packets.  The fields of \<open>ipv6.Header\<close> are Go \<open>int\<close>s.
  Marshalling the ICMP message itself, with its checksum over the pseudo header, is done by
  golang.org/x/net/icmp, which is not part of the repository: it is the argument \<open>marshal\<close>, a
  function of the source, the destination and the message.
\<close>

section \<open>The code\<close>

record ipv6_header =
  Version :: int
  TrafficClass :: int
  FlowLabel :: int
  PayloadLen :: int
  NextHeader :: int
  HopLimit :: int
  Src :: bytes
  Dst :: bytes

definition ipv6Header_Marshal :: "ipv6_header \<Rightarrow> bytes" where
  "ipv6Header_Marshal h =
     [push_bit 4 (word_of_int (Version h)) OR drop_bit 4 (word_of_int (TrafficClass h)),
      push_bit 4 (word_of_int (TrafficClass h)) OR word_of_int (drop_bit 16 (FlowLabel h)),
      word_of_int (drop_bit 8 (FlowLabel h)),
      word_of_int (FlowLabel h)]
     @ put_uint16 (word_of_int (PayloadLen h))
     @ [word_of_int (NextHeader h), word_of_int (HopLimit h)]
     @ go_copy (replicate 16 0) (Src h)
     @ go_copy (replicate 16 0) (Dst h)"

record 'b icmp_message =
  im_type :: nat
  im_code :: int
  im_body :: 'b

definition ipv6_HeaderLen :: nat where
  "ipv6_HeaderLen = 40"

definition CreateICMPv6 ::
  "(bytes \<Rightarrow> bytes \<Rightarrow> 'b icmp_message \<Rightarrow> bytes option)
    \<Rightarrow> bytes \<Rightarrow> bytes \<Rightarrow> nat \<Rightarrow> int \<Rightarrow> 'b \<Rightarrow> bytes option" where
  "CreateICMPv6 marshal dst src mtype mcode mbody =
     (case marshal src dst \<lparr>im_type = mtype, im_code = mcode, im_body = mbody\<rparr> of
        None \<Rightarrow> None
      | Some icmpMessageBuf \<Rightarrow>
          let ipv6Header = \<lparr>Version = 6, TrafficClass = 0, FlowLabel = 0,
                PayloadLen = int (length icmpMessageBuf), NextHeader = 58, HopLimit = 255,
                Src = src, Dst = dst\<rparr>;
              responsePacket = replicate (ipv6_HeaderLen + length icmpMessageBuf) 0;
              responsePacket = go_copy (take ipv6_HeaderLen responsePacket) (ipv6Header_Marshal ipv6Header)
                @ drop ipv6_HeaderLen responsePacket
          in Some (copy_at responsePacket ipv6_HeaderLen icmpMessageBuf))"

section \<open>The packet\<close>

lemma length_ipv6Header_Marshal [simp]: "length (ipv6Header_Marshal h) = 40"
  by (simp add: ipv6Header_Marshal_def)

definition icmp_header :: "bytes \<Rightarrow> bytes \<Rightarrow> nat \<Rightarrow> bytes" where
  "icmp_header dst src n =
     [0x60, 0, 0, 0] @ put_uint16 (word_of_nat n) @ [58, 255]
     @ go_copy (replicate 16 0) src @ go_copy (replicate 16 0) dst"

lemma length_icmp_header [simp]: "length (icmp_header dst src n) = 40"
  by (simp add: icmp_header_def)

lemma CreateICMPv6_eq:
  "CreateICMPv6 marshal dst src mtype mcode mbody =
     map_option (\<lambda>m. icmp_header dst src (length m) @ m)
       (marshal src dst \<lparr>im_type = mtype, im_code = mcode, im_body = mbody\<rparr>)"
proof -
  have "ipv6Header_Marshal \<lparr>Version = 6, TrafficClass = 0, FlowLabel = 0,
      PayloadLen = int n, NextHeader = 58, HopLimit = 255, Src = src, Dst = dst\<rparr> =
      icmp_header dst src n" for n
    by (simp add: ipv6Header_Marshal_def icmp_header_def)
  then show ?thesis
    by (simp add: CreateICMPv6_def ipv6_HeaderLen_def Let_def copy_at_def drop_replicate
        split: option.splits)
qed

section \<open>Properties\<close>

text \<open>an ICMPv6 packet is a well-formed IPv6 packet: version 6, next header 58, hop limit 255, the
  addresses in their places, the message after the 40 bytes of header, and a payload length
  field that reads back as the length of the message as long as it fits 16 bits.\<close>

theorem CreateICMPv6_packet:
  assumes "CreateICMPv6 marshal dst src mtype mcode mbody = Some pkt"
    and "length src = 16" and "length dst = 16"
  shows "\<exists>m. marshal src dst \<lparr>im_type = mtype, im_code = mcode, im_body = mbody\<rparr> = Some m
     \<and> length pkt = 40 + length m \<and> drop 40 pkt = m
     \<and> pkt ! 0 AND 0xf0 = 0x60 \<and> pkt ! 6 = 58 \<and> pkt ! 7 = 255
     \<and> take 16 (drop 8 pkt) = src \<and> take 16 (drop 24 pkt) = dst
     \<and> (length m < 65536 \<longrightarrow> unat (get_uint16 (take 2 (drop 4 pkt))) = length m)"
proof -
  obtain m where m: "marshal src dst \<lparr>im_type = mtype, im_code = mcode, im_body = mbody\<rparr> = Some m"
      and pkt: "pkt = icmp_header dst src (length m) @ m"
    using assms(1) by (auto simp: CreateICMPv6_eq)
  have "take 2 (drop 4 pkt) = put_uint16 (word_of_nat (length m))"
    by (simp add: pkt icmp_header_def)
  then have "get_uint16 (take 2 (drop 4 pkt)) = word_of_nat (length m)"
    by (simp only: get_put_uint16)
  then have "length m < 65536 \<longrightarrow> unat (get_uint16 (take 2 (drop 4 pkt))) = length m"
    by (simp add: unat_of_nat)
  moreover have "pkt ! 6 = 58" "pkt ! 7 = 255"
    by (simp_all add: pkt icmp_header_def put_uint16_def)
  moreover have "pkt ! 0 AND 0xf0 = 0x60" by (simp add: pkt icmp_header_def)
  moreover have "take 16 (drop 8 pkt) = src" "take 16 (drop 24 pkt) = dst"
    using assms(2,3) by (simp_all add: pkt icmp_header_def put_uint16_def)
  ultimately show ?thesis using m assms(2,3) by (simp add: pkt)
qed

theorem CreateICMPv6_packet_witness:
  "\<exists>pkt. CreateICMPv6 (\<lambda>s d m. Some [9, 9]) (replicate 16 2) (replicate 16 1) 2 0 () = Some pkt
     \<and> length pkt = 42 \<and> pkt ! 6 = 58 \<and> take 16 (drop 24 pkt) = replicate 16 2"
proof -
  define pkt where "pkt = icmp_header (replicate 16 2) (replicate 16 1) (length [9, 9 :: byte]) @ [9, 9]"
  have "CreateICMPv6 (\<lambda>s d m. Some [9, 9]) (replicate 16 2) (replicate 16 1) 2 0 () = Some pkt"
    by (simp add: CreateICMPv6_eq pkt_def)
  from CreateICMPv6_packet [OF this] this show ?thesis by fastforce
qed

end
