(* ===== verification/Session.thy ===== *)
theory Session
  imports Systems
begin

text \<open>
  The session layer of src/core/core.go and src/core/types.go: one type byte in front of every packet
  that goes over the encrypted \<open>PacketConn\<close> of the ironwood library.  That library is not part of the
  repository: what its \<open>ReadFrom\<close> returns is the list of events the reader is given, its \<open>WriteTo\<close>
  and its MTU are arguments.
\<close>

section \<open>Packet types\<close>

definition typeSessionDummy :: byte where "typeSessionDummy = 0"
definition typeSessionTraffic :: byte where "typeSessionTraffic = 1"
definition typeSessionProto :: byte where "typeSessionProto = 2"

definition typeProtoDummy :: byte where "typeProtoDummy = 0"
definition typeProtoNodeInfoRequest :: byte where "typeProtoNodeInfoRequest = 1"
definition typeProtoNodeInfoResponse :: byte where "typeProtoNodeInfoResponse = 2"
definition typeProtoDebug :: byte where "typeProtoDebug = 255"

lemmas packet_types = typeSessionDummy_def typeSessionTraffic_def typeSessionProto_def
  typeProtoDummy_def typeProtoNodeInfoRequest_def typeProtoNodeInfoResponse_def typeProtoDebug_def

section \<open>Reading and writing\<close>

definition MTU :: "64 word \<Rightarrow> 64 word" where
  "MTU packetConnMTU = packetConnMTU - 1"

text \<open>One return of \<open>PacketConn.ReadFrom\<close>: the \<open>n\<close> bytes read and their sender, or an error.\<close>

datatype read_event = Packet bytes bytes | ReadErr bytes

text \<open>How \<open>Core.ReadFrom\<close> ends: with the caller's buffer, the count and the sender; with an error; or
  still blocked in the read.\<close>

datatype read_end = ReadOk bytes nat bytes | ReadFail bytes | ReadWait

record session_read =
  sr_end :: read_end
  sr_proto :: "(bytes \<times> bytes) list"
  sr_rest :: "read_event list"

text \<open>The loop: traffic is returned, protocol packets go to the protocol handler, the rest is
  dropped.\<close>

fun ReadFrom_loop :: "bytes \<Rightarrow> read_event list \<Rightarrow> (bytes \<times> bytes) list \<Rightarrow> session_read" where
  "ReadFrom_loop p [] handled = \<lparr>sr_end = ReadWait, sr_proto = handled, sr_rest = []\<rparr>"
| "ReadFrom_loop p (ReadErr from # es) handled =
     \<lparr>sr_end = ReadFail from, sr_proto = handled, sr_rest = es\<rparr>"
| "ReadFrom_loop p (Packet bs from # es) handled =
     (if length bs = 0 then ReadFrom_loop p es handled
      else if hd bs = typeSessionTraffic
        then let bs = tl bs;
                 n = (if length p < length bs then length p else length bs)
             in \<lparr>sr_end = ReadOk (go_copy p bs) n from, sr_proto = handled, sr_rest = es\<rparr>
      else if hd bs = typeSessionProto
        then ReadFrom_loop p es (handled @ [(go_copy (replicate 32 0) from, tl bs)])
      else ReadFrom_loop p es handled)"

text \<open>The buffer of the loop has the library's MTU as its length and 65535 as its capacity.\<close>

definition ReadFrom :: "64 word \<Rightarrow> bytes \<Rightarrow> read_event list \<Rightarrow> session_read outcome" where
  "ReadFrom packetConnMTU p es =
     (if unat packetConnMTU > 65535 then Panic else Ret (ReadFrom_loop p es []))"

definition WriteTo :: "(bytes \<Rightarrow> bytes \<Rightarrow> int \<times> bool) \<Rightarrow> bytes \<Rightarrow> bytes \<Rightarrow> int \<times> bool" where
  "WriteTo packetConn_WriteTo p addr =
     (let buf = [typeSessionTraffic] @ p;
          (n, err) = packetConn_WriteTo buf addr
      in (if n > 0 then n - 1 else n, err))"

section \<open>Framing\<close>

definition frame :: "bytes \<Rightarrow> bytes" where
  "frame p = [typeSessionTraffic] @ p"

definition unframe :: "bytes \<Rightarrow> bytes option" where
  "unframe bs = (case bs of [] \<Rightarrow> None | t # p \<Rightarrow> if t = typeSessionTraffic then Some p else None)"

interpretation traffic: strict_codec "\<lambda>_. True" frame unframe
  by unfold_locales (auto simp: frame_def unframe_def split: list.splits if_splits)

text \<open>The events that \<open>ReadFrom\<close> goes past, and what they hand to the protocol handler.\<close>

definition passes :: "read_event \<Rightarrow> bool" where
  "passes e = (case e of Packet bs from \<Rightarrow> unframe bs = None | ReadErr from \<Rightarrow> False)"

definition to_proto :: "read_event \<Rightarrow> (bytes \<times> bytes) list" where
  "to_proto e = (case e of Packet (t # bs) from \<Rightarrow>
       (if t = typeSessionProto then [(go_copy (replicate 32 0) from, bs)] else []) | _ \<Rightarrow> [])"

definition read_ends :: "bytes \<Rightarrow> read_event list \<Rightarrow> read_end" where
  "read_ends p es = (case es of
       [] \<Rightarrow> ReadWait
     | ReadErr from # _ \<Rightarrow> ReadFail from
     | Packet bs from # _ \<Rightarrow> ReadOk (go_copy p (the (unframe bs))) (min (length p) (length (the (unframe bs)))) from)"

lemma ReadFrom_loop_eq:
  "ReadFrom_loop p es handled =
     \<lparr>sr_end = read_ends p (dropWhile passes es),
      sr_proto = handled @ concat (map to_proto (takeWhile passes es)),
      sr_rest = tl (dropWhile passes es)\<rparr>"
proof (induction p es handled rule: ReadFrom_loop.induct)
  case (3 p bs src es handled)
  then show ?case
    by (cases bs)
      (auto simp: passes_def to_proto_def read_ends_def unframe_def packet_types Let_def)
qed (simp_all add: read_ends_def passes_def)

section \<open>Properties\<close>

text \<open>C21: what a read of the session layer does with any sequence of incoming packets: it returns the
  payload of the first traffic packet (cut to the caller's buffer) or the first error, whichever
  comes first; the protocol handler gets exactly the protocol packets before it, in order, each
  with its sender and without its type byte; and everything after it stays unread.\<close>

theorem ReadFrom_spec:
  "ReadFrom m p es =
     (if 65535 < unat m then Panic
      else Ret \<lparr>sr_end = read_ends p (dropWhile passes es),
                sr_proto = concat (map to_proto (takeWhile passes es)),
                sr_rest = tl (dropWhile passes es)\<rparr>)"
  by (simp add: ReadFrom_def ReadFrom_loop_eq)

text \<open>what one node writes, the other reads: the packet that \<open>WriteTo\<close> hands to the library is, at
  the other end, a read that returns the same payload in a buffer that is long enough, after any
  packets that are not traffic; and the count the writer gets back is the payload's.\<close>

theorem write_then_read:
  assumes "list_all passes es" and "length p \<le> length buf" and "unat m \<le> 65535"
  shows "WriteTo (\<lambda>b a. (int (length b), False)) p dst = (int (length p), False)
     \<and> (\<exists>r. ReadFrom m buf (es @ [Packet (frame p) src]) = Ret r
          \<and> sr_end r = ReadOk (p @ drop (length p) buf) (length p) src)"
proof -
  have "unframe (frame p) = Some p" by (rule traffic.dec_enc) simp
  then have "dropWhile passes (es @ [Packet (frame p) src]) = [Packet (frame p) src]"
    using assms(1) by (simp add: dropWhile_append list_all_iff passes_def)
  then show ?thesis
    using assms(2,3) \<open>unframe (frame p) = Some p\<close>
    by (simp add: ReadFrom_def ReadFrom_loop_eq read_ends_def WriteTo_def go_copy_short)
qed

theorem write_then_read_witness:
  "\<exists>r. ReadFrom 1500 [0, 0, 0] ([Packet [2, 255] [9]] @ [Packet (frame [7, 8]) [9]]) = Ret r
     \<and> sr_end r = ReadOk [7, 8, 0] 2 [9]"
  using write_then_read [of "[Packet [2, 255] [9]]" "[7, 8]" "[0, 0, 0]" 1500 "[1]" "[9]"]
  by (simp add: passes_def unframe_def packet_types flip: numeral_2_eq_2)

text \<open>a payload within the advertised MTU makes a packet within the library's MTU; only a library
  MTU of zero breaks this, where the advertised value wraps around to the largest.\<close>

theorem MTU_bounds:
  "(unat (MTU m) + 1 = unat m \<and> (length p \<le> unat (MTU m) \<longleftrightarrow> length (frame p) \<le> unat m))
     = (m \<noteq> 0)"
proof (cases "m = 0")
  case False
  then have "unat (m - 1) + 1 = unat m"
    by (simp add: unat_minus_one unat_gt_0)
  with False show ?thesis by (auto simp: MTU_def frame_def)
qed (simp add: MTU_def)

end
