(* ===== verification/Proto.thy ===== *)
theory Proto
  imports Session Address_Key Systems
begin

text \<open>
  The protocol handler of src/core/proto.go: debug requests to other nodes, their answers, and the
  table of requests under way, one per kind.  A \<open>reqInfo\<close> object is a number that indexes a heap; its
  timer posts a function to the handler's inbox, which drops the request if the table still has
  that very object.  The handler is an actor, so each message is one atomic step; what it sends
  and the callbacks it calls are its output.
\<close>

section \<open>Packets\<close>

definition typeDebugDummy :: byte where "typeDebugDummy = 0"
definition typeDebugGetSelfRequest :: byte where "typeDebugGetSelfRequest = 1"
definition typeDebugGetSelfResponse :: byte where "typeDebugGetSelfResponse = 2"
definition typeDebugGetPeersRequest :: byte where "typeDebugGetPeersRequest = 3"
definition typeDebugGetPeersResponse :: byte where "typeDebugGetPeersResponse = 4"
definition typeDebugGetDHTRequest :: byte where "typeDebugGetDHTRequest = 5"
definition typeDebugGetDHTResponse :: byte where "typeDebugGetDHTResponse = 6"

lemmas debug_types = typeDebugDummy_def typeDebugGetSelfRequest_def typeDebugGetSelfResponse_def
  typeDebugGetPeersRequest_def typeDebugGetPeersResponse_def typeDebugGetDHTRequest_def
  typeDebugGetDHTResponse_def

text \<open>What the handler does to the outside: a packet to a key, or a call of a request's callback.\<close>

datatype proto_out = SendProto bytes bytes | CallBack nat bytes

definition sendDebug :: "bytes \<Rightarrow> byte \<Rightarrow> bytes \<Rightarrow> proto_out" where
  "sendDebug key dType data = SendProto ([typeSessionProto, typeProtoDebug, dType] @ data) key"

text \<open>Where \<open>handleProto\<close> sends a packet of the session layer: to the node info actor, or to this one.\<close>

datatype proto_route = NodeInfoRequest bytes | NodeInfoResponse bytes bytes | DebugPacket bytes bytes

definition handleProto :: "bytes \<Rightarrow> bytes \<Rightarrow> proto_route option" where
  "handleProto key bs =
     (case bs of [] \<Rightarrow> None
      | t # rest \<Rightarrow>
          if t = typeProtoDummy then None
          else if t = typeProtoNodeInfoRequest then Some (NodeInfoRequest key)
          else if t = typeProtoNodeInfoResponse then Some (NodeInfoResponse key rest)
          else if t = typeProtoDebug then Some (DebugPacket key rest)
          else None)"

section \<open>State\<close>

datatype req_kind = SelfReq | PeersReq | DHTReq

record req_info =
  rq_callback :: nat
  rq_timer :: nat

datatype drop_fun = DropReq req_kind bytes nat

record proto_handler =
  ph_selfRequests :: "bytes \<rightharpoonup> nat"
  ph_peersRequests :: "bytes \<rightharpoonup> nat"
  ph_dhtRequests :: "bytes \<rightharpoonup> nat"
  ph_infos :: "nat \<rightharpoonup> req_info"
  ph_timers :: "nat \<rightharpoonup> drop_fun"
  ph_inbox :: "drop_fun list"
  ph_next :: nat

definition ph_init :: proto_handler where
  "ph_init = \<lparr>ph_selfRequests = Map.empty, ph_peersRequests = Map.empty, ph_dhtRequests = Map.empty,
     ph_infos = Map.empty, ph_timers = Map.empty, ph_inbox = [], ph_next = 0\<rparr>"

fun requests :: "req_kind \<Rightarrow> proto_handler \<Rightarrow> bytes \<Rightarrow> nat option" where
  "requests SelfReq s = ph_selfRequests s"
| "requests PeersReq s = ph_peersRequests s"
| "requests DHTReq s = ph_dhtRequests s"

fun set_requests :: "req_kind \<Rightarrow> (bytes \<rightharpoonup> nat) \<Rightarrow> proto_handler \<Rightarrow> proto_handler" where
  "set_requests SelfReq m s = s\<lparr>ph_selfRequests := m\<rparr>"
| "set_requests PeersReq m s = s\<lparr>ph_peersRequests := m\<rparr>"
| "set_requests DHTReq m s = s\<lparr>ph_dhtRequests := m\<rparr>"

section \<open>Requests\<close>

definition stop_request_timer :: "nat \<Rightarrow> proto_handler \<Rightarrow> proto_handler" where
  "stop_request_timer i s =
     (case ph_infos s i of None \<Rightarrow> s
      | Some info \<Rightarrow> s\<lparr>ph_timers := (ph_timers s)(rq_timer info := None)\<rparr>)"

text \<open>The body that the three \<open>sendGet...Request\<close> functions share but for the table and the packet type.\<close>

definition send_request :: "req_kind \<Rightarrow> byte \<Rightarrow> bytes \<Rightarrow> nat \<Rightarrow> proto_handler \<Rightarrow> proto_handler \<times> proto_out list" where
  "send_request kind dType key callback s =
     (let s = (case requests kind s key of None \<Rightarrow> s
               | Some i \<Rightarrow> let s = stop_request_timer i s
                          in set_requests kind ((requests kind s)(key := None)) s);
          i = ph_next s;
          t = ph_next s + 1;
          s = s\<lparr>ph_infos := (ph_infos s)(i \<mapsto> \<lparr>rq_callback = callback, rq_timer = t\<rparr>),
                ph_timers := (ph_timers s)(t \<mapsto> DropReq kind key i), ph_next := ph_next s + 2\<rparr>;
          s = set_requests kind ((requests kind s)(key \<mapsto> i)) s
      in (s, [sendDebug key dType []]))"

definition sendGetSelfRequest :: "bytes \<Rightarrow> nat \<Rightarrow> proto_handler \<Rightarrow> proto_handler \<times> proto_out list" where
  "sendGetSelfRequest = send_request SelfReq typeDebugGetSelfRequest"

definition sendGetPeersRequest :: "bytes \<Rightarrow> nat \<Rightarrow> proto_handler \<Rightarrow> proto_handler \<times> proto_out list" where
  "sendGetPeersRequest = send_request PeersReq typeDebugGetPeersRequest"

definition sendGetDHTRequest :: "bytes \<Rightarrow> nat \<Rightarrow> proto_handler \<Rightarrow> proto_handler \<times> proto_out list" where
  "sendGetDHTRequest = send_request DHTReq typeDebugGetDHTRequest"

text \<open>The function a timer posts.\<close>

fun drop_request :: "drop_fun \<Rightarrow> proto_handler \<Rightarrow> proto_handler" where
  "drop_request (DropReq kind key i) s =
     (if requests kind s key = Some i
      then set_requests kind ((requests kind s)(key := None)) s else s)"

section \<open>Responses\<close>

definition handle_response :: "req_kind \<Rightarrow> bytes \<Rightarrow> bytes \<Rightarrow> proto_handler \<Rightarrow> proto_handler \<times> proto_out list" where
  "handle_response kind key bs s =
     (case requests kind s key of None \<Rightarrow> (s, [])
      | Some i \<Rightarrow>
          (case ph_infos s i of None \<Rightarrow> (s, [])
           | Some info \<Rightarrow>
               let s = stop_request_timer i s;
                   outs = [CallBack (rq_callback info) bs]
               in (set_requests kind ((requests kind s)(key := None)) s, outs)))"

definition handleGetSelfResponse :: "bytes \<Rightarrow> bytes \<Rightarrow> proto_handler \<Rightarrow> proto_handler \<times> proto_out list" where
  "handleGetSelfResponse = handle_response SelfReq"

definition handleGetPeersResponse :: "bytes \<Rightarrow> bytes \<Rightarrow> proto_handler \<Rightarrow> proto_handler \<times> proto_out list" where
  "handleGetPeersResponse = handle_response PeersReq"

definition handleGetDHTResponse :: "bytes \<Rightarrow> bytes \<Rightarrow> proto_handler \<Rightarrow> proto_handler \<times> proto_out list" where
  "handleGetDHTResponse = handle_response DHTReq"

section \<open>Answering requests\<close>

text \<open>What the rest of the core reports: the node's own key and coordinates, the keys of its peers and
  of its routing table, and the MTU.\<close>

record core_info =
  ci_key :: bytes
  ci_coords :: "nat list"
  ci_peers :: "bytes list"
  ci_dht :: "bytes list"
  ci_MTU :: "64 word"

definition string_bytes :: "string \<Rightarrow> bytes" where
  "string_bytes s = map of_char s"

text \<open>\<open>fmt.Sprintf("%v", coords)\<close>: the numbers with spaces between them, in brackets.\<close>

fun join_spaces :: "string list \<Rightarrow> string" where
  "join_spaces [] = []"
| "join_spaces [x] = x"
| "join_spaces (x # y # zs) = x @ '' '' @ join_spaces (y # zs)"

definition print_coords :: "nat list \<Rightarrow> string" where
  "print_coords cs = ''['' @ join_spaces (map show_nat cs) @ '']''"

text \<open>\<open>json.Marshal\<close> of the map: its keys in order, and neither value needs an escape.\<close>

definition self_json :: "core_info \<Rightarrow> bytes" where
  "self_json ci = string_bytes (''{\"coords\":\"'' @ print_coords (ci_coords ci)
     @ ''\",\"key\":\"'' @ hex_encode (ci_key ci) @ ''\"}'')"

definition handleGetSelfRequest :: "core_info \<Rightarrow> bytes \<Rightarrow> proto_out list" where
  "handleGetSelfRequest ci key = [sendDebug key typeDebugGetSelfResponse (self_json ci)]"

text \<open>The loop over the keys; the comparison is one of 64-bit integers.\<close>

fun pack_keys :: "64 word \<Rightarrow> bytes list \<Rightarrow> bytes \<Rightarrow> bytes" where
  "pack_keys mtu [] bs = bs"
| "pack_keys mtu (k # ks) bs =
     (let tmp = bs @ k
      in if word_of_nat (length tmp) + 2 > mtu then bs else pack_keys mtu ks tmp)"

definition handleGetPeersRequest :: "core_info \<Rightarrow> bytes \<Rightarrow> proto_out list" where
  "handleGetPeersRequest ci key =
     [sendDebug key typeDebugGetPeersResponse (pack_keys (ci_MTU ci) (ci_peers ci) [])]"

definition handleGetDHTRequest :: "core_info \<Rightarrow> bytes \<Rightarrow> proto_out list" where
  "handleGetDHTRequest ci key =
     [sendDebug key typeDebugGetDHTResponse (pack_keys (ci_MTU ci) (ci_dht ci) [])]"

definition handleDebug :: "core_info \<Rightarrow> bytes \<Rightarrow> bytes \<Rightarrow> proto_handler \<Rightarrow> proto_handler \<times> proto_out list" where
  "handleDebug ci key bs s =
     (case bs of [] \<Rightarrow> (s, [])
      | t # rest \<Rightarrow>
          if t = typeDebugDummy then (s, [])
          else if t = typeDebugGetSelfRequest then (s, handleGetSelfRequest ci key)
          else if t = typeDebugGetSelfResponse then handleGetSelfResponse key rest s
          else if t = typeDebugGetPeersRequest then (s, handleGetPeersRequest ci key)
          else if t = typeDebugGetPeersResponse then handleGetPeersResponse key rest s
          else if t = typeDebugGetDHTRequest then (s, handleGetDHTRequest ci key)
          else if t = typeDebugGetDHTResponse then handleGetDHTResponse key rest s
          else (s, []))"

section \<open>The admin handlers\<close>

text \<open>A handler decodes the key of its request, sends the request, and waits for the callback or for
  six seconds.  \<open>reply\<close> is what came of that; the address labels the answer.\<close>

datatype 'a admin_result = BadHex | Timeout | Answer bytes 'a

definition request_key :: "string \<Rightarrow> bytes option" where
  "request_key reqKey = map_option (go_copy (replicate 32 0)) (hex_decode reqKey)"

function split_keys :: "bytes \<Rightarrow> string list" where
  "split_keys bs = (if length bs \<ge> 32 then hex_encode (take 32 bs) # split_keys (drop 32 bs) else [])"
  by auto
termination by (relation "measure length") auto

declare split_keys.simps [simp del]

definition getKeysHandler :: "network_domain \<Rightarrow> string \<Rightarrow> bytes option \<Rightarrow> string list admin_result outcome" where
  "getKeysHandler nd reqKey reply =
     (case hex_decode reqKey of None \<Rightarrow> Ret BadHex
      | Some kbs \<Rightarrow>
          (case reply of None \<Rightarrow> Ret Timeout
           | Some info \<Rightarrow>
               let ks = split_keys info
               in bind_outcome (AddrForKey nd kbs) (\<lambda>ip.
                    case ip of None \<Rightarrow> Panic | Some ip \<Rightarrow> Ret (Answer ip ks))))"

definition getPeersHandler :: "network_domain \<Rightarrow> string \<Rightarrow> bytes option \<Rightarrow> string list admin_result outcome" where
  "getPeersHandler = getKeysHandler"

definition getDHTHandler :: "network_domain \<Rightarrow> string \<Rightarrow> bytes option \<Rightarrow> string list admin_result outcome" where
  "getDHTHandler = getKeysHandler"

text \<open>\<open>json.RawMessage.UnmarshalJSON\<close> keeps the bytes as they are.\<close>

definition getSelfHandler :: "network_domain \<Rightarrow> string \<Rightarrow> bytes option \<Rightarrow> bytes admin_result outcome" where
  "getSelfHandler nd reqKey reply =
     (case hex_decode reqKey of None \<Rightarrow> Ret BadHex
      | Some kbs \<Rightarrow>
          (case reply of None \<Rightarrow> Ret Timeout
           | Some info \<Rightarrow> bind_outcome (AddrForKey nd kbs) (\<lambda>ip.
               case ip of None \<Rightarrow> Panic | Some ip \<Rightarrow> Ret (Answer ip info))))"

end
