(* ===== verification/Proto_Runs.thy ===== *)
theory Proto_Runs
  imports Proto
begin

text \<open>
  Runs of the protocol handler: its own requests, packets from other nodes, and timers, in any order.
  The invariant ties the tables to the request objects and their timers; from it follow that a
  callback is called at most once and that no request stays for ever.  Then the answers: they fit
  the MTU and the other end reads out of them the keys that were put in.
\<close>

section \<open>Tables\<close>

lemma requests_set [simp]:
  "requests k (set_requests k' m s) = (if k = k' then m else requests k s)"
  by (cases k; cases k') simp_all

lemma set_requests_fields [simp]:
  "ph_infos (set_requests k m s) = ph_infos s"
  "ph_timers (set_requests k m s) = ph_timers s"
  "ph_inbox (set_requests k m s) = ph_inbox s"
  "ph_next (set_requests k m s) = ph_next s"
  by (cases k; simp)+

lemma requests_update [simp]:
  "requests k (s\<lparr>ph_infos := I\<rparr>) = requests k s"
  "requests k (s\<lparr>ph_timers := T\<rparr>) = requests k s"
  "requests k (s\<lparr>ph_inbox := B\<rparr>) = requests k s"
  "requests k (s\<lparr>ph_next := n\<rparr>) = requests k s"
  by (cases k; simp)+

lemma stop_request_timer_fields [simp]:
  "requests k (stop_request_timer i s) = requests k s"
  "ph_infos (stop_request_timer i s) = ph_infos s"
  "ph_inbox (stop_request_timer i s) = ph_inbox s"
  "ph_next (stop_request_timer i s) = ph_next s"
  by (simp_all add: stop_request_timer_def split: option.splits)

interpretation request_table: expiring_table "requests kind" "\<lambda>key i. drop_request (DropReq kind key i)" for kind
  by unfold_locales auto

section \<open>The invariant\<close>

definition req_pending :: "proto_handler \<Rightarrow> drop_fun \<Rightarrow> bool" where
  "req_pending s f \<longleftrightarrow> (\<exists>t. ph_timers s t = Some f) \<or> f \<in> set (ph_inbox s)"

definition ph_inv :: "proto_handler \<Rightarrow> bool" where
  "ph_inv s \<longleftrightarrow>
     (\<forall>kind key i. requests kind s key = Some i \<longrightarrow>
        (\<exists>info. ph_infos s i = Some info) \<and> req_pending s (DropReq kind key i))
   \<and> (\<forall>kind key kind' key' i. requests kind s key = Some i \<longrightarrow> requests kind' s key' = Some i \<longrightarrow>
        kind = kind' \<and> key = key')
   \<and> (\<forall>i info. ph_infos s i = Some info \<longrightarrow> i < ph_next s \<and> rq_callback info = i \<and>
        rq_timer info < ph_next s \<and>
        (\<forall>kind key j. ph_timers s (rq_timer info) = Some (DropReq kind key j) \<longrightarrow> j = i))
   \<and> (\<forall>t f. ph_timers s t = Some f \<longrightarrow> t < ph_next s)"

definition called :: "proto_out list \<Rightarrow> nat list" where
  "called outs = concat (map (\<lambda>out. case out of CallBack c bs \<Rightarrow> [c] | _ \<Rightarrow> []) outs)"

lemma called_simps [simp]:
  "called [] = []" "called (CallBack c bs # outs) = c # called outs"
  "called (SendProto bs key # outs) = called outs" "called (sendDebug key t bs # outs) = called outs"
  "called (outs @ outs') = called outs @ called outs'"
  by (simp_all add: called_def sendDebug_def)

text \<open>A callback that was called belongs to a request that is in no table any more.\<close>

definition log_ok :: "proto_handler \<Rightarrow> proto_out list \<Rightarrow> bool" where
  "log_ok s log \<longleftrightarrow> distinct (called log)
     \<and> (\<forall>c \<in> set (called log). c < ph_next s \<and> (\<forall>kind key. requests kind s key \<noteq> Some c))"

text \<open>Taking a request out of its table, with its timer stopped.\<close>

definition take_out :: "req_kind \<Rightarrow> bytes \<Rightarrow> nat \<Rightarrow> proto_handler \<Rightarrow> proto_handler" where
  "take_out kind key i s = set_requests kind ((requests kind s)(key := None)) (stop_request_timer i s)"

lemma take_out_fields [simp]:
  "requests k (take_out kind key i s) = (if k = kind then (requests kind s)(key := None) else requests k s)"
  "ph_infos (take_out kind key i s) = ph_infos s"
  "ph_inbox (take_out kind key i s) = ph_inbox s"
  "ph_next (take_out kind key i s) = ph_next s"
  by (simp_all add: take_out_def)

lemma take_out_timer: "ph_timers (take_out kind key i s) t = Some f \<Longrightarrow> ph_timers s t = Some f"
  by (auto simp: take_out_def stop_request_timer_def split: option.splits if_splits)

lemma ph_inv_take_out:
  assumes "ph_inv s" and "requests kind s key = Some i"
  shows "ph_inv (take_out kind key i s)"
proof -
  have pend: "req_pending (take_out kind key i s) (DropReq k key' j)"
    if j: "requests k s key' = Some j" "j \<noteq> i" for k key' j
  proof -
    obtain info where info: "ph_infos s i = Some info"
      using assms unfolding ph_inv_def by blast
    have "req_pending s (DropReq k key' j)" using assms(1) j(1) unfolding ph_inv_def by blast
    moreover have "ph_timers s (rq_timer info) \<noteq> Some (DropReq k key' j)"
      using assms(1) info j(2) unfolding ph_inv_def by blast
    moreover have "ph_timers (take_out kind key i s) t = ph_timers s t" if "t \<noteq> rq_timer info" for t
      using info that by (simp add: take_out_def stop_request_timer_def)
    ultimately show ?thesis
      unfolding req_pending_def take_out_fields(3) by metis
  qed
  have uniq: "requests k s key' = Some i \<Longrightarrow> k = kind \<and> key' = key" for k key'
    using assms unfolding ph_inv_def by blast
  show ?thesis
    unfolding ph_inv_def
  proof (intro conjI allI impI)
    fix k key' j assume j: "requests k (take_out kind key i s) key' = Some j"
    then have "requests k s key' = Some j" "j \<noteq> i" using uniq by (auto split: if_splits)
    then show "req_pending (take_out kind key i s) (DropReq k key' j)"
      and "\<exists>info. ph_infos (take_out kind key i s) j = Some info"
      using pend assms(1) by (auto simp: ph_inv_def)
  qed (use assms(1) in \<open>auto simp: ph_inv_def dest!: take_out_timer split: if_splits\<close>)
qed

lemma log_ok_take_out: "log_ok s log \<Longrightarrow> log_ok (take_out kind key i s) log"
  by (simp add: log_ok_def)

text \<open>Putting a new request into a table.\<close>

definition put_in :: "req_kind \<Rightarrow> bytes \<Rightarrow> nat \<Rightarrow> proto_handler \<Rightarrow> proto_handler" where
  "put_in kind key callback s =
     set_requests kind ((requests kind s)(key \<mapsto> ph_next s))
       (s\<lparr>ph_infos := (ph_infos s)(ph_next s \<mapsto> \<lparr>rq_callback = callback, rq_timer = ph_next s + 1\<rparr>),
          ph_timers := (ph_timers s)(ph_next s + 1 \<mapsto> DropReq kind key (ph_next s)),
          ph_next := ph_next s + 2\<rparr>)"

lemma put_in_fields [simp]:
  "requests k (put_in kind key c s) = (if k = kind then (requests kind s)(key \<mapsto> ph_next s) else requests k s)"
  "ph_infos (put_in kind key c s) = (ph_infos s)(ph_next s \<mapsto> \<lparr>rq_callback = c, rq_timer = ph_next s + 1\<rparr>)"
  "ph_timers (put_in kind key c s) = (ph_timers s)(ph_next s + 1 \<mapsto> DropReq kind key (ph_next s))"
  "ph_inbox (put_in kind key c s) = ph_inbox s"
  "ph_next (put_in kind key c s) = ph_next s + 2"
  by (simp_all add: put_in_def)

lemma send_request_eq:
  "send_request kind dType key callback s =
     (put_in kind key callback (case requests kind s key of None \<Rightarrow> s | Some i \<Rightarrow> take_out kind key i s),
      [sendDebug key dType []])"
  by (auto simp: send_request_def put_in_def take_out_def Let_def split: option.splits)

lemma handle_response_eq:
  "handle_response kind key bs s =
     (case requests kind s key of None \<Rightarrow> (s, [])
      | Some i \<Rightarrow> (case ph_infos s i of None \<Rightarrow> (s, [])
          | Some info \<Rightarrow> (take_out kind key i s, [CallBack (rq_callback info) bs])))"
  by (auto simp: handle_response_def take_out_def Let_def split: option.splits)

lemma ph_inv_put_in:
  assumes "ph_inv s"
  shows "ph_inv (put_in kind key (ph_next s) s)"
proof -
  have fresh: "requests k s key' \<noteq> Some (ph_next s)" for k key'
    using assms unfolding ph_inv_def by blast
  have t: "ph_timers s t = Some f \<Longrightarrow> t < ph_next s" for t f
    using assms unfolding ph_inv_def by blast
  have "ph_timers (put_in kind key (ph_next s) s) t = Some f" if "ph_timers s t = Some f" for t f
    using t [OF that] that by simp
  then have "req_pending s f \<Longrightarrow> req_pending (put_in kind key (ph_next s) s) f" for f
    unfolding req_pending_def put_in_fields(4) by blast
  moreover have "req_pending (put_in kind key (ph_next s) s) (DropReq kind key (ph_next s))"
    by (auto simp: req_pending_def)
  moreover have entry: "\<exists>info. ph_infos s j = Some info" "req_pending s (DropReq k key' j)"
    if "requests k s key' = Some j" for k key' j
    using that assms unfolding ph_inv_def by blast+
  ultimately have 1: "(\<exists>info. ph_infos (put_in kind key (ph_next s) s) j = Some info)
      \<and> req_pending (put_in kind key (ph_next s) s) (DropReq k key' j)"
    if "requests k (put_in kind key (ph_next s) s) key' = Some j" for k key' j
    using that by (cases "j = ph_next s") (auto simp: fresh split: if_splits)
  have 2: "k = k' \<and> a = b"
    if "requests k (put_in kind key (ph_next s) s) a = Some j"
      "requests k' (put_in kind key (ph_next s) s) b = Some j" for k k' a b j
    using that assms fresh unfolding ph_inv_def by (auto split: if_splits)
  have 3: "j < ph_next s + 2 \<and> rq_callback info = j \<and> rq_timer info < ph_next s + 2
      \<and> (\<forall>k a i. ph_timers (put_in kind key (ph_next s) s) (rq_timer info) = Some (DropReq k a i) \<longrightarrow> i = j)"
    if j: "ph_infos (put_in kind key (ph_next s) s) j = Some info" for j info
  proof (cases "j = ph_next s")
    case False
    then have "ph_infos s j = Some info" using j by simp
    then have "j < ph_next s" "rq_callback info = j" "rq_timer info < ph_next s"
      "\<And>k a i. ph_timers s (rq_timer info) = Some (DropReq k a i) \<Longrightarrow> i = j"
      using assms unfolding ph_inv_def by blast+
    then show ?thesis by auto
  qed (use j in auto)
  have 4: "t' < ph_next s + 2" if "ph_timers (put_in kind key (ph_next s) s) t' = Some f" for t' f
    using that t [of t'] by (auto split: if_splits)
  show ?thesis unfolding ph_inv_def put_in_fields(5) using 1 2 3 4 by blast
qed


section \<open>The transition system\<close>

text \<open>The calls from outside: the node's own requests, whose callback is a fresh closure, and the debug
  packets of other nodes.\<close>

datatype ph_event = AskSelf bytes | AskPeers bytes | AskDHT bytes | FromNode bytes bytes

fun ph_apply :: "core_info \<Rightarrow> ph_event \<Rightarrow> proto_handler \<Rightarrow> proto_handler \<times> proto_out list" where
  "ph_apply ci (AskSelf key) s = sendGetSelfRequest key (ph_next s) s"
| "ph_apply ci (AskPeers key) s = sendGetPeersRequest key (ph_next s) s"
| "ph_apply ci (AskDHT key) s = sendGetDHTRequest key (ph_next s) s"
| "ph_apply ci (FromNode key bs) s = handleDebug ci key bs s"

definition ph_fire :: "nat \<Rightarrow> proto_handler \<Rightarrow> proto_handler" where
  "ph_fire t s = (case ph_timers s t of None \<Rightarrow> s
     | Some f \<Rightarrow> s\<lparr>ph_timers := (ph_timers s)(t := None), ph_inbox := ph_inbox s @ [f]\<rparr>)"

definition ph_run :: "nat \<Rightarrow> proto_handler \<Rightarrow> proto_handler" where
  "ph_run i s =
     (if i < length (ph_inbox s)
      then drop_request (ph_inbox s ! i) (s\<lparr>ph_inbox := take i (ph_inbox s) @ drop (Suc i) (ph_inbox s)\<rparr>)
      else s)"

type_synonym ph_state = "proto_handler \<times> proto_out list"

inductive ph_step :: "core_info \<Rightarrow> ph_state \<Rightarrow> ph_state \<Rightarrow> bool" for ci where
  ph_call: "ph_apply ci e s = (s', outs) \<Longrightarrow> ph_step ci (s, log) (s', log @ outs)"
| ph_fires: "ph_step ci (s, log) (ph_fire t s, log)"
| ph_runs: "ph_step ci (s, log) (ph_run i s, log)"

definition ph_start :: "ph_state \<Rightarrow> bool" where
  "ph_start st \<longleftrightarrow> st = (ph_init, [])"

definition ph_ok :: "ph_state \<Rightarrow> bool" where
  "ph_ok st \<longleftrightarrow> ph_inv (fst st) \<and> log_ok (fst st) (snd st)"

lemma send_request_ok:
  assumes "ph_inv s" and "log_ok s log" and "send_request kind dType key (ph_next s) s = (s', outs)"
  shows "ph_inv s' \<and> log_ok s' (log @ outs)"
proof -
  define s0 where "s0 = (case requests kind s key of None \<Rightarrow> s | Some i \<Rightarrow> take_out kind key i s)"
  have s0: "ph_inv s0" "log_ok s0 log" "ph_next s0 = ph_next s"
    using assms(1,2) by (auto simp: s0_def ph_inv_take_out log_ok_take_out split: option.splits)
  have s': "s' = put_in kind key (ph_next s0) s0" "outs = [sendDebug key dType []]"
    using assms(3) s0(3) by (auto simp: send_request_eq s0_def)
  have "ph_inv s'" unfolding s' by (rule ph_inv_put_in [OF s0(1)])
  moreover have "log_ok s' (log @ outs)"
    using s0(2) unfolding s' log_ok_def by auto
  ultimately show ?thesis by blast
qed

lemma handle_response_ok:
  assumes "ph_inv s" and "log_ok s log" and "handle_response kind key bs s = (s', outs)"
  shows "ph_inv s' \<and> log_ok s' (log @ outs)"
proof (cases "requests kind s key")
  case (Some i)
  then obtain info where info: "ph_infos s i = Some info" "rq_callback info = i" "i < ph_next s"
    using assms(1) unfolding ph_inv_def by blast
  have s': "s' = take_out kind key i s" "outs = [CallBack i bs]"
    using assms(3) Some info by (auto simp: handle_response_eq)
  have gone: "requests k (take_out kind key i s) key' \<noteq> Some i" for k key'
    using assms(1) Some unfolding ph_inv_def by (auto split: if_splits)
  have "ph_inv s'" unfolding s' by (rule ph_inv_take_out [OF assms(1) Some])
  moreover have "i \<notin> set (called log)" using assms(2) Some unfolding log_ok_def by blast
  then have "log_ok s' (log @ outs)"
    using log_ok_take_out [OF assms(2)] gone info(3) unfolding s' log_ok_def by auto
  ultimately show ?thesis by blast
qed (use assms in \<open>auto simp: handle_response_eq\<close>)

lemma handleDebug_cases:
  "(\<exists>kind rest. handleDebug ci key bs s = handle_response kind key rest s)
   \<or> (\<exists>outs. handleDebug ci key bs s = (s, outs) \<and> called outs = [])"
proof (cases bs)
  case (Cons t rest)
  then show ?thesis
    unfolding handleDebug_def handleGetSelfResponse_def handleGetPeersResponse_def handleGetDHTResponse_def
      handleGetSelfRequest_def handleGetPeersRequest_def handleGetDHTRequest_def by auto
qed (simp add: handleDebug_def)

lemma ph_apply_ok:
  assumes "ph_inv s" and "log_ok s log" and "ph_apply ci e s = (s', outs)"
  shows "ph_inv s' \<and> log_ok s' (log @ outs)"
proof (cases e)
  case (FromNode key bs)
  have "handleDebug ci key bs s = (s', outs)" using assms(3) FromNode by simp
  then consider kind rest where "handle_response kind key rest s = (s', outs)"
    | "s' = s" "called outs = []"
    using handleDebug_cases [of ci key bs s] by auto
  then show ?thesis
    by cases (use assms(1,2) handle_response_ok [OF assms(1,2)] in \<open>auto simp: log_ok_def\<close>)
qed (use assms send_request_ok [OF assms(1,2)] in \<open>simp_all add: sendGetSelfRequest_def
      sendGetPeersRequest_def sendGetDHTRequest_def\<close>)

lemma drop_request_fields [simp]:
  "ph_infos (drop_request f s) = ph_infos s" "ph_timers (drop_request f s) = ph_timers s"
  "ph_inbox (drop_request f s) = ph_inbox s" "ph_next (drop_request f s) = ph_next s"
  by (cases f; simp)+

lemma drop_request_sub: "requests k (drop_request f s) key = Some i \<Longrightarrow> requests k s key = Some i"
  by (cases f) (auto split: if_splits)

lemma drop_request_gone: "requests k (drop_request (DropReq k key i) s) key \<noteq> Some i"
  using request_table.expire_gone by simp

lemma ph_inv_fire: "ph_inv s \<Longrightarrow> ph_inv (ph_fire t s)"
proof (cases "ph_timers s t")
  case (Some f)
  assume inv: "ph_inv s"
  have "req_pending (ph_fire t s) g = req_pending s g" for g
    using Some by (cases "g = f") (auto simp: ph_fire_def req_pending_def, metis option.inject)
  then show ?thesis using inv Some by (auto simp: ph_inv_def ph_fire_def)
qed (simp add: ph_fire_def)

lemma ph_inv_shrink:
  assumes "ph_inv s" and "ph_infos s' = ph_infos s" and "ph_timers s' = ph_timers s" and "ph_next s' = ph_next s"
    and "\<And>k key j. requests k s' key = Some j \<Longrightarrow> requests k s key = Some j \<and> req_pending s' (DropReq k key j)"
  shows "ph_inv s'"
  unfolding ph_inv_def assms(2-4)
proof (intro conjI)
  show "\<forall>kind key i. requests kind s' key = Some i \<longrightarrow>
      (\<exists>info. ph_infos s i = Some info) \<and> req_pending s' (DropReq kind key i)"
    using assms(1,5) unfolding ph_inv_def by blast
  show "\<forall>kind key kind' key' i. requests kind s' key = Some i \<longrightarrow> requests kind' s' key' = Some i \<longrightarrow>
      kind = kind' \<and> key = key'"
    using assms(1,5) unfolding ph_inv_def by blast
qed (use assms(1) in \<open>simp_all add: ph_inv_def\<close>)

lemma ph_inv_run:
  assumes "ph_inv s"
  shows "ph_inv (ph_run i s)"
proof (cases "i < length (ph_inbox s)")
  case True
  define f where "f = ph_inbox s ! i"
  define s0 where "s0 = s\<lparr>ph_inbox := take i (ph_inbox s) @ drop (Suc i) (ph_inbox s)\<rparr>"
  have run: "ph_run i s = drop_request f s0" using True by (simp add: ph_run_def f_def s0_def)
  have "set (ph_inbox s) = insert f (set (ph_inbox s0))"
    using id_take_nth_drop [OF True] by (simp add: s0_def f_def) (metis set_append list.set(2) Un_insert_right)
  then have pend: "req_pending s g \<Longrightarrow> g \<noteq> f \<Longrightarrow> req_pending (ph_run i s) g" for g
    by (auto simp: run req_pending_def s0_def)
  have sub: "requests k s key = Some j \<and> DropReq k key j \<noteq> f" if "requests k (ph_run i s) key = Some j" for k key j
    using that drop_request_sub [of k f s0 key j] drop_request_gone [of k key j s0] unfolding run
    by (auto simp: s0_def)
  have "ph_infos (ph_run i s) = ph_infos s" "ph_timers (ph_run i s) = ph_timers s" "ph_next (ph_run i s) = ph_next s"
    by (simp_all add: run s0_def)
  then show ?thesis
  proof (rule ph_inv_shrink [OF assms])
    fix k key j assume "requests k (ph_run i s) key = Some j"
    then have j: "requests k s key = Some j" "DropReq k key j \<noteq> f" using sub by blast+
    then have "req_pending s (DropReq k key j)" using assms unfolding ph_inv_def by blast
    with j pend show "requests k s key = Some j \<and> req_pending (ph_run i s) (DropReq k key j)" by blast
  qed
qed (use assms in \<open>simp add: ph_run_def\<close>)

lemma run_sub: "requests k (ph_run i s) key = Some j \<Longrightarrow> requests k s key = Some j"
  by (auto simp: ph_run_def split: if_splits dest: drop_request_sub)

lemma ph_run_next [simp]: "ph_next (ph_run i s) = ph_next s" "ph_next (ph_fire t s) = ph_next s"
  "requests k (ph_fire t s) = requests k s"
  by (simp_all add: ph_run_def ph_fire_def split: option.splits)

lemma ph_inv_init: "ph_inv ph_init"
proof -
  have "requests kind ph_init key = None" for kind key by (cases kind) (simp_all add: ph_init_def)
  then show ?thesis by (simp add: ph_inv_def) (simp add: ph_init_def)
qed

interpretation proto_runs: invariant_system ph_start "ph_step ci" ph_ok for ci
proof unfold_locales
  fix st assume "ph_start st"
  then show "ph_ok st"
    by (simp add: ph_start_def ph_ok_def ph_inv_init log_ok_def)
next
  fix st st' assume st: "ph_ok st"
  assume "ph_step ci st st'"
  then show "ph_ok st'"
  proof (cases rule: ph_step.cases)
    case (ph_call e s s' outs log)
    then show ?thesis using st ph_apply_ok [of s log ci e s' outs] by (simp add: ph_ok_def)
  next
    case (ph_fires s log t)
    then show ?thesis using st by (simp add: ph_ok_def ph_inv_fire log_ok_def)
  next
    case (ph_runs s log i)
    then show ?thesis using st by (auto simp: ph_ok_def ph_inv_run log_ok_def dest: run_sub)
  qed
qed


section \<open>Packed keys\<close>

definition keys_ok :: "bytes list \<Rightarrow> bool" where
  "keys_ok ks \<longleftrightarrow> list_all (\<lambda>k. length k = 32) ks"

lemma length_concat_keys: "keys_ok ks \<Longrightarrow> length (concat ks) = 32 * length ks"
  by (induction ks) (simp_all add: keys_ok_def)

lemma split_keys_concat: "keys_ok ks \<Longrightarrow> length rest < 32 \<Longrightarrow> split_keys (concat ks @ rest) = map hex_encode ks"
  by (induction ks) (simp_all add: keys_ok_def split_keys.simps [of "_ @ _"] split_keys.simps [of rest])

text \<open>The loop takes keys while they fit; the 64-bit sum does not wrap for keys that exist in memory.\<close>

lemma pack_keys_step:
  assumes "length bs + 34 < 2 ^ 64" and "length k = 32"
  shows "pack_keys mtu (k # ks) bs = (if length bs + 34 \<le> unat mtu then pack_keys mtu ks (bs @ k) else bs)"
proof -
  have "unat (word_of_nat (length (bs @ k)) + 2 :: 64 word) = length bs + 34"
    using assms by (simp add: unat_word_ariths unat_of_nat)
  then have "word_of_nat (length (bs @ k)) + 2 > mtu \<longleftrightarrow> \<not> length bs + 34 \<le> unat mtu"
    by (simp only: word_less_nat_alt) linarith
  then show ?thesis by (simp only: pack_keys.simps Let_def) simp
qed

lemma pack_keys_eq:
  assumes "keys_ok ks" and "length bs + 32 * length ks + 2 < 2 ^ 64"
  shows "pack_keys mtu ks bs = bs @ concat (take ((unat mtu - 2 - length bs) div 32) ks)"
  using assms
proof (induction ks arbitrary: bs)
  case (Cons k ks)
  then have k: "length k = 32" "keys_ok ks" and len: "length bs + 34 < 2 ^ 64" by (simp_all add: keys_ok_def)
  show ?case
  proof (cases "length bs + 34 \<le> unat mtu")
    case True
    have "pack_keys mtu (k # ks) bs = pack_keys mtu ks (bs @ k)"
      using pack_keys_step [OF len k(1)] True by simp
    also have "\<dots> = (bs @ k) @ concat (take ((unat mtu - 2 - length (bs @ k)) div 32) ks)"
      by (rule Cons.IH [OF k(2)]) (use Cons.prems(2) k(1) in simp)
    finally have *: "pack_keys mtu (k # ks) bs = (bs @ k) @ concat (take ((unat mtu - 2 - length (bs @ k)) div 32) ks)" .
    have "unat mtu - 2 - length bs = 32 + (unat mtu - 2 - length (bs @ k))"
      using True k(1) by simp
    then have "(unat mtu - 2 - length bs) div 32 = Suc ((unat mtu - 2 - length (bs @ k)) div 32)"
      by simp
    with * show ?thesis by simp
  next
    case False
    then have "(unat mtu - 2 - length bs) div 32 = 0" by simp
    then show ?thesis using pack_keys_step [OF len k(1)] False by simp
  qed
qed simp

section \<open>Properties\<close>

text \<open>C4: a callback is called at most once.  In every run of the handler no request's callback is called
  twice, whatever answers arrive, how often, and however they race with timers and with newer
  requests to the same node; so the channel behind it, which holds one answer, never blocks the handler.\<close>

theorem callback_at_most_once:
  assumes "reach ph_start (ph_step ci) (s, log)"
  shows "distinct (called log)"
  using proto_runs.reach_inv [OF assms] by (simp add: ph_ok_def log_ok_def)

definition test_info :: core_info where
  "test_info = \<lparr>ci_key = replicate 32 9, ci_coords = [3, 14], ci_peers = [replicate 32 1, replicate 32 2, replicate 32 3],
     ci_dht = [], ci_MTU = 100\<rparr>"

lemma ph_steps:
  assumes "reach ph_start (ph_step ci) (s, log)" and "ph_apply ci e s = (s', outs)"
  shows "reach ph_start (ph_step ci) (s', log @ outs)"
  using assms by (auto intro: reach_step ph_call)

lemma ph_start_reach: "reach ph_start (ph_step ci) (ph_init, [])"
  by (rule reach_init) (simp add: ph_start_def)

lemma test_ask:
  obtains s1 s2 where "reach ph_start (ph_step test_info) (s2, [sendDebug [7] typeDebugGetPeersRequest [], CallBack 0 [8]])"
    and "reach ph_start (ph_step test_info) (s1, [sendDebug [7] typeDebugGetPeersRequest []])"
    and "s1 = put_in PeersReq [7] 0 ph_init"
proof -
  define s1 where "s1 = put_in PeersReq [7] 0 ph_init"
  have 1: "ph_apply test_info (AskPeers [7]) ph_init = (s1, [sendDebug [7] typeDebugGetPeersRequest []])"
    by (simp add: sendGetPeersRequest_def send_request_eq s1_def) (simp add: ph_init_def)
  have 2: "ph_apply test_info (FromNode [7] (typeDebugGetPeersResponse # [8])) s1 = (take_out PeersReq [7] 0 s1, [CallBack 0 [8]])"
    by (simp add: handleDebug_def handleGetPeersResponse_def handle_response_eq debug_types s1_def del: requests.simps)
      (simp add: ph_init_def)
  from ph_steps [OF ph_start_reach 1] have r1: "reach ph_start (ph_step test_info) (s1, [sendDebug [7] typeDebugGetPeersRequest []])"
    by simp
  from ph_steps [OF r1 2] that r1 s1_def show ?thesis by auto
qed

theorem callback_at_most_once_witness:
  "\<exists>s log. reach ph_start (ph_step test_info) (s, log) \<and> called log = [0] \<and> distinct (called log)"
proof -
  obtain s where r: "reach ph_start (ph_step test_info) (s, [sendDebug [7] typeDebugGetPeersRequest [], CallBack 0 [8]])"
    using test_ask .
  from callback_at_most_once [OF r] r show ?thesis
    by (metis called_simps(1,2,4))
qed

text \<open>C23: the newest request gets the answer.  After a request for a node's peers the next such answer of
  that node is passed, unchanged, to this request's callback and to no other, even when it
  replaced an older request; the request is then gone, and a second answer is ignored.\<close>

theorem answer_to_newest_request:
  "\<exists>s1 s2. sendGetPeersRequest key callback s = (s1, [sendDebug key typeDebugGetPeersRequest []])
     \<and> handleGetPeersResponse key bs s1 = (s2, [CallBack callback bs])
     \<and> handleGetPeersResponse key bs' s2 = (s2, [])
     \<and> ph_peersRequests s2 = (ph_peersRequests s)(key := None)
     \<and> ph_selfRequests s2 = ph_selfRequests s \<and> ph_dhtRequests s2 = ph_dhtRequests s"
proof -
  define s0 where "s0 = (case requests PeersReq s key of None \<Rightarrow> s | Some i \<Rightarrow> take_out PeersReq key i s)"
  define s1 where "s1 = put_in PeersReq key callback s0"
  define s2 where "s2 = take_out PeersReq key (ph_next s0) s1"
  have "sendGetPeersRequest key callback s = (s1, [sendDebug key typeDebugGetPeersRequest []])"
    by (simp only: sendGetPeersRequest_def send_request_eq s1_def s0_def)
  moreover have "handleGetPeersResponse key bs s1 = (s2, [CallBack callback bs])"
    by (simp add: handleGetPeersResponse_def handle_response_eq s1_def s2_def del: requests.simps)
  moreover have "handleGetPeersResponse key bs' s2 = (s2, [])"
    by (simp add: handleGetPeersResponse_def handle_response_eq s2_def del: requests.simps)
  moreover have r: "requests k s2 key' = requests k s key'" if "k \<noteq> PeersReq \<or> key' \<noteq> key" for k key'
    using that by (auto simp: s2_def s1_def s0_def split: option.splits simp del: requests.simps)
  have "ph_peersRequests s2 key = None"
    by (simp add: s2_def take_out_def)
  moreover have "(\<forall>k. k \<noteq> key \<longrightarrow> ph_peersRequests s2 k = ph_peersRequests s k)
     \<and> ph_selfRequests s2 = ph_selfRequests s \<and> ph_dhtRequests s2 = ph_dhtRequests s"
    using r [of PeersReq] r [of SelfReq] r [of DHTReq] by (auto simp: fun_eq_iff)
  ultimately show ?thesis by (auto simp: fun_eq_iff)
qed

lemma drop_fold_sub: "requests k (fold drop_request fs s) key = Some i \<Longrightarrow> requests k s key = Some i"
  by (induction fs arbitrary: s) (auto dest: drop_request_sub)

lemma drop_fold_gone:
  "DropReq k key i \<in> set fs \<Longrightarrow> requests k (fold drop_request fs s) key \<noteq> Some i"
proof (induction fs arbitrary: s)
  case (Cons f fs)
  then show ?case
    using drop_fold_sub [of k fs "drop_request f s" key i] drop_request_gone [of k key i s]
    by (cases "f = DropReq k key i") (auto simp del: drop_request.simps)
qed simp

text \<open>C24: no request stays for ever.  In every run, once the functions of all timers that are pending
  (armed or posted to the inbox) have run, in any order, the three tables are empty.\<close>

theorem requests_drain:
  assumes "reach ph_start (ph_step ci) (s, log)" and "\<And>f. req_pending s f \<Longrightarrow> f \<in> set fs"
  shows "ph_selfRequests (fold drop_request fs s) = Map.empty
     \<and> ph_peersRequests (fold drop_request fs s) = Map.empty
     \<and> ph_dhtRequests (fold drop_request fs s) = Map.empty"
proof -
  have inv: "ph_inv s" using proto_runs.reach_inv [OF assms(1)] by (simp add: ph_ok_def)
  have "requests k (fold drop_request fs s) key \<noteq> Some i" for k key i
  proof
    assume i: "requests k (fold drop_request fs s) key = Some i"
    then have "req_pending s (DropReq k key i)"
      using drop_fold_sub inv unfolding ph_inv_def by blast
    with assms(2) have "DropReq k key i \<in> set fs" by blast
    with i drop_fold_gone show False by blast
  qed
  then have "requests k (fold drop_request fs s) = Map.empty" for k
    by (intro ext) (metis not_None_eq)
  from this [of SelfReq] this [of PeersReq] this [of DHTReq] show ?thesis by simp
qed

theorem requests_drain_witness:
  "\<exists>s log. reach ph_start (ph_step test_info) (s, log) \<and> ph_peersRequests s [7] = Some 0
     \<and> ph_peersRequests (fold drop_request [DropReq PeersReq [7] 0] s) = Map.empty"
proof -
  obtain s where r: "reach ph_start (ph_step test_info) (s, [sendDebug [7] typeDebugGetPeersRequest []])"
    and s: "s = put_in PeersReq [7] 0 ph_init"
    using test_ask .
  have "req_pending s f \<Longrightarrow> f \<in> set [DropReq PeersReq [7] 0]" for f
    by (auto simp: s req_pending_def ph_init_def split: if_splits)
  from requests_drain [OF r this] have "ph_peersRequests (fold drop_request [DropReq PeersReq [7] 0] s) = Map.empty"
    by blast
  moreover have "ph_peersRequests s [7] = Some 0" by (simp add: s put_in_def ph_init_def)
  ultimately show ?thesis using r by blast
qed

text \<open>C25: what a node answers about its peers, the other reads.  The answer carries the first keys of
  the list, as many as fit; its packet is within the MTU of the library; and the admin handler of
  the node that asked lists exactly these keys, as hexadecimal strings, in order.\<close>

theorem peers_answer_read:
  assumes "keys_ok (ci_peers ci)" and "32 * length (ci_peers ci) + 2 < 2 ^ 64"
    and "ci_MTU ci = MTU m" and "3 \<le> unat m"
    and "hex_decode reqKey = Some kbs" and "AddrForKey nd kbs = Ret (Some ip)"
  shows "\<exists>payload. handleGetPeersRequest ci key = [sendDebug key typeDebugGetPeersResponse payload]
     \<and> 3 + length payload \<le> unat m
     \<and> getPeersHandler nd reqKey (Some payload) =
         Ret (Answer ip (map hex_encode (take ((unat m - 3) div 32) (ci_peers ci))))"
proof -
  let ?n = "(unat m - 3) div 32"
  have "m \<noteq> 0" using assms(4) by auto
  then have mtu: "unat (ci_MTU ci) = unat m - 1"
    using assms(3) by (simp add: MTU_def unat_minus_one)
  have payload: "pack_keys (ci_MTU ci) (ci_peers ci) [] = concat (take ?n (ci_peers ci))"
    using pack_keys_eq [OF assms(1), of "[]" "ci_MTU ci"] assms(2) by (simp add: mtu flip: numeral_3_eq_3)
  have ok: "keys_ok (take ?n (ci_peers ci))"
    using assms(1) by (auto simp: keys_ok_def list_all_iff dest: in_set_takeD)
  have "32 * ?n \<le> unat m - 3" by simp
  moreover have "32 * length (take ?n (ci_peers ci)) \<le> 32 * ?n" by simp
  ultimately have "length (concat (take ?n (ci_peers ci))) \<le> unat m - 3"
    unfolding length_concat_keys [OF ok] by (rule order.trans [rotated])
  then have "3 + length (concat (take ?n (ci_peers ci))) \<le> unat m" using assms(4) by simp
  moreover have "split_keys (concat (take ?n (ci_peers ci))) = map hex_encode (take ?n (ci_peers ci))"
    using split_keys_concat [OF ok, of "[]"] by simp
  ultimately show ?thesis
    using assms(5,6) by (intro exI [of _ "concat (take ?n (ci_peers ci))"])
      (simp add: handleGetPeersRequest_def payload getPeersHandler_def getKeysHandler_def)
qed

theorem peers_answer_read_witness:
  "\<exists>payload. handleGetPeersRequest test_info [7] = [sendDebug [7] typeDebugGetPeersResponse payload]
     \<and> 3 + length payload \<le> 101
     \<and> getPeersHandler test_domain (hex_encode test_key) (Some payload) =
         Ret (Answer [0xfc, 0, 132, 138, 96, 79, 187, 126, 67, 132, 101, 219, 141, 182, 104, 149]
           (map hex_encode [replicate 32 1, replicate 32 2, replicate 32 3]))"
  using peers_answer_read [of test_info 101 "hex_encode test_key" test_key test_domain, OF _ _ _ _ _ test_AddrForKey]
  by (simp add: test_info_def keys_ok_def MTU_def)

lemma no_address_panics:
  assumes "GetPrefix nd = Ret pre"
  shows "(bind_outcome (AddrForKey nd kbs) (\<lambda>ip. case ip of None \<Rightarrow> Panic | Some ip \<Rightarrow> Ret (f ip)) = Panic)
      = (length kbs \<noteq> 32)"
  using assms GetPrefix_RetD [OF assms] by (auto simp: AddrForKey_eq)

text \<open>an answer about a key of the wrong length crashes the node that asked.  The handlers take any
  hexadecimal string as a key, pad or cut it to 32 bytes for the request, and derive the address
  of the answer from the bytes as they came: with other than 32 of them there is no address, and
  the dereference panics, but only once an answer has come.\<close>

theorem handler_panics_iff:
  assumes "GetPrefix nd = Ret pre"
  shows "(getPeersHandler nd reqKey reply = Panic) =
       (\<exists>kbs info. hex_decode reqKey = Some kbs \<and> length kbs \<noteq> 32 \<and> reply = Some info)
     \<and> (getSelfHandler nd reqKey reply = Panic) = (getPeersHandler nd reqKey reply = Panic)
     \<and> (getDHTHandler nd reqKey reply = Panic) = (getPeersHandler nd reqKey reply = Panic)"
  using no_address_panics [OF assms]
  by (simp add: getPeersHandler_def getDHTHandler_def getSelfHandler_def getKeysHandler_def Let_def
      no_address_panics [OF assms] split: option.splits)

theorem handler_panics_iff_witness:
  "getPeersHandler test_domain ''abcd'' (Some []) = Panic \<and> getPeersHandler test_domain ''abcd'' None \<noteq> Panic"
proof -
  have "hex_decode ''abcd'' = Some [171, 205]" by code_simp
  moreover have "GetPrefix test_domain = Ret [0xfc]" by code_simp
  ultimately show ?thesis
    using handler_panics_iff [of test_domain "[0xfc]" "''abcd''"] by simp
qed

end
