(* ===== verification/Nodeinfo.thy ===== *)
theory Nodeinfo
  imports Proto_Runs
begin

text \<open>
  The node info actor of src/core/nodeinfo.go: this node's own description, and the callbacks that wait
  for those of other nodes.  Times are in seconds on one clock; \<open>json.Marshal\<close> of a map with
  arbitrary values is a parameter, and so are the build strings.  Each message is one atomic step.
\<close>

section \<open>State and operations\<close>

record nodeinfoCallback =
  nc_call :: nat
  nc_created :: nat

record nodeinfo =
  ni_myNodeInfo :: bytes
  ni_callbacks :: "bytes \<rightharpoonup> nodeinfoCallback"

definition ni_minute :: nat where "ni_minute = 60"

text \<open>One pass of \<open>_cleanup\<close>; it is run again 30 seconds later.\<close>

definition cleanup :: "nat \<Rightarrow> nodeinfo \<Rightarrow> nodeinfo" where
  "cleanup now m =
     m\<lparr>ni_callbacks := (\<lambda>key. case ni_callbacks m key of None \<Rightarrow> None
        | Some c \<Rightarrow> if now - nc_created c > ni_minute then None else Some c)\<rparr>"

definition ni_init :: "nat \<Rightarrow> nodeinfo" where
  "ni_init now = cleanup now \<lparr>ni_myNodeInfo = [], ni_callbacks = Map.empty\<rparr>"

definition addCallback :: "nat \<Rightarrow> bytes \<Rightarrow> nat \<Rightarrow> nodeinfo \<Rightarrow> nodeinfo" where
  "addCallback now sender call m =
     m\<lparr>ni_callbacks := (ni_callbacks m)(sender \<mapsto> \<lparr>nc_call = call, nc_created = now\<rparr>)\<rparr>"

definition ni_callback :: "bytes \<Rightarrow> bytes \<Rightarrow> nodeinfo \<Rightarrow> nodeinfo \<times> proto_out list" where
  "ni_callback sender info m =
     (case ni_callbacks m sender of None \<Rightarrow> (m, [])
      | Some c \<Rightarrow> (m\<lparr>ni_callbacks := (ni_callbacks m)(sender := None)\<rparr>, [CallBack (nc_call c) info]))"

text \<open>The values of a node info map, which come from the configuration file.\<close>

datatype json = JNull | JBool bool | JNum int | JString string | JArray "json list" | JObject "(string \<times> json) list"

datatype set_error = MarshalFailed | ExceedsMaxLength

text \<open>The map that is marshalled: the given one, and the build strings unless they are private.\<close>

definition add_build :: "(string \<rightharpoonup> json) \<Rightarrow> (string \<Rightarrow> string) \<Rightarrow> (string \<rightharpoonup> json)" where
  "add_build given build =
     given(''buildname'' \<mapsto> JString (build ''buildname''), ''buildversion'' \<mapsto> JString (build ''buildversion''),
           ''buildplatform'' \<mapsto> JString (build ''buildplatform''), ''buildarch'' \<mapsto> JString (build ''buildarch''))"

definition setNodeInfo ::
  "((string \<rightharpoonup> json) \<Rightarrow> bytes option) \<Rightarrow> (string \<Rightarrow> string) \<Rightarrow> (string \<rightharpoonup> json) \<Rightarrow> bool
    \<Rightarrow> nodeinfo \<Rightarrow> set_error option \<times> nodeinfo" where
  "setNodeInfo marshal build given privacy m =
     (let newnodeinfo = (if \<not> privacy then add_build given build else given)
      in case marshal newnodeinfo of
           None \<Rightarrow> (Some MarshalFailed, m)
         | Some newjson \<Rightarrow>
             if length newjson > 16384 then (Some ExceedsMaxLength, m)
             else (None, m\<lparr>ni_myNodeInfo := newjson\<rparr>))"

definition sendReq :: "nat \<Rightarrow> bytes \<Rightarrow> nat option \<Rightarrow> nodeinfo \<Rightarrow> nodeinfo \<times> proto_out list" where
  "sendReq now key callback m =
     (let m = (case callback of None \<Rightarrow> m | Some c \<Rightarrow> addCallback now key c m)
      in (m, [SendProto [typeSessionProto, typeProtoNodeInfoRequest] key]))"

definition sendRes :: "bytes \<Rightarrow> nodeinfo \<Rightarrow> proto_out list" where
  "sendRes key m = [SendProto ([typeSessionProto, typeProtoNodeInfoResponse] @ ni_myNodeInfo m) key]"

text \<open>The admin handler: the errors before a request, the timeout, and the answer under the key as it
  was given, whose length nothing checks.\<close>

datatype node_info_result = NoKey | BadKey | InfoTimeout | InfoAnswer string bytes

definition nodeInfoAdminHandler :: "string \<Rightarrow> bytes option \<Rightarrow> node_info_result" where
  "nodeInfoAdminHandler reqKey reply =
     (if reqKey = [] then NoKey
      else case hex_decode reqKey of None \<Rightarrow> BadKey
      | Some kbs \<Rightarrow> (case reply of None \<Rightarrow> InfoTimeout | Some info \<Rightarrow> InfoAnswer (hex_encode kbs) info))"

section \<open>Runs with a clock\<close>

text \<open>The actor with the time, the time of its next clean-up, and what it has sent and called.  The
  clean-up runs when its time has come, and the clock waits for it.\<close>

record ni_world =
  nw_now :: nat
  nw_due :: nat
  nw_node :: nodeinfo
  nw_log :: "proto_out list"
  nw_next :: nat

inductive ni_step :: "ni_world \<Rightarrow> ni_world \<Rightarrow> bool" where
  ni_tick: "nw_now w + d \<le> nw_due w \<Longrightarrow> ni_step w (w\<lparr>nw_now := nw_now w + d\<rparr>)"
| ni_clean: "nw_now w = nw_due w \<Longrightarrow>
     ni_step w (w\<lparr>nw_node := cleanup (nw_now w) (nw_node w), nw_due := nw_now w + 30\<rparr>)"
| ni_request: "sendReq (nw_now w) key (Some (nw_next w)) (nw_node w) = (m, outs) \<Longrightarrow>
     ni_step w (w\<lparr>nw_node := m, nw_log := nw_log w @ outs, nw_next := nw_next w + 1\<rparr>)"
| ni_response: "handleProto key bs = Some (NodeInfoResponse k info) \<Longrightarrow> ni_callback k info (nw_node w) = (m, outs) \<Longrightarrow>
     ni_step w (w\<lparr>nw_node := m, nw_log := nw_log w @ outs\<rparr>)"
| ni_asked: "handleProto key bs = Some (NodeInfoRequest k) \<Longrightarrow>
     ni_step w (w\<lparr>nw_log := nw_log w @ sendRes k (nw_node w)\<rparr>)"
| ni_set: "setNodeInfo marshal build given privacy (nw_node w) = (err, m) \<Longrightarrow>
     ni_step w (w\<lparr>nw_node := m\<rparr>)"

definition ni_start :: "ni_world \<Rightarrow> bool" where
  "ni_start w \<longleftrightarrow> nw_node w = ni_init (nw_now w) \<and> nw_due w = nw_now w + 30 \<and> nw_log w = []"

definition sent_length_ok :: "proto_out \<Rightarrow> bool" where
  "sent_length_ok out = (case out of SendProto bs key \<Rightarrow> length bs \<le> 16386 | CallBack _ _ \<Rightarrow> True)"

definition callbacks_ok :: "nat \<Rightarrow> nat \<Rightarrow> nat \<Rightarrow> nat list \<Rightarrow> (bytes \<rightharpoonup> nodeinfoCallback) \<Rightarrow> bool" where
  "callbacks_ok now due next cs m \<longleftrightarrow>
     (\<forall>key c. m key = Some c \<longrightarrow>
        nc_created c \<le> now \<and> due \<le> nc_created c + 90 \<and> nc_call c < next \<and> nc_call c \<notin> set cs)"

definition callbacks_inj :: "(bytes \<rightharpoonup> nodeinfoCallback) \<Rightarrow> bool" where
  "callbacks_inj m \<longleftrightarrow>
     (\<forall>key key' c c'. m key = Some c \<longrightarrow> m key' = Some c' \<longrightarrow> nc_call c = nc_call c' \<longrightarrow> key = key')"

definition ni_inv :: "ni_world \<Rightarrow> bool" where
  "ni_inv w \<longleftrightarrow>
     nw_now w \<le> nw_due w \<and> nw_due w \<le> nw_now w + 30
   \<and> callbacks_ok (nw_now w) (nw_due w) (nw_next w) (called (nw_log w)) (ni_callbacks (nw_node w))
   \<and> callbacks_inj (ni_callbacks (nw_node w))
   \<and> length (ni_myNodeInfo (nw_node w)) \<le> 16384
   \<and> list_all sent_length_ok (nw_log w)
   \<and> distinct (called (nw_log w)) \<and> (\<forall>c \<in> set (called (nw_log w)). c < nw_next w)"

lemma sent_length_ok_simps [simp]:
  "sent_length_ok (CallBack c bs)" "sent_length_ok (SendProto bs key) = (length bs \<le> 16386)"
  by (simp_all add: sent_length_ok_def)

lemma ni_inv_start: "ni_start w \<Longrightarrow> ni_inv w"
  by (simp add: ni_start_def ni_inv_def ni_init_def cleanup_def callbacks_ok_def callbacks_inj_def)

lemma callbacks_ok_later:
  "callbacks_ok now due next cs m \<Longrightarrow> now \<le> now' \<Longrightarrow> next \<le> next' \<Longrightarrow> callbacks_ok now' due next' cs m"
  unfolding callbacks_ok_def by (meson order.trans less_le_trans)

lemma callbacks_ok_cleanup:
  assumes "callbacks_ok now due next cs (ni_callbacks m)"
  shows "callbacks_ok now (now + 30) next cs (ni_callbacks (cleanup now m))"
  using assms unfolding callbacks_ok_def cleanup_def ni_minute_def
  by (fastforce split: option.splits if_splits)

lemma callbacks_inj_sub:
  "callbacks_inj m \<Longrightarrow> (\<And>key c. m' key = Some c \<Longrightarrow> m key = Some c) \<Longrightarrow> callbacks_inj m'"
  unfolding callbacks_inj_def by blast

lemma callbacks_ok_add:
  assumes "callbacks_ok now due next cs m" and "due \<le> now + 30" and "\<forall>c \<in> set cs. c < next"
  shows "callbacks_ok now due (next + 1) cs (m(key \<mapsto> \<lparr>nc_call = next, nc_created = now\<rparr>))"
  using assms unfolding callbacks_ok_def by (auto simp: less_Suc_eq)

lemma callbacks_inj_add:
  assumes "callbacks_ok now due next cs m" and "callbacks_inj m"
  shows "callbacks_inj (m(key \<mapsto> \<lparr>nc_call = next, nc_created = now'\<rparr>))"
proof -
  have "m k = Some c \<Longrightarrow> nc_call c \<noteq> next" for k c
    using assms(1) unfolding callbacks_ok_def by blast
  then show ?thesis
    using assms(2) unfolding callbacks_inj_def by (auto split: if_splits dest: sym)
qed

lemma callbacks_ok_call:
  assumes "callbacks_ok now due next cs m" and "callbacks_inj m" and "m key = Some c"
  shows "callbacks_ok now due next (cs @ [nc_call c]) (m(key := None))"
  using assms unfolding callbacks_ok_def callbacks_inj_def by (auto split: if_splits)

lemma ni_inv_step:
  assumes "ni_inv w" and "ni_step w w'"
  shows "ni_inv w'"
proof -
  note ok = assms(1) [unfolded ni_inv_def]
  from assms(2) show ?thesis
  proof cases
    case (ni_tick d)
    then show ?thesis using ok callbacks_ok_later [of "nw_now w" "nw_due w" "nw_next w" _ _ "nw_now w + d" "nw_next w"]
      by (simp add: ni_inv_def)
  next
    case ni_clean
    have "ni_callbacks (cleanup (nw_now w) (nw_node w)) key = Some c \<Longrightarrow> ni_callbacks (nw_node w) key = Some c" for key c
      by (auto simp: cleanup_def split: option.splits if_splits)
    then have "callbacks_inj (ni_callbacks (cleanup (nw_now w) (nw_node w)))"
      using ok callbacks_inj_sub by blast
    moreover have "callbacks_ok (nw_now w) (nw_now w + 30) (nw_next w) (called (nw_log w)) (ni_callbacks (cleanup (nw_now w) (nw_node w)))"
      using ok callbacks_ok_cleanup by blast
    moreover have "ni_myNodeInfo (cleanup (nw_now w) (nw_node w)) = ni_myNodeInfo (nw_node w)"
      by (simp add: cleanup_def)
    ultimately show ?thesis using ok unfolding ni_clean(1) ni_inv_def by simp
  next
    case (ni_request key m outs)
    then show ?thesis
      using ok callbacks_ok_add [of "nw_now w" "nw_due w" "nw_next w" "called (nw_log w)" "ni_callbacks (nw_node w)" key]
        callbacks_inj_add [of "nw_now w" "nw_due w" "nw_next w" "called (nw_log w)" "ni_callbacks (nw_node w)" key "nw_now w"]
      unfolding ni_inv_def by (auto simp: sendReq_def addCallback_def)
  next
    case (ni_response key bs k info m outs)
    show ?thesis
    proof (cases "ni_callbacks (nw_node w) k")
      case None
      then show ?thesis using ni_response ok by (simp add: ni_callback_def ni_inv_def)
    next
      case (Some c)
      have c: "nc_call c < nw_next w" "nc_call c \<notin> set (called (nw_log w))"
        using ok Some unfolding callbacks_ok_def by blast+
      have "callbacks_inj ((ni_callbacks (nw_node w))(k := None))"
        using ok by (elim conjE callbacks_inj_sub) (simp split: if_splits)
      then show ?thesis
        using ni_response ok Some c callbacks_ok_call [of "nw_now w" "nw_due w" "nw_next w" "called (nw_log w)" "ni_callbacks (nw_node w)" k c]
        by (auto simp: ni_callback_def ni_inv_def)
    qed
  next
    case (ni_asked key bs k)
    then show ?thesis using ok by (simp add: ni_inv_def sendRes_def)
  next
    case (ni_set marshal build given privacy err m)
    then have "ni_callbacks m = ni_callbacks (nw_node w)" "length (ni_myNodeInfo m) \<le> 16384"
      using ok by (auto simp: setNodeInfo_def Let_def split: option.splits if_splits)
    then show ?thesis using ok ni_set by (simp add: ni_inv_def)
  qed
qed

interpretation nodeinfo_runs: invariant_system ni_start ni_step ni_inv
  by unfold_locales (use ni_inv_start ni_inv_step in auto)

section \<open>Properties\<close>

text \<open>C26: node info callbacks are called at most once and do not pile up.  In every run, with any number of
  requests and answers from anybody, no callback is called twice; and one that waits is never
  more than 90 seconds old, because the clean-up that runs every 30 seconds drops those over 60.\<close>

theorem node_info_callbacks:
  assumes "reach ni_start ni_step w"
  shows "distinct (called (nw_log w)) \<and>
     (\<forall>key. case ni_callbacks (nw_node w) key of None \<Rightarrow> True
        | Some c \<Rightarrow> nw_now w \<le> nc_created c + 90 \<and> nc_call c \<notin> set (called (nw_log w)))"
proof -
  have inv: "ni_inv w" by (rule nodeinfo_runs.reach_inv [OF assms])
  then have "ni_callbacks (nw_node w) key = Some c \<Longrightarrow> nw_now w \<le> nc_created c + 90 \<and> nc_call c \<notin> set (called (nw_log w))"
    for key c unfolding ni_inv_def callbacks_ok_def by (meson order.trans)
  with inv show ?thesis by (simp add: ni_inv_def split: option.splits)
qed

definition ni_test :: ni_world where
  "ni_test = \<lparr>nw_now = 5, nw_due = 35, nw_node = ni_init 5, nw_log = [], nw_next = 0\<rparr>"

lemma ni_test_reach: "reach ni_start ni_step ni_test"
  by (rule reach_init) (simp add: ni_start_def ni_test_def)

theorem node_info_callbacks_witness:
  "\<exists>w c. reach ni_start ni_step w \<and> nw_now w = 30 \<and> ni_callbacks (nw_node w) [7] = Some c
     \<and> nw_now w \<le> nc_created c + 90"
proof -
  obtain m outs where m: "sendReq (nw_now ni_test) [7] (Some (nw_next ni_test)) (nw_node ni_test) = (m, outs)"
    by fastforce
  define w where "w = ni_test\<lparr>nw_node := m, nw_log := nw_log ni_test @ outs, nw_next := nw_next ni_test + 1\<rparr>"
  have w: "reach ni_start ni_step w" unfolding w_def by (rule reach_step [OF ni_test_reach ni_request [OF m]])
  have "nw_now w + 25 \<le> nw_due w" by (simp add: w_def ni_test_def)
  from reach_step [OF w ni_tick [OF this]] have r: "reach ni_start ni_step (w\<lparr>nw_now := nw_now w + 25\<rparr>)" .
  have "m = addCallback 5 [7] 0 (ni_init 5)" using m by (simp add: sendReq_def ni_test_def)
  then have c: "ni_callbacks (nw_node (w\<lparr>nw_now := nw_now w + 25\<rparr>)) [7] = Some \<lparr>nc_call = 0, nc_created = 5\<rparr>"
    by (simp add: w_def addCallback_def)
  have n: "nw_now (w\<lparr>nw_now := nw_now w + 25\<rparr>) = 30" by (simp add: w_def ni_test_def)
  have "nw_now (w\<lparr>nw_now := nw_now w + 25\<rparr>) \<le> nc_created \<lparr>nc_call = 0, nc_created = 5\<rparr> + 90"
    using node_info_callbacks [OF r] c by (metis (no_types, lifting) option.simps(5))
  with r c n show ?thesis by blast
qed

text \<open>what a node tells about itself is bounded and never half-changed: whatever maps it was asked to
  publish, however the marshaller treats them, a rejected one leaves the old description in
  place, and every packet the node sends in answer has at most 16386 bytes.\<close>

theorem node_info_bounded:
  assumes "reach ni_start ni_step w"
  shows "list_all sent_length_ok (nw_log w)
     \<and> (case setNodeInfo marshal build given privacy (nw_node w) of
          (Some err, m) \<Rightarrow> m = nw_node w
        | (None, m) \<Rightarrow> marshal (if privacy then given else add_build given build) = Some (ni_myNodeInfo m)
            \<and> length (ni_myNodeInfo m) \<le> 16384 \<and> ni_callbacks m = ni_callbacks (nw_node w))"
  using nodeinfo_runs.reach_inv [OF assms]
  by (simp add: ni_inv_def setNodeInfo_def Let_def split: option.splits)

theorem node_info_bounded_witness:
  "list_all sent_length_ok (nw_log ni_test)
   \<and> setNodeInfo (\<lambda>m. Some (replicate 16385 0)) (\<lambda>k. []) Map.empty True (nw_node ni_test) = (Some ExceedsMaxLength, nw_node ni_test)"
proof -
  have "fst (setNodeInfo (\<lambda>m. Some (replicate 16385 0)) (\<lambda>k. []) Map.empty True (nw_node ni_test)) = Some ExceedsMaxLength"
    by (simp add: setNodeInfo_def)
  with node_info_bounded [OF ni_test_reach, where marshal = "\<lambda>m. Some (replicate 16385 0)" and build = "\<lambda>k. []"
      and given = Map.empty and privacy = True]
  show ?thesis by (auto split: prod.splits option.splits)
qed

end
