(* ===== verification/Net.thy ===== *)
theory Net
  imports Prelude
begin

text \<open>
  What the code uses of Go's packages \<open>net\<close> and \<open>strings\<close>: the host and port of a network address, and
  searching, splitting and trimming of strings.
\<close>

section \<open>strings\<close>

definition HasPrefix :: "string \<Rightarrow> string \<Rightarrow> bool" where
  "HasPrefix s p \<longleftrightarrow> take (length p) s = p"

definition TrimPrefix :: "string \<Rightarrow> string \<Rightarrow> string" where
  "TrimPrefix s p = (if HasPrefix s p then drop (length p) s else s)"

fun Contains :: "string \<Rightarrow> string \<Rightarrow> bool" where
  "Contains [] p \<longleftrightarrow> p = []"
| "Contains (c # s) p \<longleftrightarrow> HasPrefix (c # s) p \<or> Contains s p"

text \<open>\<open>strings.Split(s, sep)\<close> for a separator of one character.\<close>

fun Split :: "char \<Rightarrow> string \<Rightarrow> string list" where
  "Split sep [] = [[]]"
| "Split sep (c # s) =
     (if c = sep then [] # Split sep s
      else (case Split sep s of x # xs \<Rightarrow> (c # x) # xs | [] \<Rightarrow> [[c]]))"

lemma Split_nonempty [simp]: "Split sep s \<noteq> []"
  by (cases s) (auto split: list.splits)

lemma Split_hd: "hd (Split sep s) = takeWhile (\<lambda>c. c \<noteq> sep) s"
proof (induction s)
  case (Cons c s)
  then show ?case by (cases "Split sep s") (auto dest: Split_nonempty [THEN notE])
qed simp

lemma Split_single: "sep \<notin> set s \<Longrightarrow> Split sep s = [s]"
  by (induction s) auto

lemma Split_append: "sep \<notin> set x \<Longrightarrow> Split sep (x @ sep # s) = x # Split sep s"
  by (induction x) (auto split: list.splits)

lemma HasPrefix_append [simp]: "HasPrefix (p @ s) p"
  by (simp add: HasPrefix_def)

lemma HasPrefix_iff: "HasPrefix s p \<longleftrightarrow> (\<exists>t. s = p @ t)"
  by (metis HasPrefix_append HasPrefix_def append_take_drop_id)

section \<open>Host and port\<close>

text \<open>The index of the last colon.\<close>

fun last_colon :: "string \<Rightarrow> nat option" where
  "last_colon [] = None"
| "last_colon (c # s) =
     (case last_colon s of Some i \<Rightarrow> Some (Suc i)
      | None \<Rightarrow> if c = CHR '':'' then Some 0 else None)"

definition index_of :: "char \<Rightarrow> string \<Rightarrow> nat option" where
  "index_of c s = (if c \<in> set s then Some (length (takeWhile (\<lambda>x. x \<noteq> c) s)) else None)"

definition SplitHostPort :: "string \<Rightarrow> (string \<times> string) option" where
  "SplitHostPort hostport =
     (case last_colon hostport of None \<Rightarrow> None
      | Some i \<Rightarrow>
          let r = (if hostport ! 0 = CHR ''[''
                   then (case index_of (CHR '']'') hostport of None \<Rightarrow> None
                         | Some e \<Rightarrow> if e + 1 = i then Some (drop 1 (take e hostport), 1, e + 1) else None)
                   else if CHR '':'' \<in> set (take i hostport) then None
                   else Some (take i hostport, 0, 0))
          in (case r of None \<Rightarrow> None
             | Some (host, j, k) \<Rightarrow>
                 if CHR ''['' \<in> set (drop j hostport) \<or> CHR '']'' \<in> set (drop k hostport) then None
                 else Some (host, drop (i + 1) hostport)))"

definition JoinHostPort :: "string \<Rightarrow> string \<Rightarrow> string" where
  "JoinHostPort host port =
     (if CHR '':'' \<in> set host then ''['' @ host @ '']:'' @ port else host @ '':'' @ port)"

lemma last_colon_append:
  "last_colon (s @ t) =
     (case last_colon t of Some i \<Rightarrow> Some (length s + i) | None \<Rightarrow> last_colon s)"
  by (induction s) (auto split: option.splits)

lemma last_colon_none: "last_colon s = None \<longleftrightarrow> CHR '':'' \<notin> set s"
  by (induction s) (auto split: option.splits)

lemma index_of_append: "c \<notin> set xs \<Longrightarrow> index_of c (xs @ c # ys) = Some (length xs)"
  by (auto simp: index_of_def takeWhile_append)

lemma split_join_host_port:
  assumes "set host \<inter> {CHR ''['', CHR '']''} = {}" and "set port \<inter> {CHR ''['', CHR '']'', CHR '':''} = {}"
  shows "SplitHostPort (JoinHostPort host port) = Some (host, port)"
proof -
  have port: "last_colon port = None" using assms(2) by (simp add: last_colon_none)
  show ?thesis
  proof (cases "CHR '':'' \<in> set host")
    case True
    let ?h = "''['' @ host @ '']:'' @ port"
    have "last_colon ?h = Some (length host + 2)"
      using port by (simp add: last_colon_append)
    moreover have "index_of (CHR '']'') ?h = Some (length host + 1)"
      using assms(1) index_of_append [of "CHR '']''" "''['' @ host"] by simp
    ultimately show ?thesis using True assms
      by (auto simp: SplitHostPort_def JoinHostPort_def Let_def)
  next
    case False
    then have "last_colon (host @ '':'' @ port) = Some (length host)"
      using port by (simp add: last_colon_append)
    moreover have "(host @ '':'' @ port) ! 0 \<noteq> CHR ''[''"
      using assms(1) by (cases host) auto
    ultimately show ?thesis using False assms
      by (auto simp: SplitHostPort_def JoinHostPort_def Let_def)
  qed
qed

end
