(* ===== verification/Links.thy ===== *)
theory Links
  imports Version_Meta Address_Key Systems Net
begin

text \<open>
  src/core/link.go with the link table of link_linux.go and link_other.go: how a peer URL becomes a
  dial, the handshake that decides whether a connection becomes a link, and the retries after a
  link has ended.  A parsed URL is a record of its parts; what the network library says about
  host names and addresses is an argument.
\<close>

section \<open>Data\<close>

record url =
  url_Scheme :: string
  url_Host :: string
  url_Path :: string
  url_Query :: "string \<Rightarrow> string list"
  url_String :: string

text \<open>\<open>url.Values.Get\<close>: the first value, or the empty string.\<close>

definition query_Get :: "url \<Rightarrow> string \<Rightarrow> string" where
  "query_Get u k = (case url_Query u k of [] \<Rightarrow> '''' | v # _ \<Rightarrow> v)"

record linkInfo =
  linkType :: string
  li_local :: string
  li_remote :: string

definition linkInfoFor :: "string \<Rightarrow> string \<Rightarrow> string \<Rightarrow> linkInfo" where
  "linkInfoFor lt sintf rem = \<lparr>linkType = lt, li_local = sintf, li_remote = rem\<rparr>"

record linkOptions =
  pinnedEd25519Keys :: "bytes set"
  lo_priority :: nat

text \<open>The link table: the entry is \<open>None\<close> (a nil pointer in the code) while the connection is in
  progress, then the link.\<close>

type_synonym 'l link_table = "linkInfo \<rightharpoonup> 'l option"

definition isConnectedTo :: "'l link_table \<Rightarrow> linkInfo \<Rightarrow> bool" where
  "isConnectedTo links info \<longleftrightarrow> links info \<noteq> None"

definition linkOptionsForListener :: "url \<Rightarrow> linkOptions" where
  "linkOptionsForListener u =
     (let l = \<lparr>pinnedEd25519Keys = {}, lo_priority = 0\<rparr>; p = query_Get u ''priority''
      in if p \<noteq> [] then (case ParseUint8 p of Some pi \<Rightarrow> l\<lparr>lo_priority := pi\<rparr> | None \<Rightarrow> l) else l)"

section \<open>Calling a peer\<close>

datatype call_error = InvalidPinnedKey | InvalidPriority | UnknownScheme string

datatype dial = DialTCP string | DialSOCKS | DialTLS string string | DialUNIX string | DialSCTP string
  | DialMPATH string

datatype call_result = AlreadyConnected | CallFailed call_error | Dialing dial linkOptions

fun pinned_keys :: "string list \<Rightarrow> bytes set option" where
  "pinned_keys [] = Some {}"
| "pinned_keys (pubkey # rest) =
     (case hex_decode pubkey of None \<Rightarrow> None
      | Some sigPub \<Rightarrow> map_option (insert (go_copy (replicate 32 0) sigPub)) (pinned_keys rest))"

text \<open>The options of an outgoing call: unlike a listener's, a malformed one is an error.\<close>

definition call_options :: "url \<Rightarrow> call_error + linkOptions" where
  "call_options u =
     (case pinned_keys (url_Query u ''key'') of None \<Rightarrow> Inl InvalidPinnedKey
      | Some keys \<Rightarrow>
          let options = \<lparr>pinnedEd25519Keys = keys, lo_priority = 0\<rparr>; p = query_Get u ''priority''
          in if p \<noteq> []
             then (case ParseUint8 p of None \<Rightarrow> Inl InvalidPriority
                   | Some pi \<Rightarrow> Inr (options\<lparr>lo_priority := pi\<rparr>))
             else Inr options)"

text \<open>The name for the SNI header: the \<open>sni\<close> option unless it is an IP literal, or else the host.\<close>

definition tlsSNI :: "(string \<Rightarrow> bool) \<Rightarrow> url \<Rightarrow> string" where
  "tlsSNI isIP u =
     (let sni = query_Get u ''sni'';
          name = (if sni \<noteq> [] \<and> \<not> isIP sni then sni else '''')
      in if name = []
         then (case SplitHostPort (url_Host u) of
                 Some (host, port) \<Rightarrow> if \<not> isIP host then host else name
               | None \<Rightarrow> name)
         else name)"

text \<open>\<open>links.call\<close>; \<open>sctp\<close> says whether this is the Linux build (link_linux.go), which has that scheme;
  the function of the other builds (link_other.go) is the same without it.\<close>

definition call ::
  "bool \<Rightarrow> (string \<Rightarrow> bool) \<Rightarrow> 'l link_table \<Rightarrow> url \<Rightarrow> string \<Rightarrow> linkInfo \<times> call_result" where
  "call sctp isIP links u sintf =
     (let info = linkInfoFor (url_Scheme u) sintf (url_Host u)
      in (info,
          if isConnectedTo links info then AlreadyConnected
          else case call_options u of Inl e \<Rightarrow> CallFailed e
          | Inr options \<Rightarrow>
              if linkType info = ''tcp'' then Dialing (DialTCP sintf) options
              else if linkType info = ''socks'' then Dialing DialSOCKS options
              else if linkType info = ''tls'' then Dialing (DialTLS sintf (tlsSNI isIP u)) options
              else if linkType info = ''unix'' then Dialing (DialUNIX sintf) options
              else if sctp \<and> linkType info = ''sctp'' then Dialing (DialSCTP sintf) options
              else if linkType info = ''mpath'' then Dialing (DialMPATH sintf) options
              else CallFailed (UnknownScheme (url_Scheme u))))"

definition call_other :: "(string \<Rightarrow> bool) \<Rightarrow> 'l link_table \<Rightarrow> url \<Rightarrow> string \<Rightarrow> linkInfo \<times> call_result" where
  "call_other = call False"

text \<open>What a call does to the error channel it was given, once its dial (if there is one) has ended
  with an error or without; \<open>io.EOF\<close> counts as no error.\<close>

datatype 'e chan_event = ChanSend 'e | ChanClose

definition errch_events :: "call_result \<Rightarrow> 'e option \<Rightarrow> 'e chan_event list" where
  "errch_events r dial_err =
     (case r of AlreadyConnected \<Rightarrow> [ChanClose] | CallFailed _ \<Rightarrow> [ChanClose]
      | Dialing _ _ \<Rightarrow> (case dial_err of None \<Rightarrow> [] | Some e \<Rightarrow> [ChanSend e]) @ [ChanClose])"

text \<open>Receiving from the channel: the value sent first, or nil from a closed channel, or blocked.\<close>

fun receive :: "'e chan_event list \<Rightarrow> 'e option option" where
  "receive [] = None"
| "receive (ChanSend e # _) = Some (Some e)"
| "receive (ChanClose # _) = Some None"

text \<open>The retries of a link that was dialled: what the \<open>attempt\<close>-th call and dial come to is given by
  \<open>env\<close>; the result lists the attempts made.\<close>

function retry :: "(nat \<Rightarrow> call_result \<times> 'e option) \<Rightarrow> nat \<Rightarrow> nat list" where
  "retry env attempt =
     attempt #
     (case env attempt of (r, dial_err) \<Rightarrow>
        (case r of CallFailed _ \<Rightarrow> []
         | _ \<Rightarrow>
            (case receive (errch_events r dial_err) of
               Some (Some e) \<Rightarrow> if attempt < 3 then retry env (attempt + 1) else []
             | _ \<Rightarrow> [])))"
  by auto
termination by (relation "measure (\<lambda>(env, attempt). 3 - attempt)") auto

declare retry.simps [simp del]

section \<open>Listening\<close>

datatype listen_result = ListenOn string | UnrecognisedScheme string

definition links_listen :: "bool \<Rightarrow> url \<Rightarrow> listen_result" where
  "links_listen sctp u =
     (if url_Scheme u \<in> {''tcp'', ''tls'', ''unix'', ''mpath''} \<or> sctp \<and> url_Scheme u = ''sctp''
      then ListenOn (url_Scheme u) else UnrecognisedScheme (url_Scheme u))"

text \<open>\<open>Core.Listen\<close> knows fewer schemes than the listeners of the configuration.\<close>

definition Core_Listen :: "url \<Rightarrow> listen_result" where
  "Core_Listen u =
     (if url_Scheme u \<in> {''tcp'', ''tls'', ''unix''} then ListenOn (url_Scheme u)
      else UnrecognisedScheme (url_Scheme u))"

text \<open>\<open>links.shutdown\<close> closes the listeners of these link types.\<close>

definition shutdown_closes :: "string list" where
  "shutdown_closes = [''tcp'', ''tls'', ''unix'']"

section \<open>The handshake\<close>

text \<open>The link's side of a connection: its options, its direction, whether the key check is forced open,
  and what the connection does: deadlines set, the write's count or error, the bytes of the
  other end (\<open>io.ReadFull\<close> into a buffer of the length of the metadata), the deadline cleared.\<close>

record link =
  lk_options :: linkOptions
  lk_incoming :: bool
  lk_force :: bool

record conn_io =
  io_deadline :: bool
  io_write :: "nat option"
  io_read :: "bytes option"
  io_clear :: bool

datatype handshake_end =
  DeadlineError | WriteError | IncompleteSend | ReadError | ClearError | DecodeError
  | IncompatibleVersion | NotPinned | NotAllowed bytes | Connected bytes nat

definition handshake :: "bytes \<Rightarrow> bytes set \<Rightarrow> link \<Rightarrow> conn_io \<Rightarrow> handshake_end outcome" where
  "handshake public allowedPublicKeys intf io =
     (let meta = version_getBaseMetadata\<lparr>vm_key := public\<rparr>
      in bind_outcome (encode meta) (\<lambda>metaBytes. Ret (
           if \<not> io_deadline io then DeadlineError
           else case io_write io of None \<Rightarrow> WriteError
           | Some n \<Rightarrow>
               if n \<noteq> length metaBytes then IncompleteSend
               else (case io_read io of None \<Rightarrow> ReadError
               | Some metaBytes \<Rightarrow>
                   if \<not> io_clear io then ClearError
                   else case decode version_zero metaBytes of (ok, meta) \<Rightarrow>
                     if \<not> ok then DecodeError
                     else if \<not> check meta then IncompatibleVersion
                     else let pinned = pinnedEd25519Keys (lk_options intf);
                              key = go_copy (replicate 32 0) (vm_key meta)
                          in if pinned \<noteq> {} \<and> key \<notin> pinned then NotPinned
                             else let isallowed = (allowedPublicKeys = {} \<or> vm_key meta \<in> allowedPublicKeys)
                                  in if lk_incoming intf \<and> \<not> lk_force intf \<and> \<not> isallowed
                                     then NotAllowed (vm_key meta)
                                     else Connected (vm_key meta) (lo_priority (lk_options intf))))))"

text \<open>The counters of \<open>linkConn\<close>: 64-bit sums of the bytes read and written.\<close>

record linkConn =
  lc_rx :: "64 word"
  lc_tx :: "64 word"

definition linkConn_Read :: "nat \<Rightarrow> linkConn \<Rightarrow> linkConn" where
  "linkConn_Read n c = c\<lparr>lc_rx := lc_rx c + word_of_nat n\<rparr>"

definition linkConn_Write :: "nat \<Rightarrow> linkConn \<Rightarrow> linkConn" where
  "linkConn_Write n c = c\<lparr>lc_tx := lc_tx c + word_of_nat n\<rparr>"

section \<open>The handshake decides\<close>

definition hello :: "bytes \<Rightarrow> bytes" where
  "hello key = [109, 101, 116, 97, 0, 4] @ key"

lemma encode_hello:
  "encode (version_getBaseMetadata\<lparr>vm_key := key\<rparr>) = (if length key = 32 then Ret (hello key) else Panic)"
proof -
  have base: "map of_char ''meta'' = [109, 101, 116, 97 :: byte]" by code_simp
  show ?thesis
    by (simp add: encode_def version_getBaseMetadata_def version_getMetaLength_def base hello_def)
qed

lemma length_hello [simp]: "length (hello key) = 6 + length key"
  by (simp add: hello_def)

lemma decode_ok: "fst (decode version_zero bs) \<longleftrightarrow> length bs = 38"
  by (simp add: decode_def version_getMetaLength_def Let_def)

lemma decode_key: "length bs = 38 \<Longrightarrow> vm_key (snd (decode version_zero bs)) = drop 6 bs"
  by (simp add: decode_overwrites version_zero_def)

lemma hello_eqI: "bs = hello (drop 6 bs)" if "length bs = 38" and "take 6 bs = [109, 101, 116, 97, 0, 4]"
  using append_take_drop_id [of 6 bs] that(2) by (simp add: hello_def)

lemma decode_check:
  assumes "length bs = 38"
  shows "check (snd (decode version_zero bs)) \<longleftrightarrow> bs = hello (drop 6 bs)"
proof -
  have zero: "length (vm_meta version_zero) = 4" by (simp add: version_zero_def)
  have base: "map of_char ''meta'' = [109, 101, 116, 97 :: byte]" by code_simp
  have bs: "take 4 bs @ bs ! 4 # bs ! 5 # drop 6 bs = bs" by (rule list38 [OF assms])
  have c: "check (snd (decode version_zero bs)) \<longleftrightarrow>
      take 4 bs = [109, 101, 116, 97] \<and> bs ! 4 = 0 \<and> bs ! 5 = 4"
    using assms by (auto simp: decode_overwrites zero check_def version_getBaseMetadata_def base)
  show ?thesis
  proof
    assume "check (snd (decode version_zero bs))"
    with c bs show "bs = hello (drop 6 bs)" by (simp add: hello_def)
  next
    assume "bs = hello (drop 6 bs)"
    then have "take 4 bs = take 4 (hello (drop 6 bs))" "bs ! 4 = hello (drop 6 bs) ! 4"
      "bs ! 5 = hello (drop 6 bs) ! 5" by simp_all
    then show "check (snd (decode version_zero bs))"
      unfolding c by (simp add: hello_def)
  qed
qed

definition key_accepted :: "bytes set \<Rightarrow> link \<Rightarrow> bytes \<Rightarrow> bool" where
  "key_accepted allowedPublicKeys intf key \<longleftrightarrow>
     (pinnedEd25519Keys (lk_options intf) = {} \<or> key \<in> pinnedEd25519Keys (lk_options intf)) \<and>
     (lk_incoming intf \<and> \<not> lk_force intf \<longrightarrow> allowedPublicKeys = {} \<or> key \<in> allowedPublicKeys)"

lemma handshake_connected:
  assumes "length public = 32"
  shows "handshake public allowedPublicKeys intf io = Ret (Connected key prio) \<longleftrightarrow>
    io_deadline io \<and> io_write io = Some 38 \<and> io_clear io \<and> io_read io = Some (hello key) \<and>
    length key = 32 \<and> key_accepted allowedPublicKeys intf key \<and> prio = lo_priority (lk_options intf)"
    (is "?l \<longleftrightarrow> ?r")
proof (cases "io_deadline io \<and> io_write io = Some 38 \<and> io_clear io \<and> (\<exists>bs. io_read io = Some bs)")
  case True
  then obtain bs where bs: "io_read io = Some bs" by blast
  obtain ok m where d: "decode version_zero bs = (ok, m)" by (cases "decode version_zero bs")
  show ?thesis
  proof (cases "length bs = 38")
    case len: True
    have ok: ok and key: "vm_key m = drop 6 bs" and ch: "check m \<longleftrightarrow> bs = hello (drop 6 bs)"
      using decode_ok [of bs] decode_key [OF len] decode_check [OF len] len d by simp_all
    have "bs = hello key \<and> length key = 32 \<longleftrightarrow> bs = hello (drop 6 bs) \<and> key = drop 6 bs"
      using len by (auto simp: hello_def)
    then show ?thesis
      using True bs ok key ch d assms len
      by (auto simp: handshake_def encode_hello key_accepted_def Let_def split: if_splits)
  next
    case False
    then have "\<not> ok" using decode_ok [of bs] d by simp
    then show ?thesis using True bs d assms False
      by (auto simp: handshake_def encode_hello Let_def)
  qed
next
  case False
  then show ?thesis using assms
    by (auto simp: handshake_def encode_hello Let_def split: option.splits if_splits)
qed

text \<open>C5: who gets a link: the handshake ends with a link exactly when every call on the connection
  succeeds, the other end's 38 bytes are the magic, version 0.4 and a key, and that key is among the
  pinned keys (if there are any) and, for an incoming link that is not forced, among the allowed keys
  (if there are any).  The link then carries that key and the priority of its options.\<close>

theorem handshake_connects_iff:
  assumes "length public = 32"
  shows "handshake public allowedPublicKeys intf io = Ret (Connected key prio) \<longleftrightarrow>
    io_deadline io \<and> io_write io = Some 38 \<and> io_clear io \<and> io_read io = Some (hello key) \<and>
    length key = 32 \<and> key_accepted allowedPublicKeys intf key \<and> prio = lo_priority (lk_options intf)"
  using assms by (rule handshake_connected)

theorem handshake_connects_iff_witness:
  "handshake (replicate 32 1) {replicate 32 2}
     \<lparr>lk_options = \<lparr>pinnedEd25519Keys = {}, lo_priority = 5\<rparr>, lk_incoming = True, lk_force = False\<rparr>
     \<lparr>io_deadline = True, io_write = Some 38, io_read = Some (hello (replicate 32 2)), io_clear = True\<rparr>
   = Ret (Connected (replicate 32 2) 5)"
  by (subst handshake_connects_iff) (simp_all add: key_accepted_def)

section \<open>Retries\<close>

lemma errch_received:
  "receive (errch_events r dial_err) =
     Some (case r of Dialing _ _ \<Rightarrow> dial_err | _ \<Rightarrow> None)"
  by (auto simp: errch_events_def split: call_result.splits option.splits)

definition attempt_failed :: "call_result \<times> 'e option \<Rightarrow> bool" where
  "attempt_failed a \<longleftrightarrow> (\<exists>d opts e. a = (Dialing d opts, Some e))"

lemma retry_step:
  "retry env attempt = attempt # (if attempt_failed (env attempt) \<and> attempt < 3 then retry env (attempt + 1) else [])"
  by (subst retry.simps)
    (auto simp: errch_received attempt_failed_def split: prod.splits call_result.splits option.splits)

text \<open>C28: a call settles the error channel it was given exactly once: it sends at most one value, which
  the channel's buffer holds, and then closes it, so that a reader never blocks; so the retries of a
  lost link end after three attempts at most, and go on to the next exactly when an attempt failed
  in dialling.\<close>

theorem retries_end:
  "retry env 1 = (if attempt_failed (env 1) then (if attempt_failed (env 2) then [1, 2, 3] else [1, 2]) else [1])
    \<and> length (retry env 1) \<le> 3
    \<and> receive (errch_events r dial_err) \<noteq> None
    \<and> (\<exists>sent. errch_events r dial_err = map ChanSend sent @ [ChanClose] \<and> length sent \<le> 1)"
proof -
  have r2: "retry env 2 = 2 # (if attempt_failed (env 2) then [3] else [])"
    by (simp add: retry_step [of env 2] retry_step [of env 3])
  have "retry env 1 = 1 # (if attempt_failed (env 1)
      then 2 # (if attempt_failed (env 2) then [3] else []) else [])"
    using r2 by (subst retry_step) (simp add: numeral_2_eq_2)
  moreover have "\<exists>sent. errch_events r dial_err = map ChanSend sent @ [ChanClose] \<and> length sent \<le> 1"
  proof (cases "\<exists>d opts e. r = Dialing d opts \<and> dial_err = Some e")
    case True
    then obtain e where "errch_events r dial_err = map ChanSend [e] @ [ChanClose]"
      by (auto simp: errch_events_def)
    then show ?thesis by (intro exI [of _ "[e]"]) simp
  next
    case False
    then have "errch_events r dial_err = map ChanSend [] @ [ChanClose]"
      by (auto simp: errch_events_def split: call_result.splits option.splits)
    then show ?thesis by (intro exI [of _ "[]"]) simp
  qed
  ultimately show ?thesis by (simp add: errch_received)
qed

end
