(* ===== verification/Links_Runs.thy ===== *)
theory Links_Runs
  imports Links
begin

text \<open>
  The registry of links.  Every connection has a handler (\<open>link.handler\<close> in src/core/link.go), a
  goroutine of its own, and each access to the registry is a message to the links actor: the test
  whether the link exists, the mark that it is in progress, the entry of the link after the handshake
  and the deferred removal are four separate steps, with any steps of other handlers between them.
  A handler is a number; \<open>lr_handlers\<close> says how far it has come.
\<close>

section \<open>Steps of a handler\<close>

datatype handler_at = Started | Checked | Marked | Linked | Ended

record link_registry =
  lr_links :: "nat link_table"
  lr_handlers :: "nat \<rightharpoonup> linkInfo \<times> handler_at"

definition lr_init :: link_registry where
  "lr_init = \<lparr>lr_links = Map.empty, lr_handlers = Map.empty\<rparr>"

text \<open>\<open>links.create\<close> starts the handler; \<open>isConnectedTo\<close> ends it or lets it go on.\<close>

definition handler_create :: "nat \<Rightarrow> linkInfo \<Rightarrow> link_registry \<Rightarrow> link_registry" where
  "handler_create h info s = s\<lparr>lr_handlers := (lr_handlers s)(h \<mapsto> (info, Started))\<rparr>"

definition handler_check :: "nat \<Rightarrow> linkInfo \<Rightarrow> link_registry \<Rightarrow> link_registry" where
  "handler_check h info s =
     s\<lparr>lr_handlers := (lr_handlers s)(h \<mapsto>
        (info, if isConnectedTo (lr_links s) info then Ended else Checked))\<rparr>"

definition handler_mark :: "nat \<Rightarrow> linkInfo \<Rightarrow> link_registry \<Rightarrow> link_registry" where
  "handler_mark h info s =
     s\<lparr>lr_links := (lr_links s)(info \<mapsto> None), lr_handlers := (lr_handlers s)(h \<mapsto> (info, Marked))\<rparr>"

definition handler_link :: "nat \<Rightarrow> linkInfo \<Rightarrow> link_registry \<Rightarrow> link_registry" where
  "handler_link h info s =
     s\<lparr>lr_links := (lr_links s)(info \<mapsto> Some h), lr_handlers := (lr_handlers s)(h \<mapsto> (info, Linked))\<rparr>"

definition handler_cleanup :: "nat \<Rightarrow> linkInfo \<Rightarrow> link_registry \<Rightarrow> link_registry" where
  "handler_cleanup h info s =
     s\<lparr>lr_links := (lr_links s)(info := None), lr_handlers := (lr_handlers s)(h \<mapsto> (info, Ended))\<rparr>"

lemmas handler_defs = handler_create_def handler_check_def handler_mark_def handler_link_def handler_cleanup_def

text \<open>A failed handshake goes from \<open>Marked\<close> to the cleanup, a link that has ended from \<open>Linked\<close>.\<close>

inductive lr_step :: "link_registry \<Rightarrow> link_registry \<Rightarrow> bool" where
  lr_create: "lr_handlers s h = None \<Longrightarrow> lr_step s (handler_create h info s)"
| lr_check: "lr_handlers s h = Some (info, Started) \<Longrightarrow> lr_step s (handler_check h info s)"
| lr_mark: "lr_handlers s h = Some (info, Checked) \<Longrightarrow> lr_step s (handler_mark h info s)"
| lr_link: "lr_handlers s h = Some (info, Marked) \<Longrightarrow> lr_step s (handler_link h info s)"
| lr_cleanup: "lr_handlers s h = Some (info, at) \<Longrightarrow> at \<in> {Marked, Linked} \<Longrightarrow>
    lr_step s (handler_cleanup h info s)"

section \<open>No entry outlives its handlers\<close>

definition live :: "link_registry \<Rightarrow> linkInfo \<Rightarrow> nat \<Rightarrow> bool" where
  "live s info h \<longleftrightarrow> lr_handlers s h = Some (info, Marked) \<or> lr_handlers s h = Some (info, Linked)"

definition entries_live :: "link_registry \<Rightarrow> bool" where
  "entries_live s \<longleftrightarrow> (\<forall>info. isConnectedTo (lr_links s) info \<longrightarrow> (\<exists>h. live s info h))
     \<and> (\<forall>info h. lr_links s info = Some (Some h) \<longrightarrow> lr_handlers s h = Some (info, Linked))"

interpretation registry: invariant_system "\<lambda>s. s = lr_init" lr_step entries_live
proof unfold_locales
  fix s assume "s = lr_init"
  then show "entries_live s" by (simp add: entries_live_def lr_init_def isConnectedTo_def)
next
  fix s t assume inv: "entries_live s" and "lr_step s t"
  from this(2) show "entries_live t"
  proof cases
    case (lr_create h info)
    then show ?thesis using inv unfolding entries_live_def live_def isConnectedTo_def handler_defs
      by simp (metis option.distinct(1))
  next
    case (lr_check h info)
    then show ?thesis using inv unfolding entries_live_def live_def isConnectedTo_def handler_defs
      by simp (metis (no_types, lifting) handler_at.distinct(3,5,11) option.inject prod.inject)
  next
    case (lr_mark h info)
    then show ?thesis using inv unfolding entries_live_def live_def isConnectedTo_def handler_defs
      by (auto split: if_splits) (metis handler_at.distinct(9,11) option.inject prod.inject)+
  next
    case (lr_link h info)
    then show ?thesis using inv unfolding entries_live_def live_def isConnectedTo_def handler_defs
      by (auto split: if_splits) (metis handler_at.distinct option.inject prod.inject)+
  next
    case (lr_cleanup h info at)
    then show ?thesis using inv unfolding entries_live_def live_def isConnectedTo_def handler_defs
      by (auto split: if_splits) (metis option.inject prod.inject)+
  qed
qed

section \<open>Properties\<close>

text \<open>C10: the registry does not leak: in every run, with any interleaving of the handlers, an entry
  belongs to a link whose handler has not ended, and an entry that names a link names one with
  that very link information; so when every handler has ended, the registry is empty.\<close>

theorem registry_drains:
  assumes "reach (\<lambda>s. s = lr_init) lr_step s"
  shows "(isConnectedTo (lr_links s) info \<longrightarrow> (\<exists>h. live s info h))
    \<and> (lr_links s info = Some (Some h) \<longrightarrow> lr_handlers s h = Some (info, Linked))
    \<and> ((\<forall>(info, at)\<in>ran (lr_handlers s). at = Ended) \<longrightarrow> lr_links s = Map.empty)"
proof -
  have inv: "entries_live s" using assms by (rule registry.reach_inv)
  have "lr_links s = Map.empty" if e: "\<forall>(info, at)\<in>ran (lr_handlers s). at = Ended"
  proof (rule ext, rule ccontr)
    fix i assume "lr_links s i \<noteq> None"
    then obtain h where "live s i h" using inv unfolding entries_live_def isConnectedTo_def by blast
    then show False using e by (auto simp: live_def dest: ranI)
  qed
  with inv show ?thesis unfolding entries_live_def by blast
qed

definition test_li :: linkInfo where
  "test_li = linkInfoFor ''tcp'' '''' ''host:1''"

definition test_registry :: link_registry where
  "test_registry = handler_mark 0 test_li (handler_check 0 test_li (handler_create 0 test_li lr_init))"

lemma test_registry_reach: "reach (\<lambda>s. s = lr_init) lr_step test_registry"
proof -
  let ?c = "handler_create 0 test_li lr_init"
  have "reach (\<lambda>s. s = lr_init) lr_step ?c"
    by (rule reach_step [OF reach_init], rule refl, rule lr_create) (simp add: lr_init_def)
  then have "reach (\<lambda>s. s = lr_init) lr_step (handler_check 0 test_li ?c)"
    by (rule reach_step) (rule lr_check, simp add: handler_defs)
  then show ?thesis
    unfolding test_registry_def by (rule reach_step) (rule lr_mark, simp add: handler_defs isConnectedTo_def lr_init_def)
qed

theorem registry_drains_witness:
  "isConnectedTo (lr_links test_registry) test_li \<and> (\<exists>h. live test_registry test_li h)"
  using registry_drains [OF test_registry_reach, of test_li]
  by (simp add: test_registry_def isConnectedTo_def handler_defs)

text \<open>C37: with the test and the mark apart, as in the code, two connections of the same address can both
  become links; and when the first ends, it removes the entry of the second, which goes on
  without one, so that a third is let in beside it.\<close>

theorem two_links_race:
  "\<exists>s. reach (\<lambda>s. s = lr_init) lr_step s \<and> lr_handlers s 0 = Some (info, Linked)
     \<and> lr_handlers s 1 = Some (info, Linked)
     \<and> reach (\<lambda>s. s = lr_init) lr_step (handler_cleanup 0 info s)
     \<and> live (handler_cleanup 0 info s) info 1
     \<and> \<not> isConnectedTo (lr_links (handler_cleanup 0 info s)) info"
proof -
  let ?r = "reach (\<lambda>s. s = lr_init) lr_step"
  define a where "a = handler_create 0 info lr_init"
  define b where "b = handler_create 1 info a"
  define c where "c = handler_check 0 info b"
  define d where "d = handler_check 1 info c"
  define e where "e = handler_mark 0 info d"
  define f where "f = handler_mark 1 info e"
  define g where "g = handler_link 0 info f"
  define s4 where "s4 = handler_link 1 info g"
  note defs = a_def b_def c_def d_def e_def f_def g_def s4_def handler_defs isConnectedTo_def lr_init_def
  have "?r lr_init" by (rule reach_init) simp
  then have "?r a" unfolding a_def by (rule reach_step) (intro lr_create, simp add: defs)
  then have "?r b" unfolding b_def by (rule reach_step) (intro lr_create, simp add: defs)
  then have "?r c" unfolding c_def by (rule reach_step) (intro lr_check, simp add: defs)
  then have "?r d" unfolding d_def by (rule reach_step) (intro lr_check, simp add: defs)
  then have "?r e" unfolding e_def by (rule reach_step) (intro lr_mark, simp add: defs)
  then have "?r f" unfolding f_def by (rule reach_step) (intro lr_mark, simp add: defs)
  then have "?r g" unfolding g_def by (rule reach_step) (intro lr_link, simp add: defs)
  then have r4: "?r s4" unfolding s4_def by (rule reach_step) (intro lr_link, simp add: defs)
  then have "?r (handler_cleanup 0 info s4)"
    by (rule reach_step) (intro lr_cleanup [where at = Linked], simp_all add: defs)
  with r4 show ?thesis
    by (intro exI [of _ s4]) (simp add: live_def defs)
qed

end
