(* ===== verification/Core_Config.thy ===== *)
theory Core_Config
  imports Links_Runs Nodeinfo "HOL-Library.AList"
begin

text \<open>
  The core object of src/core: its options (options.go), its construction, its peer loop and its end
  (core.go), and the calls on its peers and its reports (api.go).  Maps of the code are association
  lists; the order of a list is the order of iteration, which Go leaves open, so the theorems hold
  for every order.  \<open>url.Parse\<close>, whether a name is an IP literal and \<open>json.Marshal\<close> of a map are
  parameters, and so is whether the encryption layer could be set up.
\<close>

section \<open>Options\<close>

record Peer =
  pe_URI :: string
  pe_SourceInterface :: string

datatype setup_option = OptPeer Peer | OptListenAddress string | OptNodeInfo "string \<rightharpoonup> json"
  | OptNodeInfoPrivacy bool | OptNetworkDomain network_domain | OptAllowedPublicKey bytes

record core_config =
  cc_peers :: "(Peer \<times> linkInfo option) list"
  cc_listeners :: "string list"
  cc_nodeinfo :: "string \<rightharpoonup> json"
  cc_nodeinfoPrivacy :: bool
  cc_allowedPublicKeys :: "bytes set"
  cc_networkdomain :: network_domain

fun applyOption :: "setup_option \<Rightarrow> core_config \<Rightarrow> core_config" where
  "applyOption (OptPeer v) c = c\<lparr>cc_peers := AList.update v None (cc_peers c)\<rparr>"
| "applyOption (OptListenAddress v) c = c\<lparr>cc_listeners := List.insert v (cc_listeners c)\<rparr>"
| "applyOption (OptNodeInfo v) c = c\<lparr>cc_nodeinfo := v\<rparr>"
| "applyOption (OptNodeInfoPrivacy v) c = c\<lparr>cc_nodeinfoPrivacy := v\<rparr>"
| "applyOption (OptNetworkDomain v) c = c\<lparr>cc_networkdomain := v\<rparr>"
| "applyOption (OptAllowedPublicKey v) c =
     c\<lparr>cc_allowedPublicKeys := insert (go_copy (replicate 32 0) v) (cc_allowedPublicKeys c)\<rparr>"

section \<open>The core object\<close>

text \<open>A timer of the peer loop is a number; \<open>co_timer\<close> is the one the core remembers, \<open>co_armed\<close> are those
  that will fire.  \<open>co_inbox\<close> counts the peer loops that wait in the actor's inbox.\<close>

record core =
  co_secret :: bytes
  co_public :: bytes
  co_config :: core_config
  co_nodeinfo :: nodeinfo
  co_done :: bool
  co_timer :: "nat option"
  co_armed :: "nat set"
  co_inbox :: nat
  co_next :: nat

datatype new_error = KeyLength | EncryptionError | NodeInfoError set_error

datatype listener_start = InvalidListenerURI | Listened listen_result

definition empty_config :: core_config where
  "empty_config = \<lparr>cc_peers = [], cc_listeners = [], cc_nodeinfo = Map.empty, cc_nodeinfoPrivacy = False,
     cc_allowedPublicKeys = {}, cc_networkdomain = \<lparr>Prefix = ''''\<rparr>\<rparr>"

text \<open>\<open>New\<close>: the new core and what came of its listeners.  The public half of an ed25519 private key is its
  last 32 bytes.\<close>

definition New ::
  "((string \<rightharpoonup> json) \<Rightarrow> bytes option) \<Rightarrow> (string \<Rightarrow> string) \<Rightarrow> (string \<Rightarrow> url option) \<Rightarrow> bool \<Rightarrow> bool \<Rightarrow> nat
    \<Rightarrow> bytes \<Rightarrow> setup_option list \<Rightarrow> new_error + (core \<times> listener_start list)" where
  "New marshal build parse sctp encryption now secret opts =
     (if length secret \<noteq> 64 then Inl KeyLength
      else if \<not> encryption then Inl EncryptionError
      else let config = fold applyOption opts empty_config
           in case setNodeInfo marshal build (cc_nodeinfo config) (cc_nodeinfoPrivacy config) (ni_init now) of
                (Some e, _) \<Rightarrow> Inl (NodeInfoError e)
              | (None, ni) \<Rightarrow>
                  Inr (\<lparr>co_secret = go_copy (replicate 64 0) secret, co_public = drop 32 secret,
                        co_config = config, co_nodeinfo = ni, co_done = False, co_timer = None,
                        co_armed = {}, co_inbox = 1, co_next = 0\<rparr>,
                       map (\<lambda>a. case parse a of None \<Rightarrow> InvalidListenerURI
                              | Some u \<Rightarrow> Listened (links_listen sctp u)) (cc_listeners config)))"

definition SetThisNodeInfo ::
  "((string \<rightharpoonup> json) \<Rightarrow> bytes option) \<Rightarrow> (string \<Rightarrow> string) \<Rightarrow> (string \<rightharpoonup> json) \<Rightarrow> core \<Rightarrow> set_error option \<times> core" where
  "SetThisNodeInfo marshal build info c =
     (case setNodeInfo marshal build info (cc_nodeinfoPrivacy (co_config c)) (co_nodeinfo c) of
        (err, ni) \<Rightarrow> (err, c\<lparr>co_nodeinfo := ni\<rparr>))"

definition GetThisNodeInfo :: "core \<Rightarrow> bytes" where
  "GetThisNodeInfo c = ni_myNodeInfo (co_nodeinfo c)"

definition core_Address :: "core \<Rightarrow> bytes outcome" where
  "core_Address c = bind_outcome (AddrForKey (cc_networkdomain (co_config c)) (co_public c))
     (\<lambda>a. case a of None \<Rightarrow> Panic | Some a \<Rightarrow> Ret a)"

text \<open>The subnet and the length of its mask.\<close>

definition core_Subnet :: "core \<Rightarrow> (bytes \<times> nat) outcome" where
  "core_Subnet c = bind_outcome (SubnetForKey (cc_networkdomain (co_config c)) (co_public c))
     (\<lambda>s. case s of None \<Rightarrow> Panic | Some s \<Rightarrow> Ret (s @ [0, 0, 0, 0, 0, 0, 0, 0], 64))"

section \<open>The peer loop\<close>

definition CallPeer :: "bool \<Rightarrow> (string \<Rightarrow> bool) \<Rightarrow> 'l link_table \<Rightarrow> url \<Rightarrow> string \<Rightarrow> call_error option" where
  "CallPeer sctp isIP links u sintf =
     (case snd (call sctp isIP links u sintf) of CallFailed e \<Rightarrow> Some e | _ \<Rightarrow> None)"

text \<open>One run of \<open>_addPeerLoop\<close>: the calls it starts, each in a goroutine of its own.  A URI that does not
  parse is logged and then called all the same, with a nil URL.\<close>

definition addPeerLoop :: "(string \<Rightarrow> url option) \<Rightarrow> core \<Rightarrow> core \<times> (url \<times> string) outcome list" where
  "addPeerLoop parse c =
     (if co_done c then (c, [])
      else (c\<lparr>co_timer := Some (co_next c), co_armed := insert (co_next c) (co_armed c),
              co_next := co_next c + 1\<rparr>,
            map (\<lambda>(peer, _). case parse (pe_URI peer) of None \<Rightarrow> Panic
                   | Some u \<Rightarrow> Ret (u, pe_SourceInterface peer)) (cc_peers (co_config c))))"

text \<open>\<open>RetryPeersNow\<close>; the result is \<open>None\<close> where it blocks for good, on the channel of a timer that
  has none.\<close>

definition RetryPeersNow :: "core \<Rightarrow> core option" where
  "RetryPeersNow c =
     (case co_timer c of None \<Rightarrow> Some (c\<lparr>co_inbox := co_inbox c + 1\<rparr>)
      | Some t \<Rightarrow>
          if t \<in> co_armed c
          then Some (c\<lparr>co_armed := co_armed c - {t}, co_inbox := co_inbox c + 1\<rparr>) else None)"

definition core_close :: "core \<Rightarrow> core" where
  "core_close c =
     (let c = c\<lparr>co_done := True\<rparr>
      in case co_timer c of None \<Rightarrow> c
         | Some t \<Rightarrow> c\<lparr>co_armed := co_armed c - {t}, co_timer := None\<rparr>)"

section \<open>Peers\<close>

datatype add_error = PeerConfigured | BadURL | CallError call_error

definition AddPeer ::
  "bool \<Rightarrow> (string \<Rightarrow> bool) \<Rightarrow> (string \<Rightarrow> url option) \<Rightarrow> 'l link_table \<Rightarrow> string \<Rightarrow> string \<Rightarrow> core
    \<Rightarrow> add_error option \<times> core" where
  "AddPeer sctp isIP parse links uri sourceInterface c =
     (let peer = \<lparr>pe_URI = uri, pe_SourceInterface = sourceInterface\<rparr>; peers = cc_peers (co_config c)
      in if map_of peers peer \<noteq> None then (Some PeerConfigured, c)
         else case parse uri of None \<Rightarrow> (Some BadURL, c)
         | Some u \<Rightarrow>
             (case call sctp isIP links u sourceInterface of (info, r) \<Rightarrow>
                (case r of CallFailed e \<Rightarrow> (Some (CallError e), c)
                 | _ \<Rightarrow> (None, c\<lparr>co_config := (co_config c)
                       \<lparr>cc_peers := AList.update peer (Some info) peers\<rparr>\<rparr>))))"

text \<open>What the links actor does with a link information it is told to close: the link it closes.\<close>

definition close_link :: "'l link_table \<Rightarrow> linkInfo \<Rightarrow> 'l option" where
  "close_link links info = (case links info of Some (Some l) \<Rightarrow> Some l | _ \<Rightarrow> None)"

text \<open>\<open>RemovePeer\<close>: whether the peer was configured, the link information that is closed, the core after.\<close>

definition RemovePeer :: "string \<Rightarrow> string \<Rightarrow> core \<Rightarrow> bool \<times> linkInfo option \<times> core" where
  "RemovePeer uri sourceInterface c =
     (let peer = \<lparr>pe_URI = uri, pe_SourceInterface = sourceInterface\<rparr>; peers = cc_peers (co_config c)
      in case map_of peers peer of None \<Rightarrow> (False, None, c)
         | Some info \<Rightarrow> (True, info, c\<lparr>co_config := (co_config c)\<lparr>cc_peers := AList.delete peer peers\<rparr>\<rparr>))"

text \<open>\<open>RemovePeers\<close>: the closures that the loop posts to the links actor all refer to the loop's variable
  \<open>linkInfo\<close>, which each iteration assigns.  A closure reads it when the actor runs it, and dereferences
  it, which panics for nil.  \<open>sched\<close> is how the actor is scheduled: how many of the posted closures it runs
  after each iteration, if so many wait; the rest it runs after the loop.\<close>

definition deref_info :: "linkInfo option \<Rightarrow> linkInfo outcome" where
  "deref_info var = (case var of None \<Rightarrow> Panic | Some info \<Rightarrow> Ret info)"

fun remove_loop :: "nat list \<Rightarrow> (Peer \<times> linkInfo option) list \<Rightarrow> linkInfo option \<Rightarrow> nat \<Rightarrow> linkInfo outcome list" where
  "remove_loop sched [] var posted = replicate posted (deref_info var)"
| "remove_loop sched ((peer, linkInfo) # peers) var posted =
     (let var = linkInfo;
          posted = (if var \<noteq> None then posted + 1 else posted);
          run = min (case sched of [] \<Rightarrow> 0 | n # _ \<Rightarrow> n) posted
      in replicate run (deref_info var) @ remove_loop (tl sched) peers var (posted - run))"

text \<open>The link informations that the actor is told to close, in order, and the core after; the process does not
  survive the first \<open>Panic\<close>.\<close>

definition RemovePeers :: "nat list \<Rightarrow> core \<Rightarrow> linkInfo outcome list \<times> core" where
  "RemovePeers sched c =
     (remove_loop sched (cc_peers (co_config c)) None 0,
      c\<lparr>co_config := (co_config c)\<lparr>cc_peers := []\<rparr>\<rparr>)"

end
