(* ===== verification/Core_Reports.thy ===== *)
theory Core_Reports
  imports Core_Config
begin

text \<open>
  The reports of src/core/api.go: what the node says about itself, its peers, its routing table, its
  paths and its sessions, from what the packet library reports.  A connection is a number.
\<close>

record SelfInfo =
  self_Key :: bytes
  self_Root :: bytes
  self_PrivateKey :: bytes
  self_Coords :: "nat list"

record PeerInfo =
  pi_Key :: bytes
  pi_Root :: bytes
  pi_Coords :: "nat list"
  pi_Port :: nat
  pi_Priority :: nat
  pi_Remote :: string
  pi_RXBytes :: "64 word"
  pi_TXBytes :: "64 word"
  pi_Uptime :: nat
  pi_RemoteIp :: string

text \<open>What the library knows of a peer; its connection, and the text of that connection's remote address.\<close>

record debug_peer =
  dp_Key :: bytes
  dp_Root :: bytes
  dp_Coords :: "nat list"
  dp_Port :: nat
  dp_Priority :: nat
  dp_Conn :: nat
  dp_RemoteAddr :: string

text \<open>A registered link: its name, its connection and its link information.\<close>

record registered_link =
  rl_lname :: string
  rl_conn :: nat
  rl_info :: linkInfo

definition GetSelf :: "bytes \<Rightarrow> bytes \<Rightarrow> nat list \<Rightarrow> core \<Rightarrow> SelfInfo" where
  "GetSelf key root coords c =
     \<lparr>self_Key = key, self_Root = root, self_PrivateKey = co_secret c, self_Coords = coords\<rparr>"

text \<open>The two maps of \<open>GetPeers\<close>, filled from the registry in the order of its iteration.\<close>

definition link_names :: "registered_link option list \<Rightarrow> nat \<rightharpoonup> registered_link" where
  "link_names links = fold (\<lambda>info m. case info of None \<Rightarrow> m | Some l \<Rightarrow> m(rl_conn l \<mapsto> l)) links Map.empty"

text \<open>\<open>linkconn\<close> gives the counters and the age of a connection that is a \<open>linkConn\<close>.\<close>

definition peer_info ::
  "registered_link option list \<Rightarrow> (nat \<rightharpoonup> linkConn \<times> nat) \<Rightarrow> debug_peer \<Rightarrow> PeerInfo" where
  "peer_info links linkconn p =
     (let name = (case link_names links (dp_Conn p) of None \<Rightarrow> '''' | Some l \<Rightarrow> rl_lname l);
          ip = (case link_names links (dp_Conn p) of None \<Rightarrow> '''' | Some l \<Rightarrow> li_remote (rl_info l));
          ip = (if ip \<noteq> '''' then (case SplitHostPort ip of Some (host, _) \<Rightarrow> host | None \<Rightarrow> ip) else ip)
      in \<lparr>pi_Key = dp_Key p, pi_Root = dp_Root p, pi_Coords = dp_Coords p, pi_Port = dp_Port p,
          pi_Priority = dp_Priority p,
          pi_Remote = (if name \<noteq> '''' then name else dp_RemoteAddr p),
          pi_RXBytes = (case linkconn (dp_Conn p) of None \<Rightarrow> 0 | Some (lc, _) \<Rightarrow> lc_rx lc),
          pi_TXBytes = (case linkconn (dp_Conn p) of None \<Rightarrow> 0 | Some (lc, _) \<Rightarrow> lc_tx lc),
          pi_Uptime = (case linkconn (dp_Conn p) of None \<Rightarrow> 0 | Some (_, up) \<Rightarrow> up),
          pi_RemoteIp = ip\<rparr>)"

definition GetPeers ::
  "registered_link option list \<Rightarrow> (nat \<rightharpoonup> linkConn \<times> nat) \<Rightarrow> debug_peer list \<Rightarrow> PeerInfo list" where
  "GetPeers links linkconn ps = map (peer_info links linkconn) ps"

text \<open>The entries of the other three reports, which copy their fields.\<close>

record DHTEntryInfo =
  dht_Key :: bytes
  dht_Port :: nat
  dht_Rest :: nat

record PathEntryInfo =
  path_Key :: bytes
  path_Path :: "nat list"

record SessionInfo =
  si_Key :: bytes
  si_RXBytes :: "64 word"
  si_TXBytes :: "64 word"
  si_Uptime :: nat

definition GetDHT :: "(bytes \<times> nat \<times> nat) list \<Rightarrow> DHTEntryInfo list" where
  "GetDHT ds = map (\<lambda>(key, port, rest). \<lparr>dht_Key = key, dht_Port = port, dht_Rest = rest\<rparr>) ds"

definition GetPaths :: "(bytes \<times> nat list) list \<Rightarrow> PathEntryInfo list" where
  "GetPaths ps = map (\<lambda>(key, path). \<lparr>path_Key = key, path_Path = path\<rparr>) ps"

definition GetSessions :: "(bytes \<times> 64 word \<times> 64 word \<times> nat) list \<Rightarrow> SessionInfo list" where
  "GetSessions ss = map (\<lambda>(key, rx, tx, up). \<lparr>si_Key = key, si_RXBytes = rx, si_TXBytes = tx, si_Uptime = up\<rparr>) ss"

section \<open>Admin calls\<close>

text \<open>\<open>SetAdmin\<close> registers four handlers and stops at the first that is refused.\<close>

fun register_all :: "(string \<Rightarrow> 'e option) \<Rightarrow> string list \<Rightarrow> string list \<times> 'e option" where
  "register_all add [] = ([], None)"
| "register_all add (name # names) =
     (case add name of Some e \<Rightarrow> ([name], Some e)
      | None \<Rightarrow> (case register_all add names of (cs, r) \<Rightarrow> (name # cs, r)))"

definition SetAdmin :: "(string \<Rightarrow> 'e option) \<Rightarrow> string list \<times> 'e option" where
  "SetAdmin add = register_all add
     [''getNodeInfo'', ''debug_remoteGetSelf'', ''debug_remoteGetPeers'', ''debug_remoteGetDHT'']"

text \<open>\<open>applyAdminCall\<close>: \<open>marshal\<close> and \<open>unmarshal\<close> are those of \<open>encoding/json\<close>, whose text of the
  request is the object with the key.\<close>

datatype 'e admin_error = HandlerError 'e | MarshalError | UnmarshalError

definition applyAdminCall ::
  "('a \<Rightarrow> bytes option) \<Rightarrow> (bytes \<Rightarrow> 'm option) \<Rightarrow> (string \<Rightarrow> 'e + 'a) \<Rightarrow> string \<Rightarrow> 'e admin_error + 'm" where
  "applyAdminCall marshal unmarshal handlerfunc key =
     (case handlerfunc key of Inl e \<Rightarrow> Inl (HandlerError e)
      | Inr out1 \<Rightarrow>
          (case marshal out1 of None \<Rightarrow> Inl MarshalError
           | Some out2 \<Rightarrow> (case unmarshal out2 of None \<Rightarrow> Inl UnmarshalError | Some result \<Rightarrow> Inr result)))"

section \<open>What a peer is called\<close>

definition distinct_conns :: "registered_link option list \<Rightarrow> bool" where
  "distinct_conns links \<longleftrightarrow> distinct (map rl_conn (List.map_filter id links))"

lemma link_names_fold:
  "fold (\<lambda>info m. case info of None \<Rightarrow> m | Some l \<Rightarrow> m(rl_conn l \<mapsto> l)) links m c = Some l \<Longrightarrow>
     Some l \<in> set links \<and> rl_conn l = c \<or> m c = Some l"
proof (induction links arbitrary: m)
  case (Cons x links)
  from Cons.IH [OF Cons.prems [unfolded fold_Cons o_apply]] show ?case
    by (cases x) (auto split: if_splits)
qed simp

lemma link_names_SomeD: "link_names links c = Some l \<Longrightarrow> Some l \<in> set links \<and> rl_conn l = c"
  unfolding link_names_def by (drule link_names_fold) simp

lemma link_names_kept:
  "m c \<noteq> None \<Longrightarrow>
     fold (\<lambda>info m. case info of None \<Rightarrow> m | Some l \<Rightarrow> m(rl_conn l \<mapsto> l)) links m c \<noteq> None"
  by (induction links arbitrary: m) (auto split: option.splits)

lemma link_names_found:
  "Some l \<in> set links \<Longrightarrow>
     fold (\<lambda>info m. case info of None \<Rightarrow> m | Some l \<Rightarrow> m(rl_conn l \<mapsto> l)) links m (rl_conn l) \<noteq> None"
proof (induction links arbitrary: m)
  case (Cons x links)
  show ?case
  proof (cases "x = Some l")
    case True
    then show ?thesis using link_names_kept [of "m(rl_conn l \<mapsto> l)" "rl_conn l" links] by simp
  next
    case False
    then show ?thesis using Cons by (simp split: option.splits)
  qed
qed simp

text \<open>the peer report: it has one entry per peer of the library, in its order; a peer whose connection
  belongs to a registered link carries the name of a link on that connection and the remote end
  without its port, and every other peer the address of its connection and no remote IP.\<close>

theorem peers_named:
  "length (GetPeers links linkconn ps) = length ps \<and>
   (\<forall>i<length ps.
      let p = ps ! i; info = GetPeers links linkconn ps ! i in
        pi_Key info = dp_Key p \<and> pi_Port info = dp_Port p \<and>
        ((\<exists>l. Some l \<in> set links \<and> rl_conn l = dp_Conn p
            \<and> pi_Remote info = (if rl_lname l = '''' then dp_RemoteAddr p else rl_lname l)
            \<and> (\<forall>host port. set host \<inter> {CHR ''['', CHR '']''} = {}
                 \<and> set port \<inter> {CHR ''['', CHR '']'', CHR '':''} = {}
                 \<and> li_remote (rl_info l) = JoinHostPort host port \<longrightarrow> pi_RemoteIp info = host))
         \<or> (\<forall>l. Some l \<in> set links \<longrightarrow> rl_conn l \<noteq> dp_Conn p)
            \<and> pi_Remote info = dp_RemoteAddr p \<and> pi_RemoteIp info = ''''))"
proof (intro conjI allI impI)
  show "length (GetPeers links linkconn ps) = length ps" by (simp add: GetPeers_def)
next
  fix i assume "i < length ps"
  then have info: "GetPeers links linkconn ps ! i = peer_info links linkconn (ps ! i)"
    by (simp add: GetPeers_def)
  show "let p = ps ! i; info = GetPeers links linkconn ps ! i in
        pi_Key info = dp_Key p \<and> pi_Port info = dp_Port p \<and>
        ((\<exists>l. Some l \<in> set links \<and> rl_conn l = dp_Conn p
            \<and> pi_Remote info = (if rl_lname l = '''' then dp_RemoteAddr p else rl_lname l)
            \<and> (\<forall>host port. set host \<inter> {CHR ''['', CHR '']''} = {}
                 \<and> set port \<inter> {CHR ''['', CHR '']'', CHR '':''} = {}
                 \<and> li_remote (rl_info l) = JoinHostPort host port \<longrightarrow> pi_RemoteIp info = host))
         \<or> (\<forall>l. Some l \<in> set links \<longrightarrow> rl_conn l \<noteq> dp_Conn p)
            \<and> pi_Remote info = dp_RemoteAddr p \<and> pi_RemoteIp info = '''')"
  proof (cases "link_names links (dp_Conn (ps ! i))")
    case None
    then have "Some l \<in> set links \<Longrightarrow> rl_conn l \<noteq> dp_Conn (ps ! i)" for l
      using link_names_found [of l links Map.empty] by (auto simp: link_names_def)
    then show ?thesis using None by (simp add: info peer_info_def Let_def)
  next
    case (Some l)
    have nonempty: "JoinHostPort host port \<noteq> ''''" for host port by (simp add: JoinHostPort_def)
    from Some link_names_SomeD [OF Some] show ?thesis
      unfolding info Let_def
      by (intro conjI disjI1 exI [of _ l])
        (auto simp: peer_info_def Let_def split_join_host_port nonempty)
  qed
qed

end
