(* ===== verification/Link_Handler.thy ===== *)
theory Link_Handler
  imports Links
begin

text \<open>
  The whole of \<open>link.handler\<close> in src/core/link.go: from the test for an existing link over the handshake to
  the end of the link, as the sequence of what it does to the table of links, the router, the
  subscribers of peer changes and the connection.  \<open>HandleConn\<close> of the router returns when the link has ended.
\<close>

section \<open>The code\<close>

datatype handler_step =
  MarkLink | SetLink | DeleteLink | HandleConn bytes nat | PeersChanged | PeersChangedAfter nat
  | RetryAfter nat | CloseConn

definition handler_connected :: "link \<Rightarrow> bool \<Rightarrow> bytes \<Rightarrow> nat \<Rightarrow> handler_step list" where
  "handler_connected intf dialled key prio =
     [SetLink, PeersChangedAfter 500, HandleConn key prio, PeersChanged]
     @ (if \<not> lk_incoming intf \<and> dialled then [RetryAfter 1000] else [])"

text \<open>The deferred calls run last, in the reverse of the order in which they were deferred; the
  address of the key is sliced for a log line, which panics if it is nil.\<close>

definition link_handler ::
  "network_domain \<Rightarrow> bytes \<Rightarrow> bytes set \<Rightarrow> link \<Rightarrow> bool \<Rightarrow> bool \<Rightarrow> conn_io \<Rightarrow> (handshake_end option \<times> handler_step list) outcome" where
  "link_handler nd public allowedPublicKeys intf connected dialled io =
     (if connected then Ret (None, [CloseConn])
      else bind_outcome (handshake public allowedPublicKeys intf io) (\<lambda>e.
        case e of
          Connected key prio \<Rightarrow>
            bind_outcome (AddrForKey nd key) (\<lambda>a. case a of None \<Rightarrow> Panic
              | Some _ \<Rightarrow> Ret (None, MarkLink # handler_connected intf dialled key prio @ [DeleteLink, CloseConn]))
        | NotAllowed key \<Rightarrow> Ret (Some (NotAllowed key), [MarkLink, CloseConn, DeleteLink, CloseConn])
        | e \<Rightarrow> Ret (Some e, [MarkLink, DeleteLink, CloseConn])))"

text \<open>What the steps do to the table of links.\<close>

definition handler_table :: "linkInfo \<Rightarrow> 'l \<Rightarrow> handler_step \<Rightarrow> 'l link_table \<Rightarrow> 'l link_table" where
  "handler_table info intf st t =
     (case st of MarkLink \<Rightarrow> t(info \<mapsto> None) | SetLink \<Rightarrow> t(info \<mapsto> Some intf) | DeleteLink \<Rightarrow> t(info := None) | _ \<Rightarrow> t)"

section \<open>What a handler does\<close>

lemma handshake_returns:
  assumes "length public = 32"
  shows "\<exists>e. handshake public allowedPublicKeys intf io = Ret e"
  using assms by (auto simp: handshake_def encode_hello Let_def)

definition accepts :: "bytes \<Rightarrow> bytes set \<Rightarrow> link \<Rightarrow> conn_io \<Rightarrow> bytes \<Rightarrow> nat \<Rightarrow> bool" where
  "accepts public allowedPublicKeys intf io key prio \<longleftrightarrow>
     io_deadline io \<and> io_write io = Some 38 \<and> io_clear io \<and> io_read io = Some (hello key) \<and>
     length key = 32 \<and> key_accepted allowedPublicKeys intf key \<and> prio = lo_priority (lk_options intf)"

lemma accepts_connected:
  "length public = 32 \<Longrightarrow> accepts public allowedPublicKeys intf io key prio \<longleftrightarrow>
    handshake public allowedPublicKeys intf io = Ret (Connected key prio)"
  by (simp add: accepts_def handshake_connected)

lemma link_handler_cases:
  assumes "length public = 32" "GetPrefix nd = Ret p"
  obtains (exists) "connected" "link_handler nd public allowedPublicKeys intf connected dialled io = Ret (None, [CloseConn])"
  | (link) key prio where "\<not> connected" "handshake public allowedPublicKeys intf io = Ret (Connected key prio)"
      "link_handler nd public allowedPublicKeys intf connected dialled io =
        Ret (None, MarkLink # handler_connected intf dialled key prio @ [DeleteLink, CloseConn])"
  | (fails) e cs where "\<not> connected" "handshake public allowedPublicKeys intf io = Ret e" "\<And>key prio. e \<noteq> Connected key prio"
      "link_handler nd public allowedPublicKeys intf connected dialled io =
        Ret (Some e, MarkLink # cs @ [DeleteLink, CloseConn])" "cs = [] \<or> cs = [CloseConn]"
proof (cases connected)
  case False
  obtain e where e: "handshake public allowedPublicKeys intf io = Ret e" using handshake_returns assms(1) by blast
  show ?thesis
  proof (cases "\<exists>key prio. e = Connected key prio")
    case True
    then obtain key prio where k: "e = Connected key prio" by blast
    with e have "length key = 32" using handshake_connected [OF assms(1)] by blast
    then show ?thesis using link [of key prio] False e k assms(2) by (simp add: link_handler_def AddrForKey_eq)
  next
    case fail: False
    then show ?thesis
      using fails [of e "[]"] fails [of e "[CloseConn]"] False e
      by (cases e) (auto simp: link_handler_def)
  qed
qed (simp add: exists link_handler_def)

text \<open>C27: a handler always returns, with the connection closed at last.  It gives a key to the router exactly when
  there was no link with the same information and the handshake accepted the key, with the priority of the
  link's options; it has no error exactly then or when the link existed.  It tries again after a second exactly
  when it had a link that the node itself had dialled.  The table is as before if the link existed, and
  has no entry of the link otherwise.\<close>

theorem handler_trace:
  assumes "length public = 32" "GetPrefix nd = Ret p"
  shows "\<exists>err tr. link_handler nd public allowedPublicKeys intf connected dialled io = Ret (err, tr)
    \<and> last tr = CloseConn
    \<and> (\<forall>key prio. HandleConn key prio \<in> set tr \<longleftrightarrow> \<not> connected \<and> accepts public allowedPublicKeys intf io key prio)
    \<and> (err = None \<longleftrightarrow> connected \<or> (\<exists>key prio. HandleConn key prio \<in> set tr))
    \<and> (RetryAfter 1000 \<in> set tr \<longleftrightarrow> \<not> lk_incoming intf \<and> dialled \<and> (\<exists>key prio. HandleConn key prio \<in> set tr))
    \<and> fold (handler_table info l) tr t = (if connected then t else t(info := None))"
  using assms
proof (cases rule: link_handler_cases [of public nd p connected allowedPublicKeys intf dialled io])
  case exists
  then show ?thesis by (simp add: handler_table_def)
next
  case (link key prio)
  then show ?thesis using accepts_connected [OF assms(1)] by (auto simp: handler_connected_def handler_table_def)
next
  case (fails e cs)
  then show ?thesis using accepts_connected [OF assms(1)] by (auto simp: handler_table_def)
qed

theorem handler_trace_witness:
  "\<exists>err tr. link_handler \<lparr>Prefix = ''fc''\<rparr> (replicate 32 1) {}
      \<lparr>lk_options = \<lparr>pinnedEd25519Keys = {}, lo_priority = 5\<rparr>, lk_incoming = False, lk_force = False\<rparr> False True
      \<lparr>io_deadline = True, io_write = Some 38, io_read = Some (hello (replicate 32 2)), io_clear = True\<rparr> = Ret (err, tr)
    \<and> err = None \<and> RetryAfter 1000 \<in> set tr"
proof -
  have "GetPrefix \<lparr>Prefix = ''fc''\<rparr> = Ret [0xfc]" by code_simp
  note t = handler_trace [OF length_replicate this, of 1 "{}"
      "\<lparr>lk_options = \<lparr>pinnedEd25519Keys = {}, lo_priority = 5\<rparr>, lk_incoming = False, lk_force = False\<rparr>" False True
      "\<lparr>io_deadline = True, io_write = Some 38, io_read = Some (hello (replicate 32 2)), io_clear = True\<rparr>" undefined undefined "\<lambda>_. None"]
  have "accepts (replicate 32 1) {}
      \<lparr>lk_options = \<lparr>pinnedEd25519Keys = {}, lo_priority = 5\<rparr>, lk_incoming = False, lk_force = False\<rparr>
      \<lparr>io_deadline = True, io_write = Some 38, io_read = Some (hello (replicate 32 2)), io_clear = True\<rparr> (replicate 32 2) 5"
    by (simp add: accepts_def key_accepted_def)
  with t show ?thesis by fastforce
qed

end
