(* ===== verification/Dialer.thy ===== *)
theory Dialer
  imports Links
begin

text \<open>
  The link types of src/core: link_tcp.go, link_tls.go, link_unix.go, link_socks.go, link_sctp_linux.go
  and link_mpath.go.  For each: what a dial of a URL asks of the network, and with what arguments
  \<open>links.create\<close> is called for an outgoing and for an incoming connection.  Resolving names, the
  interfaces of the machine, and the text of an IP address are parameters.  How listeners are opened
  is in Link_Listen.
\<close>

section \<open>IP addresses\<close>

definition v4_mapped :: bytes where
  "v4_mapped = replicate 10 0 @ [255, 255]"

definition To4 :: "bytes \<Rightarrow> bytes option" where
  "To4 ip = (if length ip = 4 then Some ip
     else if length ip = 16 \<and> take 12 ip = v4_mapped then Some (drop 12 ip) else None)"

definition ip_class :: "(bytes \<Rightarrow> bool) \<Rightarrow> (bytes \<Rightarrow> bool) \<Rightarrow> bytes \<Rightarrow> bool" where
  "ip_class v4 v6 ip = (case To4 ip of Some q \<Rightarrow> v4 q | None \<Rightarrow> length ip = 16 \<and> v6 ip)"

definition IsUnspecified :: "bytes \<Rightarrow> bool" where
  "IsUnspecified = ip_class (\<lambda>q. q = [0, 0, 0, 0]) (\<lambda>ip. ip = replicate 16 0)"

definition IsLoopback :: "bytes \<Rightarrow> bool" where
  "IsLoopback = ip_class (\<lambda>q. q ! 0 = 127) (\<lambda>ip. ip = replicate 15 0 @ [1])"

definition IsMulticast :: "bytes \<Rightarrow> bool" where
  "IsMulticast = ip_class (\<lambda>q. q ! 0 AND 0xf0 = 0xe0) (\<lambda>ip. ip ! 0 = 0xff)"

definition IsLinkLocalUnicast :: "bytes \<Rightarrow> bool" where
  "IsLinkLocalUnicast = ip_class (\<lambda>q. q ! 0 = 169 \<and> q ! 1 = 254) (\<lambda>ip. ip ! 0 = 0xfe \<and> ip ! 1 AND 0xc0 = 0x80)"

definition IsGlobalUnicast :: "bytes \<Rightarrow> bool" where
  "IsGlobalUnicast ip \<longleftrightarrow> (length ip = 4 \<or> length ip = 16) \<and> To4 ip \<noteq> Some [255, 255, 255, 255]
     \<and> \<not> IsUnspecified ip \<and> \<not> IsLoopback ip \<and> \<not> IsMulticast ip \<and> \<not> IsLinkLocalUnicast ip"

definition ip_Equal :: "bytes \<Rightarrow> bytes \<Rightarrow> bool" where
  "ip_Equal a b \<longleftrightarrow> a = b \<or> (To4 a \<noteq> None \<and> To4 a = To4 b)"

record tcp_addr =
  ta_IP :: bytes
  ta_Port :: nat
  ta_Zone :: string

definition TCPAddr_String :: "(bytes \<Rightarrow> string) \<Rightarrow> tcp_addr \<Rightarrow> string" where
  "TCPAddr_String show_ip a =
     (let ip = (if ta_IP a = [] then '''' else show_ip (ta_IP a))
      in if ta_Zone a \<noteq> [] then JoinHostPort (ip @ ''%'' @ ta_Zone a) (show_nat (ta_Port a))
         else JoinHostPort ip (show_nat (ta_Port a)))"

section \<open>The dialer for a source interface\<close>

text \<open>An interface: its name, whether it is up, and its addresses, where \<open>None\<close> stands for an error and a
  \<open>None\<close> in the list for a text that \<open>ParseCIDR\<close> rejects.\<close>

record iface =
  if_Name :: string
  if_up :: bool
  if_addrs :: "bytes option list option"

datatype dialer_error = ZoneRequired | InterfacesError | InterfaceNotFound | InterfaceDown
  | AddressesUnavailable | NoSourceAddress

text \<open>The loop over the addresses: the source address it settles on; \<open>n\<close> is the length of the whole list.\<close>

fun source_loop :: "bytes \<Rightarrow> nat \<Rightarrow> nat \<Rightarrow> bytes option list \<Rightarrow> bytes option" where
  "source_loop dst n addrindex [] = None"
| "source_loop dst n addrindex (None # addrs) = source_loop dst n (addrindex + 1) addrs"
| "source_loop dst n addrindex (Some src # addrs) =
     (if \<not> IsGlobalUnicast src \<and> \<not> IsLinkLocalUnicast src then source_loop dst n (addrindex + 1) addrs
      else let bothglobal = (IsGlobalUnicast src = IsGlobalUnicast dst);
               bothlinklocal = (IsLinkLocalUnicast src = IsLinkLocalUnicast dst)
           in if \<not> bothglobal \<and> \<not> bothlinklocal then source_loop dst n (addrindex + 1) addrs
              else if (To4 src \<noteq> None) \<noteq> (To4 dst \<noteq> None) then source_loop dst n (addrindex + 1) addrs
              else if bothglobal \<or> bothlinklocal \<or> addrindex = n - 1 then Some src
              else source_loop dst n (addrindex + 1) addrs)"

text \<open>\<open>dialerFor\<close>: the destination, whose zone it may set, and the local address.\<close>

definition dialerFor ::
  "iface list option \<Rightarrow> tcp_addr \<Rightarrow> string \<Rightarrow> dialer_error + (tcp_addr \<times> tcp_addr option)" where
  "dialerFor interfaces dst sintf =
     (let dst' = (if IsLinkLocalUnicast (ta_IP dst) \<and> sintf \<noteq> [] then dst\<lparr>ta_Zone := sintf\<rparr> else dst)
      in if IsLinkLocalUnicast (ta_IP dst) \<and> ta_Zone dst' = [] then Inl ZoneRequired
         else if sintf = [] then Inr (dst', None)
         else case interfaces of None \<Rightarrow> Inl InterfacesError
         | Some i \<Rightarrow>
             (case find (\<lambda>ie. if_Name ie = sintf) i of None \<Rightarrow> Inl InterfaceNotFound
              | Some ief \<Rightarrow>
                  if \<not> if_up ief then Inl InterfaceDown
                  else (case if_addrs ief of None \<Rightarrow> Inl AddressesUnavailable
                  | Some addrs \<Rightarrow>
                      (case source_loop (ta_IP dst') (length addrs) 0 addrs of None \<Rightarrow> Inl NoSourceAddress
                       | Some src \<Rightarrow> Inr (dst', Some \<lparr>ta_IP = src, ta_Port = 0, ta_Zone = sintf\<rparr>)))))"

definition tcpIDFor :: "(bytes \<Rightarrow> string) \<Rightarrow> tcp_addr option \<Rightarrow> tcp_addr \<Rightarrow> string" where
  "tcpIDFor show_ip local remoteAddr =
     (if IsLinkLocalUnicast (ta_IP remoteAddr) then show_ip (ta_IP remoteAddr)
      else case local of
        Some localAddr \<Rightarrow>
          if ip_Equal (ta_IP localAddr) (ta_IP remoteAddr) then TCPAddr_String show_ip remoteAddr
          else TCPAddr_String show_ip remoteAddr
      | None \<Rightarrow> TCPAddr_String show_ip remoteAddr)"

section \<open>TCP and TLS\<close>

text \<open>The arguments of \<open>links.create\<close> beside the connection; the first is the URL and interface to dial
  again.\<close>

record create_args =
  ca_dial :: "(url \<times> string) option"
  ca_name :: string
  ca_info :: linkInfo
  ca_incoming :: bool
  ca_force :: bool
  ca_options :: linkOptions

datatype dial_end = ResolveFailed | DialerFailed dialer_error | NoConnectionNeeded
  | ConnectTo "tcp_addr option" string create_args

text \<open>\<open>strings.TrimRight(strings.SplitN(s, "?", 2)[0], "/")\<close>\<close>

definition link_name :: "string \<Rightarrow> string" where
  "link_name s = rev (dropWhile (\<lambda>c. c = CHR ''/'') (rev (takeWhile (\<lambda>c. c \<noteq> CHR ''?'') s)))"

definition stream_dial ::
  "string \<Rightarrow> (bytes \<Rightarrow> string) \<Rightarrow> (string \<Rightarrow> tcp_addr option) \<Rightarrow> iface list option \<Rightarrow> 'l link_table
    \<Rightarrow> url \<Rightarrow> linkOptions \<Rightarrow> string \<Rightarrow> dial_end" where
  "stream_dial lt show_ip resolve interfaces links u options sintf =
     (case resolve (url_Host u) of None \<Rightarrow> ResolveFailed
      | Some addr \<Rightarrow>
          (case dialerFor interfaces addr sintf of Inl e \<Rightarrow> DialerFailed e
           | Inr (addr, localAddr) \<Rightarrow>
               let info = linkInfoFor lt sintf (tcpIDFor show_ip localAddr addr)
               in if isConnectedTo links info then NoConnectionNeeded
                  else ConnectTo localAddr (TCPAddr_String show_ip addr)
                    \<lparr>ca_dial = Some (u, sintf), ca_name = link_name (url_String u), ca_info = info,
                     ca_incoming = False, ca_force = False, ca_options = options\<rparr>))"

definition tcp_dial ::
  "(bytes \<Rightarrow> string) \<Rightarrow> (string \<Rightarrow> tcp_addr option) \<Rightarrow> iface list option \<Rightarrow> 'l link_table
    \<Rightarrow> url \<Rightarrow> linkOptions \<Rightarrow> string \<Rightarrow> dial_end" where
  "tcp_dial = stream_dial ''tcp''"

text \<open>A TLS dial is a TCP dial to the same address whose handshake sends the given server name.\<close>

definition tls_dial ::
  "(bytes \<Rightarrow> string) \<Rightarrow> (string \<Rightarrow> tcp_addr option) \<Rightarrow> iface list option \<Rightarrow> 'l link_table
    \<Rightarrow> url \<Rightarrow> linkOptions \<Rightarrow> string \<Rightarrow> string \<Rightarrow> dial_end \<times> string" where
  "tls_dial show_ip resolve interfaces links u options sintf sni =
     (stream_dial ''tls'' show_ip resolve interfaces links u options sintf, sni)"

text \<open>The address a listener is started on, and the link of a connection it accepts.\<close>

definition listen_hostport :: "url \<Rightarrow> string \<Rightarrow> string" where
  "listen_hostport u sintf =
     (if sintf \<noteq> []
      then (case SplitHostPort (url_Host u) of
              Some (host, port) \<Rightarrow> ''['' @ host @ ''%'' @ sintf @ '']:'' @ port | None \<Rightarrow> url_Host u)
      else url_Host u)"

definition stream_accept :: "string \<Rightarrow> (bytes \<Rightarrow> string) \<Rightarrow> url \<Rightarrow> string \<Rightarrow> tcp_addr \<Rightarrow> tcp_addr \<Rightarrow> create_args" where
  "stream_accept lt show_ip u sintf laddr raddr =
     \<lparr>ca_dial = None, ca_name = lt @ ''://'' @ TCPAddr_String show_ip raddr,
      ca_info = linkInfoFor lt sintf (tcpIDFor show_ip (Some laddr) raddr),
      ca_incoming = True, ca_force = IsLinkLocalUnicast (ta_IP raddr), ca_options = linkOptionsForListener u\<rparr>"

definition tcp_accept :: "(bytes \<Rightarrow> string) \<Rightarrow> url \<Rightarrow> string \<Rightarrow> tcp_addr \<Rightarrow> tcp_addr \<Rightarrow> create_args" where
  "tcp_accept = stream_accept ''tcp''"

definition tls_accept :: "(bytes \<Rightarrow> string) \<Rightarrow> url \<Rightarrow> string \<Rightarrow> tcp_addr \<Rightarrow> tcp_addr \<Rightarrow> create_args" where
  "tls_accept = stream_accept ''tls''"

section \<open>UNIX and SOCKS\<close>

definition unix_dial :: "'l link_table \<Rightarrow> url \<Rightarrow> linkOptions \<Rightarrow> dial_end" where
  "unix_dial links u options =
     (let info = linkInfoFor ''unix'' '''' (url_Path u)
      in if isConnectedTo links info then NoConnectionNeeded
         else ConnectTo None (url_Path u)
           \<lparr>ca_dial = Some (u, ''''), ca_name = url_String u, ca_info = info,
            ca_incoming = False, ca_force = False, ca_options = options\<rparr>)"

definition unix_accept :: "url \<Rightarrow> create_args" where
  "unix_accept u =
     \<lparr>ca_dial = None, ca_name = url_String u, ca_info = linkInfoFor ''unix'' '''' (url_String u),
      ca_incoming = True, ca_force = False, ca_options = linkOptionsForListener u\<rparr>"

text \<open>\<open>strings.Split(strings.Trim(path, "/"), "/")[0]\<close>\<close>

definition socks_target :: "string \<Rightarrow> string" where
  "socks_target path = hd (Split (CHR ''/'')
     (rev (dropWhile (\<lambda>c. c = CHR ''/'') (rev (dropWhile (\<lambda>c. c = CHR ''/'') path)))))"

definition socks_dial :: "'l link_table \<Rightarrow> url \<Rightarrow> linkOptions \<Rightarrow> dial_end" where
  "socks_dial links u options =
     (let info = linkInfoFor ''socks'' '''' (url_Path u)
      in if isConnectedTo links info then NoConnectionNeeded
         else ConnectTo None (socks_target (url_Path u))
           \<lparr>ca_dial = Some (u, ''''), ca_name = url_String u, ca_info = info,
            ca_incoming = False, ca_force = False, ca_options = options\<rparr>)"

section \<open>SCTP\<close>

text \<open>The number that \<open>strconv.Atoi\<close> returns, also beside an error: 0 for a malformed text, the nearest
  64-bit integer for one out of range.\<close>

definition Atoi_value :: "string \<Rightarrow> int" where
  "Atoi_value s =
     (let neg = HasPrefix s ''-''; digits = (if s \<noteq> [] \<and> (hd s = CHR ''-'' \<or> hd s = CHR ''+'') then tl s else s)
      in if digits = [] then 0
         else case parse_digits 0 digits of None \<Rightarrow> 0
         | Some n \<Rightarrow> if neg then max (- int n) (- (2 ^ 63)) else min (int n) (2 ^ 63 - 1))"

record sctp_addr =
  sa_IPs :: "tcp_addr list"
  sa_Port :: int

definition sctp_getAddress :: "(string \<Rightarrow> tcp_addr option) \<Rightarrow> string \<Rightarrow> sctp_addr outcome" where
  "sctp_getAddress resolve host =
     (case SplitHostPort host of None \<Rightarrow> Panic
      | Some (ip, port) \<Rightarrow>
          Ret \<lparr>sa_IPs = List.map_filter resolve (Split (CHR '','') ip), sa_Port = Atoi_value port\<rparr>)"

text \<open>The part before a zone: \<open>strings.SplitN(s, "%", 2)[0]\<close>.\<close>

definition before_zone :: "string \<Rightarrow> string" where
  "before_zone = takeWhile (\<lambda>c. c \<noteq> CHR ''%'')"

definition sctp_dial ::
  "(bytes \<Rightarrow> string) \<Rightarrow> (string \<Rightarrow> tcp_addr option) \<Rightarrow> 'l link_table
    \<Rightarrow> url \<Rightarrow> linkOptions \<Rightarrow> string \<Rightarrow> (dial_end \<times> sctp_addr option) outcome" where
  "sctp_dial show_ip resolve links u options sintf =
     (let info = linkInfoFor ''sctp'' sintf (before_zone (url_Host u))
      in if isConnectedTo links info then Ret (NoConnectionNeeded, None)
         else case SplitHostPort (url_Host u) of None \<Rightarrow> Ret (ResolveFailed, None)
         | Some (host, port) \<Rightarrow>
             (case resolve host of None \<Rightarrow> Ret (ResolveFailed, None)
              | Some dst \<Rightarrow>
                  let text = show_ip (ta_IP dst) @ (if ta_Zone dst = [] then '''' else ''%'' @ ta_Zone dst)
                  in bind_outcome (sctp_getAddress resolve (text @ '':'' @ port)) (\<lambda>raddress.
                     Ret (ConnectTo None (url_Host u)
                       \<lparr>ca_dial = Some (u, sintf), ca_name = url_String u, ca_info = info,
                        ca_incoming = False, ca_force = False, ca_options = options\<rparr>, Some raddress))))"

text \<open>An accepted connection: \<open>ips\<close> is the JSON text of the remote addresses, the first of which decides
  whether the link is forced; there is none to look at in an empty list.\<close>

definition sctp_accept :: "(tcp_addr list \<Rightarrow> string) \<Rightarrow> url \<Rightarrow> string \<Rightarrow> tcp_addr list \<Rightarrow> create_args outcome" where
  "sctp_accept marshal u sintf IPAddrs =
     (case IPAddrs of [] \<Rightarrow> Panic
      | a # _ \<Rightarrow>
          Ret \<lparr>ca_dial = None, ca_name = ''sctp://'' @ marshal IPAddrs,
               ca_info = linkInfoFor ''sctp'' sintf (marshal IPAddrs),
               ca_incoming = True, ca_force = IsLinkLocalUnicast (ta_IP a), ca_options = linkOptionsForListener u\<rparr>)"

section \<open>Multipath\<close>

text \<open>\<open>strings.Split(url.String(), "/")[2:]\<close>\<close>

definition mpath_hosts :: "url \<Rightarrow> string list outcome" where
  "mpath_hosts u = (let parts = Split (CHR ''/'') (url_String u)
     in if length parts < 2 then Panic else Ret (drop 2 parts))"

definition nil_text :: string where "nil_text = ''<nil>''"

fun remote_targets ::
  "(bytes \<Rightarrow> string) \<Rightarrow> (string \<Rightarrow> tcp_addr option) \<Rightarrow> 'l link_table \<Rightarrow> string \<Rightarrow> string list \<Rightarrow> tcp_addr list" where
  "remote_targets show_ip resolve links sintfs [] = []"
| "remote_targets show_ip resolve links sintfs (host # hosts) =
     (let text = (case resolve host of None \<Rightarrow> nil_text | Some dst \<Rightarrow> TCPAddr_String show_ip dst);
          rest = remote_targets show_ip resolve links sintfs hosts
      in if isConnectedTo links (linkInfoFor ''tcp'' sintfs text) then rest
         else case resolve host of None \<Rightarrow> rest
         | Some dst \<Rightarrow>
             if IsLinkLocalUnicast (ta_IP dst)
             then (let dst = dst\<lparr>ta_Zone := sintfs\<rparr> in if ta_Zone dst = [] then rest else dst # rest)
             else dst # rest)"

text \<open>The dialers from one interface to one target: at most one, from the first suitable address.\<close>

definition interface_dialer :: "iface list \<Rightarrow> tcp_addr \<Rightarrow> string \<Rightarrow> (bytes \<times> tcp_addr) list" where
  "interface_dialer interfaces dst sintf =
     (case find (\<lambda>ie. if_Name ie = sintf) interfaces of None \<Rightarrow> []
      | Some ief \<Rightarrow>
          if \<not> if_up ief then []
          else (case if_addrs ief of None \<Rightarrow> []
          | Some addrs \<Rightarrow>
              (case source_loop (ta_IP dst) (length addrs) 0 addrs of None \<Rightarrow> [] | Some src \<Rightarrow> [(src, dst)])))"

datatype mpath_error = NoTargets | NoMpathSource

definition connFor ::
  "(bytes \<Rightarrow> string) \<Rightarrow> (string \<Rightarrow> tcp_addr option) \<Rightarrow> iface list \<Rightarrow> 'l link_table \<Rightarrow> url \<Rightarrow> string
    \<Rightarrow> (mpath_error + (bytes \<times> tcp_addr) list) outcome" where
  "connFor show_ip resolve interfaces links u sinterfaces =
     bind_outcome (mpath_hosts u) (\<lambda>hosts. Ret (
       let remoteTargets = remote_targets show_ip resolve links sinterfaces hosts
       in if remoteTargets = [] then Inl NoTargets
          else let dialers =
                 (if sinterfaces \<noteq> []
                  then concat (map (\<lambda>dst. concat (map (interface_dialer interfaces dst) (Split (CHR '','') sinterfaces)))
                         remoteTargets)
                  else map (\<lambda>dst. (v4_mapped @ [0, 0, 0, 0], dst)) remoteTargets)
               in if dialers = [] then Inl NoMpathSource else Inr dialers))"

definition mpath_dial ::
  "(bytes \<Rightarrow> string) \<Rightarrow> (string \<Rightarrow> tcp_addr option) \<Rightarrow> iface list \<Rightarrow> 'l link_table
    \<Rightarrow> url \<Rightarrow> linkOptions \<Rightarrow> string \<Rightarrow> (mpath_error + (bytes \<times> tcp_addr) list \<times> create_args) outcome" where
  "mpath_dial show_ip resolve interfaces links u options sintf =
     bind_outcome (connFor show_ip resolve interfaces links u sintf) (\<lambda>r. Ret (case r of Inl e \<Rightarrow> Inl e
       | Inr dialers \<Rightarrow> Inr (dialers,
           \<lparr>ca_dial = Some (u, sintf), ca_name = link_name (url_String u),
            ca_info = linkInfoFor ''mpath'' sintf (before_zone (url_Host u)),
            ca_incoming = False, ca_force = False, ca_options = options\<rparr>)))"

definition mpath_accept :: "(bytes \<Rightarrow> string) \<Rightarrow> url \<Rightarrow> string \<Rightarrow> tcp_addr \<Rightarrow> create_args" where
  "mpath_accept show_ip u sintf raddr =
     \<lparr>ca_dial = None, ca_name = ''mpath://'' @ TCPAddr_String show_ip raddr,
      ca_info = linkInfoFor ''mpath'' sintf (before_zone (show_ip (ta_IP raddr))),
      ca_incoming = True, ca_force = IsLinkLocalUnicast (ta_IP raddr), ca_options = linkOptionsForListener u\<rparr>"

text \<open>\<open>listenFor\<close>: the hosts it listens on; \<open>can_listen\<close> says where the network lets it.\<close>

fun local_targets :: "(string \<Rightarrow> tcp_addr option) \<Rightarrow> string \<Rightarrow> string list \<Rightarrow> string list" where
  "local_targets resolve sintf [] = []"
| "local_targets resolve sintf (host # hosts) =
     (let rest = local_targets resolve sintf hosts
      in case resolve host of None \<Rightarrow> rest
         | Some dst \<Rightarrow> if IsLinkLocalUnicast (ta_IP dst) \<and> sintf = [] then rest else host # rest)"

definition listenFor ::
  "(string \<Rightarrow> tcp_addr option) \<Rightarrow> (string \<Rightarrow> bool) \<Rightarrow> url \<Rightarrow> string \<Rightarrow> (mpath_error + string list) outcome" where
  "listenFor resolve can_listen u sintf =
     bind_outcome (mpath_hosts u) (\<lambda>hosts. Ret (
       let localTargets = local_targets resolve sintf hosts
       in if localTargets = [] then Inl NoTargets else Inr (filter can_listen localTargets)))"

section \<open>The Android build's multipath dialer\<close>

text \<open>link_mpath_android.go takes source addresses in place of interface names, refuses a link that exists,
  and does not look whether the targets are connected over TCP.  \<open>parse_addr\<close> reads an address
  and drops its zone.\<close>

fun android_targets :: "(string \<Rightarrow> tcp_addr option) \<Rightarrow> string \<Rightarrow> string list \<Rightarrow> tcp_addr list" where
  "android_targets resolve sintfs [] = []"
| "android_targets resolve sintfs (host # hosts) =
     (let rest = android_targets resolve sintfs hosts
      in case resolve host of None \<Rightarrow> rest
         | Some dst \<Rightarrow>
             if IsLinkLocalUnicast (ta_IP dst)
             then (let dst = dst\<lparr>ta_Zone := sintfs\<rparr> in if ta_Zone dst = [] then rest else dst # rest)
             else dst # rest)"

definition android_dialer :: "(string \<Rightarrow> bytes option) \<Rightarrow> tcp_addr \<Rightarrow> string \<Rightarrow> (bytes \<times> tcp_addr) list" where
  "android_dialer parse_addr dst sintf =
     (case parse_addr sintf of None \<Rightarrow> []
      | Some src \<Rightarrow>
          if \<not> IsGlobalUnicast src \<and> \<not> IsLinkLocalUnicast src then []
          else let bothglobal = (IsGlobalUnicast src = IsGlobalUnicast (ta_IP dst));
                   bothlinklocal = (IsLinkLocalUnicast src = IsLinkLocalUnicast (ta_IP dst))
               in if \<not> bothglobal \<and> \<not> bothlinklocal then []
                  else if (To4 src \<noteq> None) \<noteq> (To4 (ta_IP dst) \<noteq> None) then []
                  else if bothglobal \<or> bothlinklocal then [(src, dst)] else [])"

definition android_connFor ::
  "(string \<Rightarrow> tcp_addr option) \<Rightarrow> (string \<Rightarrow> bytes option) \<Rightarrow> url \<Rightarrow> string
    \<Rightarrow> (mpath_error + (bytes \<times> tcp_addr) list) outcome" where
  "android_connFor resolve parse_addr u sinterfaces =
     bind_outcome (mpath_hosts u) (\<lambda>hosts. Ret (
       let remoteTargets = android_targets resolve sinterfaces hosts
       in if remoteTargets = [] then Inl NoTargets
          else let dialers =
                 (if sinterfaces \<noteq> []
                  then concat (map (\<lambda>dst. concat (map (android_dialer parse_addr dst) (Split (CHR '','') sinterfaces)))
                         remoteTargets)
                  else map (\<lambda>dst. (v4_mapped @ [0, 0, 0, 0], dst)) remoteTargets)
               in if dialers = [] then Inl NoMpathSource else Inr dialers))"

definition android_dial ::
  "(string \<Rightarrow> tcp_addr option) \<Rightarrow> (string \<Rightarrow> bytes option) \<Rightarrow> 'l link_table
    \<Rightarrow> url \<Rightarrow> linkOptions \<Rightarrow> string \<Rightarrow> (mpath_error option + (bytes \<times> tcp_addr) list \<times> create_args) outcome" where
  "android_dial resolve parse_addr links u options sintf =
     (let info = linkInfoFor ''mpath'' sintf (before_zone (url_Host u))
      in if isConnectedTo links info then Ret (Inl None)
         else bind_outcome (android_connFor resolve parse_addr u sintf) (\<lambda>r. Ret (case r of Inl e \<Rightarrow> Inl (Some e)
           | Inr dialers \<Rightarrow> Inr (dialers,
               \<lparr>ca_dial = Some (u, sintf), ca_name = url_String u, ca_info = info,
                ca_incoming = False, ca_force = False, ca_options = options\<rparr>))))"

end
