(* ===== verification/Listeners.thy ===== *)
theory Listeners
  imports Systems "HOL-Library.Sublist"
begin

text \<open>
  The listeners of src/core (listen in link_tcp.go, link_tls.go, link_unix.go, link_sctp_linux.go and
  link_mpath.go; \<open>Listener.Close\<close> and \<open>links.shutdown\<close> in link.go): each accepts connections in a
  goroutine of its own, which signals its end on a channel and then takes the listener out of the table
  of its link type.  The actor of a link type is busy while \<open>shutdown\<close> goes through its table.
  \<open>Accept\<close> may fail at any time, and does once the socket is closed.
\<close>

section \<open>State\<close>

datatype link_kind = KTcp | KTls | KUnix | KMpath | KSctp

text \<open>The life of a listener: its socket is open but it is not in the table yet; it accepts; \<open>Accept\<close> has
  failed; the channel \<open>closed\<close> is closed; it is out of the table.\<close>

datatype listener_phase = Opened | Accepting | Stopping | Signalled | Deleted

record listener =
  ln_kind :: link_kind
  ln_socket :: bool
  ln_phase :: listener_phase

text \<open>Where \<open>shutdown\<close> is: the link types to come, and inside the first of them the listeners to come and
  the one whose channel it waits for.\<close>

datatype shutdown_at = NotBegun | Before "link_kind list" | Inside link_kind "nat set" "nat option" "link_kind list"

record listeners =
  ls_all :: "nat \<rightharpoonup> listener"
  ls_tables :: "link_kind \<Rightarrow> nat set"
  ls_shutdown :: shutdown_at
  ls_accepted :: "nat list"

definition ls_init :: listeners where
  "ls_init = \<lparr>ls_all = Map.empty, ls_tables = (\<lambda>_. {}), ls_shutdown = NotBegun, ls_accepted = []\<rparr>"

definition shutdown_order :: "link_kind list" where
  "shutdown_order = [KTcp, KTls, KUnix]"

definition busy :: "link_kind \<Rightarrow> listeners \<Rightarrow> bool" where
  "busy k s = (case ls_shutdown s of Inside k' _ _ _ \<Rightarrow> k' = k | _ \<Rightarrow> False)"

definition set_listener :: "nat \<Rightarrow> listener \<Rightarrow> listeners \<Rightarrow> listeners" where
  "set_listener x l s = s\<lparr>ls_all := (ls_all s)(x \<mapsto> l)\<rparr>"

section \<open>Steps\<close>

text \<open>The SCTP listener is never put into its table.\<close>

definition listen_open :: "nat \<Rightarrow> link_kind \<Rightarrow> listeners \<Rightarrow> listeners" where
  "listen_open x k = set_listener x \<lparr>ln_kind = k, ln_socket = True, ln_phase = Opened\<rparr>"

definition listen_register :: "nat \<Rightarrow> listener \<Rightarrow> listeners \<Rightarrow> listeners" where
  "listen_register x l s =
     (let s = set_listener x (l\<lparr>ln_phase := Accepting\<rparr>) s; k = ln_kind l
      in if k = KSctp then s else s\<lparr>ls_tables := (ls_tables s)(k := insert x (ls_tables s k))\<rparr>)"

definition accept_conn :: "nat \<Rightarrow> listeners \<Rightarrow> listeners" where
  "accept_conn x s = s\<lparr>ls_accepted := ls_accepted s @ [x]\<rparr>"

definition accept_fails :: "nat \<Rightarrow> listener \<Rightarrow> listeners \<Rightarrow> listeners" where
  "accept_fails x l = set_listener x (l\<lparr>ln_phase := Stopping\<rparr>)"

text \<open>After the loop the listener is closed and the channel is.\<close>

definition signal_closed :: "nat \<Rightarrow> listener \<Rightarrow> listeners \<Rightarrow> listeners" where
  "signal_closed x l = set_listener x (l\<lparr>ln_socket := False, ln_phase := Signalled\<rparr>)"

definition delete_listener :: "nat \<Rightarrow> listener \<Rightarrow> listeners \<Rightarrow> listeners" where
  "delete_listener x l s =
     (let s = set_listener x (l\<lparr>ln_phase := Deleted\<rparr>) s; k = ln_kind l
      in s\<lparr>ls_tables := (ls_tables s)(k := ls_tables s k - {x})\<rparr>)"

text \<open>\<open>Listener.Close\<close>: closing the socket, then waiting for the channel.\<close>

definition close_socket :: "nat \<Rightarrow> listeners \<Rightarrow> listeners" where
  "close_socket x s = (case ls_all s x of None \<Rightarrow> s | Some l \<Rightarrow> set_listener x (l\<lparr>ln_socket := False\<rparr>) s)"

definition is_signalled :: "nat \<Rightarrow> listeners \<Rightarrow> bool" where
  "is_signalled x s = (case ls_all s x of None \<Rightarrow> False | Some l \<Rightarrow> ln_phase l = Signalled \<or> ln_phase l = Deleted)"

definition at :: "shutdown_at \<Rightarrow> listeners \<Rightarrow> listeners" where
  "at w s = s\<lparr>ls_shutdown := w\<rparr>"

inductive ls_step :: "listeners \<Rightarrow> listeners \<Rightarrow> bool" where
  step_open: "ls_all s x = None \<Longrightarrow> ls_step s (listen_open x k s)"
| step_register: "ls_all s x = Some l \<Longrightarrow> ln_phase l = Opened \<Longrightarrow> ln_kind l = KSctp \<or> \<not> busy (ln_kind l) s \<Longrightarrow>
    ls_step s (listen_register x l s)"
| step_accept: "ls_all s x = Some l \<Longrightarrow> ln_phase l = Accepting \<Longrightarrow> ln_socket l \<Longrightarrow> ls_step s (accept_conn x s)"
| step_fail: "ls_all s x = Some l \<Longrightarrow> ln_phase l = Accepting \<Longrightarrow> ls_step s (accept_fails x l s)"
| step_signal: "ls_all s x = Some l \<Longrightarrow> ln_phase l = Stopping \<Longrightarrow> ls_step s (signal_closed x l s)"
| step_delete: "ls_all s x = Some l \<Longrightarrow> ln_phase l = Signalled \<Longrightarrow> \<not> busy (ln_kind l) s \<Longrightarrow>
    ls_step s (delete_listener x l s)"
| shut_begin: "ls_shutdown s = NotBegun \<Longrightarrow> ls_step s (at (Before shutdown_order) s)"
| shut_enter: "ls_shutdown s = Before (k # ks) \<Longrightarrow> ls_step s (at (Inside k (ls_tables s k) None ks) s)"
| shut_close: "ls_shutdown s = Inside k rest None ks \<Longrightarrow> x \<in> rest \<Longrightarrow>
    ls_step s (at (Inside k (rest - {x}) (Some x) ks) (close_socket x s))"
| shut_wait: "ls_shutdown s = Inside k rest (Some x) ks \<Longrightarrow> is_signalled x s \<Longrightarrow> ls_step s (at (Inside k rest None ks) s)"
| shut_leave: "ls_shutdown s = Inside k {} None ks \<Longrightarrow> ls_step s (at (Before ks) s)"

lemmas listener_defs = set_listener_def listen_open_def listen_register_def accept_conn_def accept_fails_def
  signal_closed_def delete_listener_def close_socket_def at_def

section \<open>The tables hold what runs\<close>

text \<open>A listener is in the table of its type from its registration until it is deleted; what \<open>shutdown\<close> still
  has to close is in the table it goes through, and the socket it waits for is closed.\<close>

definition ls_inv :: "listeners \<Rightarrow> bool" where
  "ls_inv s \<longleftrightarrow> finite (dom (ls_all s))
   \<and> (\<forall>k x. x \<in> ls_tables s k \<longleftrightarrow> (\<exists>l. ls_all s x = Some l \<and> ln_kind l = k \<and> k \<noteq> KSctp
        \<and> ln_phase l \<in> {Accepting, Stopping, Signalled}))
   \<and> (\<forall>x l. ls_all s x = Some l \<longrightarrow> ln_phase l \<in> {Signalled, Deleted} \<longrightarrow> \<not> ln_socket l)
   \<and> (case ls_shutdown s of NotBegun \<Rightarrow> True
      | Before ks \<Rightarrow> suffix ks shutdown_order
      | Inside k rest w ks \<Rightarrow> suffix (k # ks) shutdown_order \<and> rest \<subseteq> ls_tables s k \<and> (\<forall>x. w = Some x \<longrightarrow> x \<in> ls_tables s k))"

lemma ls_inv_init: "ls_inv ls_init"
  by (simp add: ls_inv_def ls_init_def)

lemma ls_inv_step:
  assumes "ls_inv s" "ls_step s t"
  shows "ls_inv t"
  using assms(2,1)
proof (cases rule: ls_step.cases)
  case step_open
  then show ?thesis using assms(1) unfolding ls_inv_def
    by (auto simp: listener_defs split: shutdown_at.splits)
next
  case step_register
  then show ?thesis using assms(1) unfolding ls_inv_def
    by (auto simp: listener_defs Let_def split: shutdown_at.splits)
next
  case step_accept
  then show ?thesis using assms(1) unfolding ls_inv_def
    by (auto simp: listener_defs split: shutdown_at.splits)
next
  case step_fail
  then show ?thesis using assms(1) unfolding ls_inv_def
    by (auto simp: listener_defs split: shutdown_at.splits)
next
  case step_signal
  then show ?thesis using assms(1) unfolding ls_inv_def
    by (auto simp: listener_defs split: shutdown_at.splits)
next
  case step_delete
  then show ?thesis using assms(1) unfolding ls_inv_def
    by (auto simp: listener_defs busy_def Let_def split: shutdown_at.splits)
next
  case shut_begin
  then show ?thesis using assms(1) unfolding ls_inv_def
    by (auto simp: listener_defs)
next
  case shut_enter
  then show ?thesis using assms(1) unfolding ls_inv_def
    by (auto simp: listener_defs)
next
  case shut_close
  then show ?thesis using assms(1) unfolding ls_inv_def
    by (auto simp: listener_defs split: option.splits)
next
  case shut_wait
  then show ?thesis using assms(1) unfolding ls_inv_def
    by (auto simp: listener_defs)
next
  case shut_leave
  then show ?thesis using assms(1) unfolding ls_inv_def
    by (auto simp: listener_defs dest: suffix_ConsD)
qed

interpretation listeners_sys: invariant_system "\<lambda>s. s = ls_init" ls_step ls_inv
  by unfold_locales (auto simp: ls_inv_init intro: ls_inv_step)

section \<open>The shutdown ends\<close>

text \<open>What a run of the shutdown leaves alone: the listeners of the types it does not go through.\<close>

definition untouched :: "listeners \<Rightarrow> listeners \<Rightarrow> bool" where
  "untouched s t \<longleftrightarrow> (\<forall>x l. ls_all s x = Some l \<longrightarrow> ln_kind l \<notin> set shutdown_order \<longrightarrow> ls_all t x = Some l)"

lemma untouched_refl: "untouched s s"
  by (simp add: untouched_def)

lemma untouched_trans: "untouched s t \<Longrightarrow> untouched t u \<Longrightarrow> untouched s u"
  by (simp add: untouched_def)

definition leads :: "listeners \<Rightarrow> shutdown_at \<Rightarrow> bool" where
  "leads s w \<longleftrightarrow> (\<exists>t. ls_step\<^sup>*\<^sup>* s t \<and> untouched s t \<and> ls_shutdown t = w)"

lemma leads_refl: "ls_shutdown s = w \<Longrightarrow> leads s w"
  unfolding leads_def using untouched_refl by blast

lemma leads_step: "ls_step s t \<Longrightarrow> untouched s t \<Longrightarrow> leads t w \<Longrightarrow> leads s w"
  unfolding leads_def using converse_rtranclp_into_rtranclp [of ls_step] untouched_trans by metis

lemma leads_trans:
  assumes "leads s w" "ls_inv s" "\<And>t. ls_inv t \<Longrightarrow> ls_shutdown t = w \<Longrightarrow> leads t w'"
  shows "leads s w'"
proof -
  obtain t where t: "ls_step\<^sup>*\<^sup>* s t" "untouched s t" "ls_shutdown t = w" using assms(1) leads_def by auto
  then have "leads t w'" using assms(2,3) listeners_sys.steps_inv by blast
  then obtain u where "ls_step\<^sup>*\<^sup>* t u" "untouched t u" "ls_shutdown u = w'" using leads_def by auto
  moreover from this t have "ls_step\<^sup>*\<^sup>* s u" "untouched s u" by (auto intro: untouched_trans)
  ultimately show ?thesis unfolding leads_def by blast
qed

text \<open>The listener whose channel the shutdown waits for can always run to the end of its loop.\<close>

lemma signalled_leads:
  assumes "ls_shutdown s = Inside k rest (Some x) ks" "is_signalled x s"
  shows "leads s (Inside k rest None ks)"
  by (rule leads_step [OF shut_wait [OF assms]]) (auto simp: untouched_def at_def intro: leads_refl)

lemma stopping_leads:
  assumes "ls_shutdown s = Inside k rest (Some x) ks" "ls_all s x = Some l" "ln_phase l = Stopping"
    "ln_kind l \<in> set shutdown_order"
  shows "leads s (Inside k rest None ks)"
  by (rule leads_step [OF step_signal [OF assms(2,3)]])
     (use assms in \<open>auto simp: untouched_def signal_closed_def set_listener_def is_signalled_def intro!: signalled_leads [of _ _ _ x]\<close>)

lemma accepting_leads:
  assumes "ls_shutdown s = Inside k rest (Some x) ks" "ls_all s x = Some l" "ln_phase l = Accepting"
    "ln_kind l \<in> set shutdown_order"
  shows "leads s (Inside k rest None ks)"
  by (rule leads_step [OF step_fail [OF assms(2,3)]])
     (use assms in \<open>auto simp: untouched_def accept_fails_def set_listener_def intro!: stopping_leads [of _ _ _ x]\<close>)

lemma suffix_member: "suffix (k # ks) xs \<Longrightarrow> k \<in> set xs"
  by (auto simp: suffix_def)

lemma wait_leads:
  assumes "ls_inv s" "ls_shutdown s = Inside k rest (Some x) ks"
  shows "leads s (Inside k rest None ks)"
proof -
  have "suffix (k # ks) shutdown_order" "x \<in> ls_tables s k" using assms by (auto simp: ls_inv_def)
  moreover from this(2) obtain l where l: "ls_all s x = Some l" "ln_kind l = k"
      "ln_phase l \<in> {Accepting, Stopping, Signalled}"
    using assms(1) by (auto simp: ls_inv_def)
  ultimately show ?thesis
    using assms(2) signalled_leads stopping_leads accepting_leads suffix_member by (fastforce simp: is_signalled_def)
qed

lemma table_leads:
  "finite rest \<Longrightarrow> ls_inv s \<Longrightarrow> ls_shutdown s = Inside k rest None ks \<Longrightarrow> leads s (Before ks)"
proof (induction rest arbitrary: s rule: finite_psubset_induct)
  case (psubset rest)
  show ?case
  proof (cases "rest = {}")
    case True
    then have "ls_step s (at (Before ks) s)" using psubset.prems by (auto intro: shut_leave)
    then show ?thesis by (rule leads_step) (auto simp: untouched_def at_def intro: leads_refl)
  next
    case False
    then obtain x where x: "x \<in> rest" by blast
    let ?t = "at (Inside k (rest - {x}) (Some x) ks) (close_socket x s)"
    have step: "ls_step s ?t" using psubset.prems x by (auto intro: shut_close)
    then have inv: "ls_inv ?t" using psubset.prems ls_inv_step by blast
    have "suffix (k # ks) shutdown_order" "x \<in> ls_tables s k" using psubset.prems x by (auto simp: ls_inv_def)
    then have "k \<in> set shutdown_order" "\<exists>l. ls_all s x = Some l \<and> ln_kind l = k"
      using psubset.prems(1) by (auto simp: ls_inv_def intro: suffix_member)
    then have "untouched s ?t" by (auto simp: untouched_def listener_defs)
    moreover have "leads ?t (Inside k (rest - {x}) None ks)" using wait_leads [OF inv] by (simp add: at_def)
    then have "leads ?t (Before ks)"
      by (rule leads_trans [OF _ inv]) (use x psubset.IH [of "rest - {x}"] in blast)
    ultimately show ?thesis using step leads_step by blast
  qed
qed

lemma order_leads: "ls_inv s \<Longrightarrow> ls_shutdown s = Before ks \<Longrightarrow> leads s (Before [])"
proof (induction ks arbitrary: s)
  case (Cons k ks)
  let ?t = "at (Inside k (ls_tables s k) None ks) s"
  have step: "ls_step s ?t" using Cons.prems by (auto intro: shut_enter)
  then have inv: "ls_inv ?t" using Cons.prems ls_inv_step by blast
  have "finite (ls_tables s k)" using Cons.prems(1) by (auto simp: ls_inv_def dom_def intro: rev_finite_subset)
  then have "leads ?t (Before ks)" using table_leads inv by (auto simp: at_def)
  then have "leads ?t (Before [])" using leads_trans inv Cons.IH by blast
  moreover have "untouched s ?t" by (simp add: untouched_def at_def)
  ultimately show ?case using step leads_step by blast
qed (rule leads_refl)

lemma shutdown_leads:
  assumes "ls_inv s" "ls_shutdown s \<noteq> NotBegun"
  shows "leads s (Before [])"
proof (cases "ls_shutdown s")
  case (Inside k rest w ks)
  have "finite (ls_tables s k)" using assms(1) by (auto simp: ls_inv_def dom_def intro: rev_finite_subset)
  then have fin: "finite rest" using Inside assms(1) by (auto simp: ls_inv_def intro: finite_subset)
  have "leads s (Inside k rest None ks)"
    using Inside wait_leads [OF assms(1)] by (cases w) (auto intro: leads_refl)
  then have "leads s (Before ks)" using leads_trans assms(1) table_leads fin by blast
  then show ?thesis using leads_trans assms(1) order_leads by blast
qed (use assms order_leads in auto)

section \<open>A listener in the tables is closed\<close>

text \<open>Of a listener that was in the table of a type the shutdown goes through when it began: its channel is
  closed, or its turn is still to come.\<close>

definition to_come :: "nat \<Rightarrow> link_kind \<Rightarrow> shutdown_at \<Rightarrow> bool" where
  "to_come x k w = (case w of NotBegun \<Rightarrow> True | Before ks \<Rightarrow> k \<in> set ks
     | Inside k' rest v ks \<Rightarrow> k \<in> set ks \<or> k' = k \<and> (x \<in> rest \<or> v = Some x))"

definition closing :: "nat \<Rightarrow> link_kind \<Rightarrow> listeners \<Rightarrow> bool" where
  "closing x k s \<longleftrightarrow> ls_inv s \<and> k \<in> set shutdown_order
   \<and> (is_signalled x s \<or> x \<in> ls_tables s k \<and> to_come x k (ls_shutdown s))"

lemma is_signalled_step: "is_signalled x s \<Longrightarrow> ls_step s t \<Longrightarrow> is_signalled x t"
  by (erule ls_step.cases) (auto simp: is_signalled_def listener_defs Let_def split: option.splits)

lemma table_step:
  assumes "x \<in> ls_tables s k" "ls_step s t"
  shows "is_signalled x t \<or> x \<in> ls_tables t k"
  using assms(2,1)
  by cases (auto simp: is_signalled_def listener_defs Let_def split: option.splits)

lemma to_come_step:
  assumes "x \<in> ls_tables s k" "to_come x k (ls_shutdown s)" "ls_step s t" "k \<in> set shutdown_order"
  shows "is_signalled x t \<or> to_come x k (ls_shutdown t)"
  using assms(3,1,2,4)
proof cases
  case (shut_wait k' rest y ks)
  then show ?thesis using assms(2) by (cases "y = x") (auto simp: to_come_def at_def is_signalled_def)
qed (auto simp: to_come_def listener_defs Let_def split: option.splits shutdown_at.splits)

lemma closing_step: "closing x k s \<Longrightarrow> ls_step s t \<Longrightarrow> closing x k t"
  unfolding closing_def using ls_inv_step is_signalled_step table_step to_come_step by meson

lemma closing_steps: "ls_step\<^sup>*\<^sup>* s t \<Longrightarrow> closing x k s \<Longrightarrow> closing x k t"
  by (induction rule: rtranclp_induct) (auto intro: closing_step)

text \<open>Once the channel is closed the listener accepts nothing more.\<close>

lemma is_signalled_silent_step:
  "ls_step s t \<Longrightarrow> is_signalled x s \<Longrightarrow> filter ((=) x) (ls_accepted t) = filter ((=) x) (ls_accepted s)"
  by (erule ls_step.cases) (auto simp: is_signalled_def listener_defs Let_def split: option.splits)

lemma is_signalled_steps:
  "ls_step\<^sup>*\<^sup>* s t \<Longrightarrow> is_signalled x s \<Longrightarrow>
    is_signalled x t \<and> filter ((=) x) (ls_accepted t) = filter ((=) x) (ls_accepted s)"
  by (induction rule: rtranclp_induct) (auto simp: is_signalled_silent_step intro: is_signalled_step)

lemma is_signalled_socket: "ls_inv s \<Longrightarrow> is_signalled x s \<Longrightarrow> \<exists>l. ls_all s x = Some l \<and> \<not> ln_socket l"
  by (fastforce simp: is_signalled_def ls_inv_def split: option.splits)

section \<open>Properties\<close>

text \<open>A run to try them on: one listener is opened and registered, and the shutdown begins.\<close>

definition one_listener :: "link_kind \<Rightarrow> listeners" where
  "one_listener k = listen_register 0 \<lparr>ln_kind = k, ln_socket = True, ln_phase = Opened\<rparr> (listen_open 0 k ls_init)"

lemma one_listener_simps:
  "ls_all (one_listener k) 0 = Some \<lparr>ln_kind = k, ln_socket = True, ln_phase = Accepting\<rparr>"
  "ls_shutdown (one_listener k) = NotBegun"
  "k \<noteq> KSctp \<Longrightarrow> 0 \<in> ls_tables (one_listener k) k"
  "ls_all (one_listener k) (Suc n) = None"
  by (simp_all add: one_listener_def listener_defs ls_init_def Let_def)

lemma one_listener_reached: "reach (\<lambda>s. s = ls_init) ls_step (one_listener k)"
proof -
  have "ls_step ls_init (listen_open 0 k ls_init)" by (rule step_open) (simp add: ls_init_def)
  moreover have "ls_step (listen_open 0 k ls_init) (one_listener k)"
    unfolding one_listener_def by (rule step_register) (simp_all add: listener_defs ls_init_def busy_def)
  ultimately show ?thesis
    using reach_init [of "\<lambda>s. s = ls_init"] reach_step [of "\<lambda>s. s = ls_init" ls_step] by blast
qed

lemma shutdown_begins: "ls_step (one_listener k) (at (Before shutdown_order) (one_listener k))"
  by (rule shut_begin) (simp add: one_listener_simps)

lemma shutdown_begun_reached:
  "reach (\<lambda>s. s = ls_init) ls_step (at (Before shutdown_order) (one_listener k))"
  using one_listener_reached shutdown_begins by (rule reach_step)

text \<open>C11: \<open>links.shutdown\<close> never waits for ever: from any state it has reached, however the goroutines of the
  listeners were scheduled before, it can be run to its end (the goroutine whose channel it waits for is not
  blocked by the actor it holds, since the channel is closed before the table is touched).\<close>

theorem shutdown_ends:
  assumes "reach (\<lambda>s. s = ls_init) ls_step s" "ls_shutdown s \<noteq> NotBegun"
  shows "\<exists>t. ls_step\<^sup>*\<^sup>* s t \<and> ls_shutdown t = Before []"
  using shutdown_leads [OF listeners_sys.reach_inv [OF assms(1)] assms(2)] unfolding leads_def by blast

lemma shutdown_ends_witness:
  "\<exists>t. ls_step\<^sup>*\<^sup>* (at (Before shutdown_order) (one_listener KTls)) t \<and> ls_shutdown t = Before []"
  by (rule shutdown_ends [OF shutdown_begun_reached]) (simp add: at_def)

text \<open>C12: A TCP, TLS or unix listener that was in its table when the shutdown began has its socket closed when
  the shutdown is over, and from then on accepts nothing.\<close>

theorem shutdown_silences:
  assumes "reach (\<lambda>s. s = ls_init) ls_step s" "ls_shutdown s = NotBegun"
    and "k = KTcp \<or> k = KTls \<or> k = KUnix" "x \<in> ls_tables s k"
    and "ls_step\<^sup>*\<^sup>* s t" "ls_shutdown t = Before []" "ls_step\<^sup>*\<^sup>* t u"
  shows "filter ((=) x) (ls_accepted u) = filter ((=) x) (ls_accepted t)
    \<and> (\<exists>l. ls_all u x = Some l \<and> \<not> ln_socket l)"
proof -
  have inv: "ls_inv s" using assms(1) by (rule listeners_sys.reach_inv)
  then have "closing x k s" using assms(2-4) by (auto simp: closing_def to_come_def shutdown_order_def)
  then have "closing x k t" using assms(5) closing_steps by blast
  then have "is_signalled x t" using assms(6) by (auto simp: closing_def to_come_def)
  moreover have "ls_inv u" using assms(5,7) inv listeners_sys.steps_inv by (meson rtranclp_trans)
  ultimately show ?thesis using is_signalled_steps [OF assms(7)] is_signalled_socket by blast
qed

lemma shutdown_silences_witness:
  "\<exists>t. ls_step\<^sup>*\<^sup>* (one_listener KTcp) t \<and> ls_shutdown t = Before []
    \<and> (\<exists>l. ls_all t 0 = Some l \<and> \<not> ln_socket l)"
proof -
  have "ls_inv (at (Before shutdown_order) (one_listener KTcp))"
    by (rule listeners_sys.reach_inv [OF shutdown_begun_reached])
  then have "leads (at (Before shutdown_order) (one_listener KTcp)) (Before [])"
    by (rule shutdown_leads) (simp add: at_def)
  then obtain t where t: "ls_step\<^sup>*\<^sup>* (one_listener KTcp) t" "ls_shutdown t = Before []"
    unfolding leads_def using converse_rtranclp_into_rtranclp [of ls_step, OF shutdown_begins] by blast
  then show ?thesis
    using shutdown_silences [OF one_listener_reached one_listener_simps(2) _ _ t(1,2), of KTcp 0]
    by (auto simp: one_listener_simps)
qed

text \<open>C38: The shutdown does not close the multipath and SCTP listeners: one that accepts when the shutdown begins
  may still accept connections when it is over.\<close>

theorem mpath_sctp_outlive_shutdown:
  assumes "reach (\<lambda>s. s = ls_init) ls_step s" "ls_shutdown s \<noteq> NotBegun"
    and "ls_all s x = Some \<lparr>ln_kind = k, ln_socket = True, ln_phase = Accepting\<rparr>" "k = KMpath \<or> k = KSctp"
  shows "\<exists>t. ls_step\<^sup>*\<^sup>* s t \<and> ls_shutdown t = Before [] \<and> ls_step t (accept_conn x t)"
proof -
  obtain t where t: "ls_step\<^sup>*\<^sup>* s t" "untouched s t" "ls_shutdown t = Before []"
    using shutdown_leads [OF listeners_sys.reach_inv [OF assms(1)] assms(2)] unfolding leads_def by blast
  then have "ls_all t x = Some \<lparr>ln_kind = k, ln_socket = True, ln_phase = Accepting\<rparr>"
    using assms(3,4) by (auto simp: untouched_def shutdown_order_def)
  then have "ls_step t (accept_conn x t)" by (rule step_accept) simp_all
  then show ?thesis using t by blast
qed

lemma mpath_sctp_outlive_shutdown_witness:
  "\<exists>t. ls_step\<^sup>*\<^sup>* (at (Before shutdown_order) (one_listener KMpath)) t \<and> ls_shutdown t = Before []
    \<and> ls_step t (accept_conn 0 t)"
  by (rule mpath_sctp_outlive_shutdown [OF shutdown_begun_reached]) (auto simp: at_def one_listener_simps)

end
