(* ===== verification/Link_Listen.thy ===== *)
theory Link_Listen
  imports Dialer Listeners
begin

text \<open>
  \<open>listen\<close> of every link type (link_tcp.go, link_tls.go, link_unix.go, link_sctp_linux.go, link_mpath.go and its
  Android variant): the address a socket is opened on, whether the listener is entered into its table, and
  the arguments of \<open>links.create\<close> for what it accepts.  The goroutine that accepts is that of theory
  Listeners.  Also the dialers of a multipath connection.
\<close>

section \<open>Listening\<close>

record ('a, 'c) listening =
  lg_kind :: link_kind
  lg_address :: 'a
  lg_registered :: bool
  lg_accept :: "'c \<Rightarrow> create_args outcome"

text \<open>TCP and TLS; \<open>can_open network address\<close> says whether the socket can be opened.  A TLS listener wraps a TCP
  listener; the addresses of both ends of a connection decide its link information.\<close>

definition tcp_listen ::
  "(string \<Rightarrow> string \<Rightarrow> bool) \<Rightarrow> (bytes \<Rightarrow> string) \<Rightarrow> url \<Rightarrow> string \<Rightarrow> (string, tcp_addr \<times> tcp_addr) listening option" where
  "tcp_listen can_open show_ip u sintf =
     (let hostport = listen_hostport u sintf
      in if \<not> can_open ''tcp'' hostport then None
         else Some \<lparr>lg_kind = KTcp, lg_address = hostport, lg_registered = True,
                    lg_accept = (\<lambda>(laddr, raddr). Ret (tcp_accept show_ip u sintf laddr raddr))\<rparr>)"

definition tls_listen ::
  "(string \<Rightarrow> string \<Rightarrow> bool) \<Rightarrow> (bytes \<Rightarrow> string) \<Rightarrow> url \<Rightarrow> string \<Rightarrow> (string, tcp_addr \<times> tcp_addr) listening option" where
  "tls_listen can_open show_ip u sintf =
     (let hostport = listen_hostport u sintf
      in if \<not> can_open ''tcp'' hostport then None
         else Some \<lparr>lg_kind = KTls, lg_address = hostport, lg_registered = True,
                    lg_accept = (\<lambda>(laddr, raddr). Ret (tls_accept show_ip u sintf laddr raddr))\<rparr>)"

definition unix_listen :: "(string \<Rightarrow> string \<Rightarrow> bool) \<Rightarrow> url \<Rightarrow> (string, unit) listening option" where
  "unix_listen can_open u =
     (if \<not> can_open ''unix'' (url_Path u) then None
      else Some \<lparr>lg_kind = KUnix, lg_address = url_Path u, lg_registered = True, lg_accept = (\<lambda>_. Ret (unix_accept u))\<rparr>)"

text \<open>SCTP: the listener, and whether a socket was left open without one, which is the case when its events cannot be
  set.  The entry into the table is commented out.\<close>

definition sctp_listen ::
  "(string \<Rightarrow> tcp_addr option) \<Rightarrow> (sctp_addr \<Rightarrow> bool) \<Rightarrow> bool \<Rightarrow> (tcp_addr list \<Rightarrow> string) \<Rightarrow> url \<Rightarrow> string
    \<Rightarrow> ((sctp_addr, tcp_addr list) listening option \<times> bool) outcome" where
  "sctp_listen resolve can_open set_events marshal u sintf =
     bind_outcome (sctp_getAddress resolve (url_Host u)) (\<lambda>addr. Ret (
       if \<not> can_open addr then (None, False)
       else if \<not> set_events then (None, True)
       else (Some \<lparr>lg_kind = KSctp, lg_address = addr, lg_registered = False, lg_accept = sctp_accept marshal u sintf\<rparr>, False)))"

definition mpath_listen ::
  "(string \<Rightarrow> tcp_addr option) \<Rightarrow> (string \<Rightarrow> bool) \<Rightarrow> (bytes \<Rightarrow> string) \<Rightarrow> url \<Rightarrow> string
    \<Rightarrow> (string list, tcp_addr) listening option outcome" where
  "mpath_listen resolve can_listen show_ip u sintf =
     bind_outcome (listenFor resolve can_listen u sintf) (\<lambda>r. Ret (case r of Inl _ \<Rightarrow> None
       | Inr addrs \<Rightarrow> Some \<lparr>lg_kind = KMpath, lg_address = addrs, lg_registered = True,
                           lg_accept = (\<lambda>raddr. Ret (mpath_accept show_ip u sintf raddr))\<rparr>))"

text \<open>The Android variant has its own copies.\<close>

definition android_listenFor ::
  "(string \<Rightarrow> tcp_addr option) \<Rightarrow> (string \<Rightarrow> bool) \<Rightarrow> url \<Rightarrow> string \<Rightarrow> (mpath_error + string list) outcome" where
  "android_listenFor resolve can_listen u sintf =
     bind_outcome (mpath_hosts u) (\<lambda>hosts. Ret (
       let localTargets = local_targets resolve sintf hosts
       in if localTargets = [] then Inl NoTargets else Inr (filter can_listen localTargets)))"

definition android_listen ::
  "(string \<Rightarrow> tcp_addr option) \<Rightarrow> (string \<Rightarrow> bool) \<Rightarrow> (bytes \<Rightarrow> string) \<Rightarrow> url \<Rightarrow> string
    \<Rightarrow> (string list, tcp_addr) listening option outcome" where
  "android_listen resolve can_listen show_ip u sintf =
     bind_outcome (android_listenFor resolve can_listen u sintf) (\<lambda>r. Ret (case r of Inl _ \<Rightarrow> None
       | Inr addrs \<Rightarrow> Some \<lparr>lg_kind = KMpath, lg_address = addrs, lg_registered = True,
                           lg_accept = (\<lambda>addr. Ret
                             \<lparr>ca_dial = None, ca_name = ''mpath://'' @ TCPAddr_String show_ip addr,
                              ca_info = linkInfoFor ''mpath'' sintf (before_zone (show_ip (ta_IP addr))),
                              ca_incoming = True, ca_force = IsLinkLocalUnicast (ta_IP addr),
                              ca_options = linkOptionsForListener u\<rparr>)\<rparr>))"

text \<open>A listener enters the system of theory Listeners in two steps, the second of which its table has to allow.\<close>

definition listen_starts :: "nat \<Rightarrow> ('a, 'c) listening \<Rightarrow> listeners \<Rightarrow> listeners" where
  "listen_starts x g s =
     listen_register x \<lparr>ln_kind = lg_kind g, ln_socket = True, ln_phase = Opened\<rparr> (listen_open x (lg_kind g) s)"

text \<open>\<open>getAddr\<close>: the address of the listener that the iteration over the table comes to last.\<close>

definition getAddr :: "'a list \<Rightarrow> 'a option" where
  "getAddr addrs = (if addrs = [] then None else Some (last addrs))"

section \<open>The dialers of a multipath connection\<close>

record targeted_dialer =
  tg_local :: tcp_addr
  tg_remote :: tcp_addr

definition newOutboundDialer :: "bytes \<Rightarrow> tcp_addr \<Rightarrow> targeted_dialer" where
  "newOutboundDialer inputLocalAddr inputRemoteAddr =
     \<lparr>tg_local = \<lparr>ta_IP = inputLocalAddr, ta_Port = 0, ta_Zone = ''''\<rparr>, tg_remote = inputRemoteAddr\<rparr>"

definition targeted_DialContext :: "(bytes \<Rightarrow> string) \<Rightarrow> (tcp_addr \<Rightarrow> string \<Rightarrow> 'e + 'c) \<Rightarrow> targeted_dialer \<Rightarrow> 'e + 'c" where
  "targeted_DialContext show_ip connect td = connect (tg_local td) (TCPAddr_String show_ip (tg_remote td))"

definition targeted_Label :: "(bytes \<Rightarrow> string) \<Rightarrow> targeted_dialer \<Rightarrow> string" where
  "targeted_Label show_ip td = TCPAddr_String show_ip (tg_local td) @ ''|'' @ TCPAddr_String show_ip (tg_remote td)"

section \<open>What is listened on\<close>

text \<open>A listener that is started is in its table exactly when its \<open>listen\<close> entered it.\<close>

lemma listen_starts_registered:
  assumes "ls_inv s" "ls_all s x = None" "lg_registered g \<longleftrightarrow> lg_kind g \<noteq> KSctp"
  shows "x \<in> ls_tables (listen_starts x g s) (lg_kind g) \<longleftrightarrow> lg_registered g"
  using assms by (auto simp: listen_starts_def listener_defs Let_def ls_inv_def)

lemma listens_register:
  "tcp_listen can_open show_ip u sintf = Some g \<Longrightarrow> lg_kind g = KTcp \<and> lg_registered g"
  "tls_listen can_open show_ip u sintf = Some g \<Longrightarrow> lg_kind g = KTls \<and> lg_registered g"
  "unix_listen can_open u = Some g' \<Longrightarrow> lg_kind g' = KUnix \<and> lg_registered g'"
  "sctp_listen resolve can_open' set_events marshal u sintf = Ret (Some g'', leaked) \<Longrightarrow>
     lg_kind g'' = KSctp \<and> \<not> lg_registered g'' \<and> \<not> leaked"
  by (auto simp: tcp_listen_def tls_listen_def unix_listen_def sctp_listen_def Let_def go_simps split: if_splits)

text \<open>A multipath listener for which no address can be listened on is started all the same, on none; that of
  Android is the same function.\<close>

lemma mpath_listens_on_nothing:
  assumes "mpath_listen resolve (\<lambda>_. False) show_ip u sintf = Ret (Some g)"
  shows "lg_address g = []"
  using assms by (cases "mpath_hosts u") (auto simp: mpath_listen_def listenFor_def Let_def split: if_splits)

lemma android_listens_alike: "android_listen = mpath_listen"
  unfolding fun_eq_iff android_listen_def mpath_listen_def android_listenFor_def listenFor_def mpath_accept_def by simp

text \<open>An SCTP listener whose events cannot be set leaves its socket open without a listener.\<close>

lemma sctp_listen_leaks:
  "sctp_listen resolve can_open set_events marshal u sintf = Ret (None, True) \<longleftrightarrow>
    (\<exists>addr. sctp_getAddress resolve (url_Host u) = Ret addr \<and> can_open addr \<and> \<not> set_events)"
  by (auto simp: sctp_listen_def go_simps)

text \<open>The link information of an accepted connection is that of a dial to the same address over the same link type:
  the registry recognises it.\<close>

lemma accepted_is_dialled:
  assumes "tcp_dial show_ip resolve interfaces links u options sintf = ConnectTo local addr args"
    and "resolve (url_Host u) = Some dst" "\<not> IsLinkLocalUnicast (ta_IP dst)"
  shows "ca_info (tcp_accept show_ip v sintf l dst) = ca_info args"
proof -
  have "dialerFor interfaces dst sintf = Inr (d, lo) \<Longrightarrow> d = dst" for d lo
    using assms(3) by (auto simp: dialerFor_def Let_def split: if_splits option.splits)
  then show ?thesis using assms
    by (auto simp: tcp_dial_def stream_dial_def tcp_accept_def stream_accept_def tcpIDFor_def Let_def
        split: sum.splits option.splits if_splits)
qed

end
