(* ===== verification/Dialer_Props.thy ===== *)
theory Dialer_Props
  imports Dialer
begin

text \<open>
  Which source address a dial uses, where a multipath dial goes, and what an SCTP dial does to an IPv6
  peer.
\<close>

section \<open>The source address\<close>

text \<open>The reference: an address is suitable when it can be routed, the destination is of the same family, and
  the two agree in being global or in being link-local.\<close>

definition suitable :: "bytes \<Rightarrow> bytes \<Rightarrow> bool" where
  "suitable dst src \<longleftrightarrow> (IsGlobalUnicast src \<or> IsLinkLocalUnicast src)
     \<and> (IsGlobalUnicast src = IsGlobalUnicast dst \<or> IsLinkLocalUnicast src = IsLinkLocalUnicast dst)
     \<and> ((To4 src = None) = (To4 dst = None))"

lemma source_loop_find: "source_loop dst n i addrs = find (suitable dst) (List.map_filter id addrs)"
  by (induction dst n i addrs rule: source_loop.induct) (auto simp: suitable_def Let_def)

lemma global_not_local: "IsGlobalUnicast ip \<Longrightarrow> \<not> IsLinkLocalUnicast ip"
  by (simp add: IsGlobalUnicast_def)

lemma suitable_class:
  assumes "IsGlobalUnicast dst \<or> IsLinkLocalUnicast dst"
  shows "suitable dst src \<longleftrightarrow> (IsGlobalUnicast src \<or> IsLinkLocalUnicast src)
     \<and> IsGlobalUnicast src = IsGlobalUnicast dst \<and> (To4 src = None) = (To4 dst = None)"
  using assms global_not_local [of src] global_not_local [of dst] by (auto simp: suitable_def)

lemma find_SomeD: "find P xs = Some x \<Longrightarrow> x \<in> set xs \<and> P x"
  by (auto simp: find_Some_iff)

text \<open>C39: the source of a connection on a named interface: the loop over the interface's addresses finds the
  first suitable one, and for a destination that is global or link-local that is the first
  routable one of the same kind and family; the dialer exists exactly when the interface is
  listed, up, and has such an address, and a link-local destination then gets the interface as
  its zone.\<close>

theorem dialer_source:
  assumes "sintf \<noteq> []" and "IsGlobalUnicast (ta_IP dst) \<or> IsLinkLocalUnicast (ta_IP dst)"
  shows "dialerFor (Some ifs) dst sintf = Inr (dst', Some src) \<longleftrightarrow>
    (\<exists>ief addrs. find (\<lambda>ie. if_Name ie = sintf) ifs = Some ief \<and> if_up ief \<and> if_addrs ief = Some addrs
       \<and> find (\<lambda>a. (IsGlobalUnicast a \<or> IsLinkLocalUnicast a)
            \<and> IsGlobalUnicast a = IsGlobalUnicast (ta_IP dst) \<and> (To4 a = None) = (To4 (ta_IP dst) = None))
            (List.map_filter id addrs) = Some (ta_IP src)
       \<and> src = \<lparr>ta_IP = ta_IP src, ta_Port = 0, ta_Zone = sintf\<rparr>
       \<and> dst' = (if IsLinkLocalUnicast (ta_IP dst) then dst\<lparr>ta_Zone := sintf\<rparr> else dst))"
proof -
  have eq: "suitable (ta_IP dst) = (\<lambda>a. (IsGlobalUnicast a \<or> IsLinkLocalUnicast a)
      \<and> IsGlobalUnicast a = IsGlobalUnicast (ta_IP dst) \<and> (To4 a = None) = (To4 (ta_IP dst) = None))"
    using suitable_class [OF assms(2)] by (simp add: fun_eq_iff)
  have ip: "ta_IP (if b then dst\<lparr>ta_Zone := sintf\<rparr> else dst) = ta_IP dst" for b by simp
  show ?thesis
    using assms(1)
    by (auto simp: dialerFor_def Let_def source_loop_find ip simp flip: eq split: option.splits if_splits)
qed

definition test_ifs :: "iface list" where
  "test_ifs = [\<lparr>if_Name = ''eth0'', if_up = True,
     if_addrs = Some [Some [127, 0, 0, 1], None, Some [169, 254, 0, 1], Some [10, 0, 0, 1], Some [10, 0, 0, 2]]\<rparr>]"

theorem dialer_source_witness:
  "dialerFor (Some test_ifs) \<lparr>ta_IP = [8, 8, 8, 8], ta_Port = 1, ta_Zone = ''''\<rparr> ''eth0'' =
     Inr (\<lparr>ta_IP = [8, 8, 8, 8], ta_Port = 1, ta_Zone = ''''\<rparr>,
          Some \<lparr>ta_IP = [10, 0, 0, 1], ta_Port = 0, ta_Zone = ''eth0''\<rparr>)"
  by (subst dialer_source)
    (simp_all add: test_ifs_def IsGlobalUnicast_def IsLinkLocalUnicast_def IsUnspecified_def IsLoopback_def
       IsMulticast_def ip_class_def To4_def List.map_filter_def)

section \<open>Multipath\<close>

lemma remote_targets_in:
  "t \<in> set (remote_targets show_ip resolve links sintfs hosts) \<longleftrightarrow>
     (\<exists>host\<in>set hosts. \<exists>dst. resolve host = Some dst
        \<and> \<not> isConnectedTo links (linkInfoFor ''tcp'' sintfs (TCPAddr_String show_ip dst))
        \<and> (if IsLinkLocalUnicast (ta_IP dst) then sintfs \<noteq> [] \<and> t = dst\<lparr>ta_Zone := sintfs\<rparr> else t = dst))"
  by (induction hosts) (auto simp: Let_def split: option.splits if_splits)

lemma set_map_filter_id: "x \<in> set (List.map_filter id xs) \<longleftrightarrow> Some x \<in> set xs"
  by (induction xs) (auto simp: List.map_filter_simps split: option.splits)

lemma interface_dialer_in:
  assumes "(src, t) \<in> set (interface_dialer ifs dst sintf)"
  shows "t = dst \<and> suitable (ta_IP dst) src \<and> (\<exists>ief\<in>set ifs. if_Name ief = sintf \<and> if_up ief
     \<and> (\<exists>addrs. if_addrs ief = Some addrs \<and> Some src \<in> set addrs))"
proof -
  obtain ief where f: "find (\<lambda>ie. if_Name ie = sintf) ifs = Some ief"
    using assms by (cases "find (\<lambda>ie. if_Name ie = sintf) ifs") (simp_all add: interface_dialer_def)
  then have up: "if_up ief" using assms by (cases "if_up ief") (simp_all add: interface_dialer_def)
  obtain addrs where a: "if_addrs ief = Some addrs"
    using assms f up by (cases "if_addrs ief") (simp_all add: interface_dialer_def)
  have src: "find (suitable (ta_IP dst)) (List.map_filter id addrs) = Some src" and t: "t = dst"
    using assms f up a
    by (cases "find (suitable (ta_IP dst)) (List.map_filter id addrs)";
      simp add: interface_dialer_def source_loop_find)+
  show ?thesis
    using find_SomeD [OF f] find_SomeD [OF src] up a t by (auto simp: set_map_filter_id)
qed

text \<open>where a multipath dial goes: every path leads to a resolved host of the URL that has no TCP link yet,
  from a suitable address of one of the named interfaces, which is up; without interfaces there is
  one path for each such host, but none for a link-local one, even when the URL gives its zone.\<close>

theorem mpath_paths:
  assumes "connFor show_ip resolve ifs links u sintfs = Ret (Inr dialers)"
  shows "(\<forall>(src, t)\<in>set dialers. (\<exists>host dst. resolve host = Some dst \<and> ta_IP t = ta_IP dst
        \<and> ta_Port t = ta_Port dst
        \<and> \<not> isConnectedTo links (linkInfoFor ''tcp'' sintfs (TCPAddr_String show_ip dst)))
      \<and> (sintfs \<noteq> [] \<longrightarrow> suitable (ta_IP t) src \<and> (\<exists>ief\<in>set ifs. if_Name ief \<in> set (Split (CHR '','') sintfs) \<and> if_up ief))
      \<and> (IsLinkLocalUnicast (ta_IP t) \<longrightarrow> sintfs \<noteq> [] \<and> ta_Zone t = sintfs))
    \<and> dialers \<noteq> []"
proof -
  obtain hosts where
    tg: "remote_targets show_ip resolve links sintfs hosts \<noteq> []" and ne: "dialers \<noteq> []" and
    ds: "dialers = (if sintfs \<noteq> []
      then concat (map (\<lambda>dst. concat (map (interface_dialer ifs dst) (Split (CHR '','') sintfs)))
             (remote_targets show_ip resolve links sintfs hosts))
      else map (\<lambda>dst. (v4_mapped @ [0, 0, 0, 0], dst)) (remote_targets show_ip resolve links sintfs hosts))"
    using assms by (auto simp: connFor_def go_simps Let_def split: if_splits)
  have target: "(\<exists>host dst. resolve host = Some dst \<and> ta_IP t = ta_IP dst \<and> ta_Port t = ta_Port dst
        \<and> \<not> isConnectedTo links (linkInfoFor ''tcp'' sintfs (TCPAddr_String show_ip dst)))
      \<and> (IsLinkLocalUnicast (ta_IP t) \<longrightarrow> sintfs \<noteq> [] \<and> ta_Zone t = sintfs)"
    if "t \<in> set (remote_targets show_ip resolve links sintfs hosts)" for t
  proof -
    from that obtain host dst where h: "resolve host = Some dst"
        "\<not> isConnectedTo links (linkInfoFor ''tcp'' sintfs (TCPAddr_String show_ip dst))"
      and t: "if IsLinkLocalUnicast (ta_IP dst) then sintfs \<noteq> [] \<and> t = dst\<lparr>ta_Zone := sintfs\<rparr> else t = dst"
      unfolding remote_targets_in by blast
    have "ta_IP t = ta_IP dst \<and> ta_Port t = ta_Port dst" using t by (auto split: if_splits)
    moreover have "IsLinkLocalUnicast (ta_IP t) \<longrightarrow> sintfs \<noteq> [] \<and> ta_Zone t = sintfs"
      using t by (auto split: if_splits)
    ultimately show ?thesis using h by blast
  qed
  have "t \<in> set (remote_targets show_ip resolve links sintfs hosts)
      \<and> (sintfs \<noteq> [] \<longrightarrow> suitable (ta_IP t) src \<and> (\<exists>ief\<in>set ifs. if_Name ief \<in> set (Split (CHR '','') sintfs) \<and> if_up ief))"
    if "(src, t) \<in> set dialers" for src t
    using that unfolding ds by (auto split: if_splits dest: interface_dialer_in)
  with target ne show ?thesis by blast
qed

definition test_murl :: url where
  "test_murl = \<lparr>url_Scheme = ''mpath'', url_Host = ''h:1'', url_Path = '''', url_Query = (\<lambda>_. []), url_String = ''mpath://h:1''\<rparr>"

lemma test_connFor:
  "connFor show_ip (\<lambda>_. Some \<lparr>ta_IP = [8, 8, 8, 8], ta_Port = 1, ta_Zone = ''''\<rparr>) test_ifs Map.empty test_murl ''eth0'' =
     Ret (Inr [([10, 0, 0, 1], \<lparr>ta_IP = [8, 8, 8, 8], ta_Port = 1, ta_Zone = ''''\<rparr>)])"
  by (simp add: connFor_def mpath_hosts_def test_murl_def test_ifs_def isConnectedTo_def interface_dialer_def
      IsGlobalUnicast_def IsLinkLocalUnicast_def IsUnspecified_def IsLoopback_def IsMulticast_def ip_class_def
      To4_def Let_def)

theorem mpath_paths_witness: "suitable [8, 8, 8, 8] [10, 0, 0, 1]"
  using mpath_paths [OF test_connFor [of "\<lambda>_. ''''"]] by auto

section \<open>SCTP\<close>

text \<open>an SCTP dial to a host with an IPv6 address crashes: the address is joined to the port without
  brackets, and the text cannot be split again.\<close>

theorem sctp_ipv6_panics:
  assumes "\<not> isConnectedTo links (linkInfoFor ''sctp'' sintf (before_zone (url_Host u)))"
    and "SplitHostPort (url_Host u) = Some (host, port)" and "resolve host = Some dst"
    and "show_ip (ta_IP dst) = c # rest" and "c \<noteq> CHR ''[''" and "CHR '':'' \<in> set (c # rest)"
  shows "sctp_dial show_ip resolve links u options sintf = Panic"
proof -
  have bad: "SplitHostPort (x @ '':'' @ port) = None" if "x = c # t" "CHR '':'' \<in> set x" for x t
  proof -
    have "\<exists>i. last_colon (x @ '':'' @ port) = Some i \<and> i \<ge> length x"
      by (cases "last_colon port") (simp_all add: last_colon_append)
    then obtain i where i: "last_colon (x @ '':'' @ port) = Some i" "i \<ge> length x" by blast
    then have "CHR '':'' \<in> set (take i (x @ '':'' @ port))" using that(2) by auto
    with i(1) that(1) assms(5) show ?thesis by (simp add: SplitHostPort_def Let_def)
  qed
  have "SplitHostPort ((c # rest @ z) @ '':'' @ port) = None" for z
    using assms(6) by (intro bad [of _ "rest @ z"]) auto
  then have "sctp_getAddress resolve ((c # rest @ z) @ '':'' @ port) = Panic" for z
    by (simp only: sctp_getAddress_def option.case)
  with assms show ?thesis by (simp add: sctp_dial_def Let_def)
qed

theorem sctp_ipv6_panics_witness:
  "sctp_dial (\<lambda>ip. ''::1'') (\<lambda>h. Some \<lparr>ta_IP = replicate 15 0 @ [1], ta_Port = 0, ta_Zone = ''''\<rparr>) Map.empty
     \<lparr>url_Scheme = ''sctp'', url_Host = ''[::1]:5'', url_Path = '''', url_Query = \<lambda>_. [], url_String = ''sctp://[::1]:5''\<rparr>
     \<lparr>pinnedEd25519Keys = {}, lo_priority = 0\<rparr> '''' = Panic"
  by (rule sctp_ipv6_panics [where host = "''::1''" and port = "''5''" and c = "CHR '':''" and rest = "'':1''"])
    (simp_all add: isConnectedTo_def SplitHostPort_def index_of_def)

end
