(* ===== verification/Multicast.thy ===== *)
theory Multicast
  imports Dialer_Props "HOL-Library.AList"
begin

text \<open>
  Peer discovery on the local network, src/multicast/multicast.go with options.go: which interfaces
  take part, the listener and the beacon that every announcement keeps and sends on each, and what a
  received beacon leads to.  The maps of the code are association lists, whose order stands for the
  order of iteration.  The system's interfaces and addresses, the start of a listener and the
  resolution of an address are parameters; times are in nanoseconds.
\<close>

section \<open>Options and state\<close>

record MulticastInterface =
  mi_Regex :: "string \<Rightarrow> bool"
  mi_Beacon :: bool
  mi_Listen :: bool
  mi_Port :: nat
  mi_Priority :: nat

record net_interface =
  ni_Index :: nat
  ni_Name :: string
  ni_up :: bool
  ni_multicast :: bool
  ni_pointToPoint :: bool

record interfaceInfo =
  ii_iface :: net_interface
  ii_addrs :: "bytes option list"
  ii_beacon :: bool
  ii_listen :: bool
  ii_port :: nat
  ii_priority :: nat

text \<open>A listener: the address it is bound to, unless its text does not resolve.\<close>

record listenerInfo =
  ls_addr :: "tcp_addr option"
  ls_time :: nat
  ls_interval :: nat
  ls_port :: nat

record multicast =
  mc_isOpen :: bool
  mc_listeners :: "(nat \<times> listenerInfo) list"
  mc_interfaces :: "(nat \<times> interfaceInfo) list"
  mc_groupAddr :: string
  mc_config :: "MulticastInterface list"

datatype multicast_option = OptInterface MulticastInterface | OptGroupAddress string

text \<open>The configuration's map has interfaces for keys; a regular expression is a pointer, so two are
  different unless they are one object, and every option is a key of its own.\<close>

fun multicast_applyOption :: "multicast_option \<Rightarrow> multicast \<Rightarrow> multicast" where
  "multicast_applyOption (OptInterface v) m = m\<lparr>mc_config := mc_config m @ [v]\<rparr>"
| "multicast_applyOption (OptGroupAddress v) m = m\<lparr>mc_groupAddr := v\<rparr>"

section \<open>Starting and stopping\<close>

datatype start_result = AlreadyStarted | NothingEnabled | StartFailed | Started_multicast

text \<open>\<open>_start\<close>; \<open>resolve\<close> and \<open>socket\<close> say whether the group address resolves and the socket opens.\<close>

definition multicast_start :: "(string \<Rightarrow> bool) \<Rightarrow> bool \<Rightarrow> multicast \<Rightarrow> start_result \<times> multicast" where
  "multicast_start resolve socket m =
     (if mc_isOpen m then (AlreadyStarted, m)
      else if \<not> list_ex (\<lambda>intf. mi_Beacon intf \<or> mi_Listen intf) (mc_config m) then (NothingEnabled, m)
      else if \<not> resolve (mc_groupAddr m) then (StartFailed, m)
      else if \<not> socket then (StartFailed, m)
      else (Started_multicast, m\<lparr>mc_isOpen := True\<rparr>))"

definition multicast_New :: "(string \<Rightarrow> bool) \<Rightarrow> bool \<Rightarrow> multicast_option list \<Rightarrow> start_result \<times> multicast" where
  "multicast_New resolve socket opts =
     multicast_start resolve socket (fold multicast_applyOption opts
       \<lparr>mc_isOpen = False, mc_listeners = [], mc_interfaces = [], mc_groupAddr = ''[ff02::114]:9001'', mc_config = []\<rparr>)"

definition multicast_IsStarted :: "multicast \<Rightarrow> bool" where
  "multicast_IsStarted m = mc_isOpen m"

definition multicast_stop :: "multicast \<Rightarrow> multicast" where
  "multicast_stop m = m\<lparr>mc_isOpen := False\<rparr>"

section \<open>Interfaces\<close>

definition usable :: "net_interface \<Rightarrow> bool" where
  "usable i \<longleftrightarrow> ni_up i \<and> ni_multicast i \<and> \<not> ni_pointToPoint i"

definition config_for :: "MulticastInterface list \<Rightarrow> net_interface \<Rightarrow> MulticastInterface option" where
  "config_for cfgs iface =
     find (\<lambda>ifcfg. \<not> (\<not> mi_Beacon ifcfg \<and> \<not> mi_Listen ifcfg) \<and> mi_Regex ifcfg (ni_Name iface)) cfgs"

text \<open>\<open>_getAllowedInterfaces\<close>; the priority of the configuration is not copied.\<close>

definition add_allowed :: "MulticastInterface list \<Rightarrow> net_interface \<Rightarrow> (nat \<times> interfaceInfo) list \<Rightarrow> (nat \<times> interfaceInfo) list" where
  "add_allowed cfgs iface interfaces =
     (if usable iface
      then (case config_for cfgs iface of None \<Rightarrow> interfaces
            | Some ifcfg \<Rightarrow>
                AList.update (ni_Index iface)
                  \<lparr>ii_iface = iface, ii_addrs = [], ii_beacon = mi_Beacon ifcfg, ii_listen = mi_Listen ifcfg,
                   ii_port = mi_Port ifcfg, ii_priority = 0\<rparr> interfaces)
      else interfaces)"

definition getAllowedInterfaces :: "net_interface list option \<Rightarrow> MulticastInterface list \<Rightarrow> (nat \<times> interfaceInfo) list" where
  "getAllowedInterfaces allifaces cfgs =
     (case allifaces of None \<Rightarrow> [] | Some is \<Rightarrow> fold (add_allowed cfgs) is [])"

definition updateInterfaces ::
  "net_interface list option \<Rightarrow> (net_interface \<Rightarrow> bytes option list option) \<Rightarrow> multicast \<Rightarrow> multicast" where
  "updateInterfaces allifaces addrs m =
     m\<lparr>mc_interfaces := List.map_filter (\<lambda>(name, info).
         map_option (\<lambda>as. (name, info\<lparr>ii_addrs := as\<rparr>)) (addrs (ii_iface info)))
       (getAllowedInterfaces allifaces (mc_config m))\<rparr>"

definition multicast_Interfaces :: "multicast \<Rightarrow> string \<rightharpoonup> net_interface" where
  "multicast_Interfaces m =
     fold (\<lambda>(_, info) r. r(ni_Name (ii_iface info) \<mapsto> ii_iface info)) (mc_interfaces m) Map.empty"

text \<open>The admin request: the names of the interfaces, in the order in which the map is iterated.\<close>

definition getMulticastInterfacesHandler :: "multicast \<Rightarrow> string list" where
  "getMulticastInterfacesHandler m = remdups (map (\<lambda>(_, info). ni_Name (ii_iface info)) (mc_interfaces m))"

section \<open>Announcing\<close>

definition second :: nat where "second = 1000000000"

definition beacon :: "bytes \<Rightarrow> bytes \<Rightarrow> nat \<Rightarrow> bytes" where
  "beacon key ip port = key @ ip @ put_uint16 (word_of_nat port)"

datatype announce_out = StopListener nat | JoinGroup string | StartListener nat | SendBeacon bytes string

text \<open>The listeners that are kept: those of an interface that still has their address.\<close>

definition keep_listener :: "(nat \<times> interfaceInfo) list \<Rightarrow> nat \<times> listenerInfo \<Rightarrow> bool" where
  "keep_listener interfaces = (\<lambda>(name, info).
     case map_of interfaces name of None \<Rightarrow> False
     | Some intf \<Rightarrow>
         (case ls_addr info of None \<Rightarrow> False
          | Some listenaddr \<Rightarrow>
              list_ex (\<lambda>addr. case addr of None \<Rightarrow> False | Some ip \<Rightarrow> ip_Equal ip (ta_IP listenaddr)) (ii_addrs intf)))"

text \<open>What is sent on one listener; \<open>None\<close> when it is too early.  The time of a listener is the time it was
  started and is never set again.\<close>

definition send_beacon :: "nat \<Rightarrow> bytes \<Rightarrow> string \<Rightarrow> listenerInfo \<Rightarrow> (listenerInfo \<times> announce_out list) option" where
  "send_beacon now key name linfo =
     (if now - ls_time linfo < ls_interval linfo then None
      else let outs = (case ls_addr linfo of None \<Rightarrow> []
                       | Some a \<Rightarrow> [SendBeacon (beacon key (ta_IP a) (ta_Port a)) name]);
               linfo' = (if ls_interval linfo < 15 * second
                         then linfo\<lparr>ls_interval := ls_interval linfo + second\<rparr> else linfo)
           in Some (linfo', outs))"

text \<open>The loop over the addresses of one interface; \<open>listen ip port name\<close> is the listener that
  \<open>Core.Listen\<close> starts, if it can.\<close>

fun announce_addrs ::
  "(bytes \<Rightarrow> nat \<Rightarrow> string \<Rightarrow> tcp_addr option option) \<Rightarrow> nat \<Rightarrow> bytes \<Rightarrow> interfaceInfo \<Rightarrow> bytes option list
    \<Rightarrow> (nat \<times> listenerInfo) list \<Rightarrow> (nat \<times> listenerInfo) list \<times> announce_out list" where
  "announce_addrs listen now key info [] ls = (ls, [])"
| "announce_addrs listen now key info (None # addrs) ls = announce_addrs listen now key info addrs ls"
| "announce_addrs listen now key info (Some addrIP # addrs) ls =
     (if To4 addrIP \<noteq> None \<or> \<not> IsLinkLocalUnicast addrIP
      then announce_addrs listen now key info addrs ls
      else let i = ni_Index (ii_iface info); name = ni_Name (ii_iface info);
               join = (if ii_listen info then [JoinGroup name] else [])
           in if \<not> ii_beacon info then (ls, join)
              else let (linfo, start) =
                     (case map_of ls i of Some l \<Rightarrow> (Some l, [])
                      | None \<Rightarrow>
                          (case listen addrIP (ii_port info) name of None \<Rightarrow> (None, [])
                           | Some a \<Rightarrow> (Some \<lparr>ls_addr = a, ls_time = now, ls_interval = 0, ls_port = ii_port info\<rparr>,
                                        [StartListener i])))
                   in case linfo of
                        None \<Rightarrow> (case announce_addrs listen now key info addrs ls of (ls', outs) \<Rightarrow> (ls', join @ outs))
                      | Some l \<Rightarrow>
                          (let ls = AList.update i l ls
                           in case send_beacon now key name l of
                                None \<Rightarrow> (case announce_addrs listen now key info addrs ls of
                                           (ls', outs) \<Rightarrow> (ls', join @ start @ outs))
                              | Some (l', outs) \<Rightarrow> (AList.update i l' ls, join @ start @ outs)))"

fun announce_all ::
  "(bytes \<Rightarrow> nat \<Rightarrow> string \<Rightarrow> tcp_addr option option) \<Rightarrow> nat \<Rightarrow> bytes \<Rightarrow> (nat \<times> interfaceInfo) list
    \<Rightarrow> (nat \<times> listenerInfo) list \<Rightarrow> (nat \<times> listenerInfo) list \<times> announce_out list" where
  "announce_all listen now key [] ls = (ls, [])"
| "announce_all listen now key ((_, info) # interfaces) ls =
     (case announce_addrs listen now key info (ii_addrs info) ls of (ls, outs) \<Rightarrow>
        (case announce_all listen now key interfaces ls of (ls', outs') \<Rightarrow> (ls', outs @ outs')))"

text \<open>\<open>_announce\<close>: the state after, what was done, and whether the timer is armed again.\<close>

definition announce ::
  "net_interface list option \<Rightarrow> (net_interface \<Rightarrow> bytes option list option)
    \<Rightarrow> (bytes \<Rightarrow> nat \<Rightarrow> string \<Rightarrow> tcp_addr option option) \<Rightarrow> nat \<Rightarrow> bytes \<Rightarrow> multicast
    \<Rightarrow> multicast \<times> announce_out list \<times> bool" where
  "announce allifaces addrs listen now key m =
     (if \<not> mc_isOpen m then (m, [], False)
      else let m = updateInterfaces allifaces addrs m;
               keep = filter (keep_listener (mc_interfaces m)) (mc_listeners m);
               stops = map (StopListener \<circ> fst) (filter (\<lambda>x. \<not> keep_listener (mc_interfaces m) x) (mc_listeners m))
           in case announce_all listen now key (mc_interfaces m) keep of (ls, outs) \<Rightarrow>
                (m\<lparr>mc_listeners := ls\<rparr>, stops @ outs, True))"

section \<open>Receiving\<close>

definition IsLinkLocalMulticast :: "bytes \<Rightarrow> bool" where
  "IsLinkLocalMulticast = ip_class (\<lambda>q. q ! 0 = 224 \<and> q ! 1 = 0 \<and> q ! 2 = 0) (\<lambda>ip. ip ! 0 = 0xff \<and> ip ! 1 AND 0x0f = 0x02)"

record beacon_packet =
  bp_Dst :: "bytes option"
  bp_bytes :: bytes
  bp_fromIP :: bytes
  bp_fromZone :: string

text \<open>The URL \<open>tls://addr/?key=hex&priority=n\<close>, parsed.\<close>

definition beacon_url :: "string \<Rightarrow> bytes \<Rightarrow> nat \<Rightarrow> url" where
  "beacon_url addr key priority =
     \<lparr>url_Scheme = ''tls'', url_Host = addr, url_Path = ''/'',
      url_Query = (\<lambda>_. [])(''key'' := [hex_encode key], ''priority'' := [show_nat priority]),
      url_String = ''tls://'' @ addr @ ''/?key='' @ hex_encode key @ ''&priority='' @ show_nat priority\<rparr>"

text \<open>One round of \<open>listen\<close>: the call it makes, a URL and an interface.  \<open>resolve\<close> is what
  \<open>ResolveTCPAddr\<close> makes of the text of an address and port.\<close>

definition listen_packet ::
  "(bytes \<Rightarrow> string) \<Rightarrow> (bytes \<Rightarrow> nat \<Rightarrow> tcp_addr option) \<Rightarrow> bytes \<Rightarrow> bytes \<Rightarrow> (nat \<times> interfaceInfo) list
    \<Rightarrow> beacon_packet \<Rightarrow> (url \<times> string) option" where
  "listen_packet show_ip resolve groupIP self interfaces p =
     (let bs = bp_bytes p; n = length bs
      in if (case bp_Dst p of None \<Rightarrow> False | Some dst \<Rightarrow> \<not> IsLinkLocalMulticast dst \<or> \<not> ip_Equal dst groupIP) then None
         else if n < 32 then None
         else let key = take 32 bs
              in if key = self then None
                 else if n - 2 \<le> 32 then None
                 else let ip = take (n - 2 - 32) (drop 32 bs); port = unat (get_uint16 (drop (n - 2) bs))
                      in case resolve ip port of None \<Rightarrow> None
                         | Some addr \<Rightarrow>
                             if \<not> ip_Equal (bp_fromIP p) (ta_IP addr) then None
                             else case rev (filter (\<lambda>(_, info). ni_Name (ii_iface info) = bp_fromZone p) interfaces) of
                               [] \<Rightarrow> None
                             | (_, info) # _ \<Rightarrow>
                                 if ii_listen info
                                 then Some (beacon_url (TCPAddr_String show_ip (addr\<lparr>ta_Zone := ''''\<rparr>)) key (ii_priority info),
                                            ni_Name (ii_iface info))
                                 else None)"

end
