(* ===== verification/Socket_Options.thy ===== *)
theory Socket_Options
  imports Multicast
begin

text \<open>
  The options that sockets get before they are used: \<open>tcpContext\<close> and \<open>getControl\<close> of link_tcp_*.go and
  link_mpath_*.go, \<open>multicastReuse\<close> and \<open>_multicastStarted\<close> of multicast_*.go, for each platform.  What setting
  an option comes to is an argument, an error or none; so is what \<open>Control\<close> of the raw connection returns,
  which runs the function it is given unless it fails itself.
\<close>

section \<open>Setting options\<close>

datatype sock_opt = TcpCongestion string | BindToDevice string | RecvAnyIf | ReuseAddr | ReusePort

definition controlled :: "'e option \<Rightarrow> sock_opt list \<Rightarrow> sock_opt list" where
  "controlled control opts = (case control of None \<Rightarrow> opts | Some _ \<Rightarrow> [])"

text \<open>The cases that return the first of several errors.\<close>

fun first_error :: "'e option list \<Rightarrow> 'e option" where
  "first_error [] = None"
| "first_error (Some e # _) = Some e"
| "first_error (None # es) = first_error es"

section \<open>TCP and multipath\<close>

text \<open>Each returns the error of the function and the options that it tried to set.  Linux logs its errors.\<close>

definition tcpContext_linux :: "(sock_opt \<Rightarrow> 'e option) \<Rightarrow> 'e option \<Rightarrow> 'e option \<times> sock_opt list" where
  "tcpContext_linux setopt control = (None, controlled control [TcpCongestion ''bbr''])"

definition getControl_linux :: "(sock_opt \<Rightarrow> 'e option) \<Rightarrow> 'e option \<Rightarrow> string \<Rightarrow> 'e option \<times> sock_opt list" where
  "getControl_linux setopt control sintf =
     (case tcpContext_linux setopt control of (e, opts) \<Rightarrow> (e, controlled control [BindToDevice sintf] @ opts))"

definition tcpContext_darwin :: "(sock_opt \<Rightarrow> 'e option) \<Rightarrow> 'e option \<Rightarrow> 'e option \<times> sock_opt list" where
  "tcpContext_darwin setopt control =
     (let opts = controlled control [RecvAnyIf] in (first_error (map setopt opts @ [control]), opts))"

definition getControl_darwin :: "(sock_opt \<Rightarrow> 'e option) \<Rightarrow> 'e option \<Rightarrow> string \<Rightarrow> 'e option \<times> sock_opt list" where
  "getControl_darwin setopt control sintf = tcpContext_darwin setopt control"

definition tcpContext_other :: "(sock_opt \<Rightarrow> 'e option) \<Rightarrow> 'e option \<Rightarrow> 'e option \<times> sock_opt list" where
  "tcpContext_other setopt control = (None, [])"

definition getControl_other :: "(sock_opt \<Rightarrow> 'e option) \<Rightarrow> 'e option \<Rightarrow> string \<Rightarrow> 'e option \<times> sock_opt list" where
  "getControl_other setopt control sintf = tcpContext_other setopt control"

text \<open>The multipath links have copies of their own.\<close>

definition mpath_tcpContext_linux :: "(sock_opt \<Rightarrow> 'e option) \<Rightarrow> 'e option \<Rightarrow> 'e option \<times> sock_opt list" where
  "mpath_tcpContext_linux setopt control = (None, controlled control [TcpCongestion ''bbr''])"

definition mpath_getControl_linux :: "(sock_opt \<Rightarrow> 'e option) \<Rightarrow> 'e option \<Rightarrow> string \<Rightarrow> 'e option \<times> sock_opt list" where
  "mpath_getControl_linux setopt control sintf =
     (case mpath_tcpContext_linux setopt control of (e, opts) \<Rightarrow> (e, controlled control [BindToDevice sintf] @ opts))"

definition mpath_tcpContext_darwin :: "(sock_opt \<Rightarrow> 'e option) \<Rightarrow> 'e option \<Rightarrow> 'e option \<times> sock_opt list" where
  "mpath_tcpContext_darwin setopt control =
     (let opts = controlled control [RecvAnyIf] in (first_error (map setopt opts @ [control]), opts))"

definition mpath_tcpContext_other :: "(sock_opt \<Rightarrow> 'e option) \<Rightarrow> 'e option \<Rightarrow> 'e option \<times> sock_opt list" where
  "mpath_tcpContext_other setopt control = (None, [])"

section \<open>Multicast\<close>

definition multicastReuse_unix :: "(sock_opt \<Rightarrow> 'e option) \<Rightarrow> 'e option \<Rightarrow> 'e option \<times> sock_opt list" where
  "multicastReuse_unix setopt control = (control, controlled control [ReuseAddr])"

definition multicastReuse_android :: "(sock_opt \<Rightarrow> 'e option) \<Rightarrow> 'e option \<Rightarrow> 'e option \<times> sock_opt list" where
  "multicastReuse_android setopt control = (control, controlled control [ReuseAddr])"

definition multicastReuse_darwin :: "(sock_opt \<Rightarrow> 'e option) \<Rightarrow> 'e option \<Rightarrow> 'e option \<times> sock_opt list" where
  "multicastReuse_darwin setopt control =
     (let opts = controlled control [ReusePort, RecvAnyIf] in (first_error (map setopt opts @ [control]), opts))"

definition multicastReuse_darwin_cgo :: "(sock_opt \<Rightarrow> 'e option) \<Rightarrow> 'e option \<Rightarrow> 'e option \<times> sock_opt list" where
  "multicastReuse_darwin_cgo setopt control =
     (let opts = controlled control [ReusePort, RecvAnyIf] in (first_error (map setopt opts @ [control]), opts))"

definition multicastReuse_windows :: "(sock_opt \<Rightarrow> 'e option) \<Rightarrow> 'e option \<Rightarrow> 'e option \<times> sock_opt list" where
  "multicastReuse_windows setopt control =
     (let opts = controlled control [ReuseAddr] in (first_error (map setopt opts @ [control]), opts))"

definition multicastReuse_other :: "(sock_opt \<Rightarrow> 'e option) \<Rightarrow> 'e option \<Rightarrow> 'e option \<times> sock_opt list" where
  "multicastReuse_other setopt control = (None, [])"

text \<open>What is done when multicast has started: only with Apple's frameworks, where browsing for services keeps the
  AWDL interface awake, and is begun again every minute while the module is open.\<close>

datatype awdl_action = StopBrowsing | StartBrowsing | AgainAfter nat

definition multicastStarted_cgo :: "multicast \<Rightarrow> awdl_action list" where
  "multicastStarted_cgo m =
     (if \<not> mc_isOpen m then []
      else [StopBrowsing]
        @ (if list_ex (\<lambda>(_, info). ni_Name (ii_iface info) = ''awdl0'') (mc_interfaces m) then [StartBrowsing] else [])
        @ [AgainAfter 60])"

definition multicastStarted_unix :: "multicast \<Rightarrow> awdl_action list" where "multicastStarted_unix m = []"
definition multicastStarted_android :: "multicast \<Rightarrow> awdl_action list" where "multicastStarted_android m = []"
definition multicastStarted_darwin :: "multicast \<Rightarrow> awdl_action list" where "multicastStarted_darwin m = []"
definition multicastStarted_windows :: "multicast \<Rightarrow> awdl_action list" where "multicastStarted_windows m = []"
definition multicastStarted_other :: "multicast \<Rightarrow> awdl_action list" where "multicastStarted_other m = []"

section \<open>Which errors count\<close>

lemma first_error_None: "first_error es = None \<longleftrightarrow> list_all (\<lambda>e. e = None) es"
  by (induction es rule: first_error.induct) auto

lemma tcp_options_errors:
  "fst (getControl_linux setopt control sintf) = None"
  "fst (getControl_other setopt control sintf) = None"
  "fst (getControl_darwin setopt control sintf) = None \<longleftrightarrow> control = None \<and> setopt RecvAnyIf = None"
  by (auto simp: getControl_linux_def tcpContext_linux_def getControl_other_def tcpContext_other_def getControl_darwin_def
      tcpContext_darwin_def controlled_def first_error_None Let_def split: option.splits)

text \<open>An address that cannot be shared fails the multicast socket on Windows and macOS only.\<close>

lemma multicast_options_errors:
  "fst (multicastReuse_unix setopt None) = None"
  "fst (multicastReuse_android setopt None) = None"
  "fst (multicastReuse_windows setopt None) = setopt ReuseAddr"
  "fst (multicastReuse_darwin setopt None) = None \<longleftrightarrow> setopt ReusePort = None \<and> setopt RecvAnyIf = None"
  by (auto simp: multicastReuse_unix_def multicastReuse_android_def multicastReuse_windows_def multicastReuse_darwin_def
      controlled_def first_error_None Let_def) (cases "setopt ReuseAddr"; simp)

text \<open>Both builds for macOS agree, and the multipath links with the TCP ones.\<close>

lemma copies_agree:
  "multicastReuse_darwin_cgo = multicastReuse_darwin" "multicastReuse_android = multicastReuse_unix"
  "mpath_tcpContext_linux = tcpContext_linux" "mpath_tcpContext_darwin = tcpContext_darwin"
  "mpath_tcpContext_other = tcpContext_other" "mpath_getControl_linux = getControl_linux"
  by (simp_all add: fun_eq_iff multicastReuse_darwin_cgo_def multicastReuse_darwin_def multicastReuse_android_def
      multicastReuse_unix_def mpath_tcpContext_linux_def tcpContext_linux_def mpath_tcpContext_darwin_def
      tcpContext_darwin_def mpath_tcpContext_other_def tcpContext_other_def mpath_getControl_linux_def getControl_linux_def)

end
