(* ===== verification/Tls_Config.thy ===== *)
theory Tls_Config
  imports Prelude
begin

text \<open>
  The configuration of the TLS links (link_tls.go): the certificate a node signs for itself, and what its
  connections are set to check of the other end.  Signing (crypto/x509) and the PEM encoding are
  arguments.  Who is at the other end is decided by the handshake of the link alone (theory Links).
\<close>

section \<open>The certificate\<close>

text \<open>A time: year, month, day, hour, minute, second in UTC.\<close>

type_synonym date = "nat \<times> nat \<times> nat \<times> nat \<times> nat \<times> nat"

definition notAfterNeverExpires :: date where
  "notAfterNeverExpires = (9999, 12, 31, 23, 59, 59)"

datatype key_usage = KeyEncipherment | DigitalSignature

datatype ext_key_usage = ServerAuth

record certificate =
  SerialNumber :: nat
  CommonName :: string
  NotBefore :: date
  NotAfter :: date
  KeyUsage :: "key_usage list"
  ExtKeyUsage :: "ext_key_usage list"
  BasicConstraintsValid :: bool

definition node_certificate :: "bytes \<Rightarrow> date \<Rightarrow> certificate" where
  "node_certificate public now =
     \<lparr>SerialNumber = 1, CommonName = hex_encode public, NotBefore = now, NotAfter = notAfterNeverExpires,
      KeyUsage = [KeyEncipherment, DigitalSignature], ExtKeyUsage = [ServerAuth], BasicConstraintsValid = True\<rparr>"

section \<open>The configuration\<close>

record tls_config =
  RootCAs :: "bytes list"
  Certificates :: "(bytes list \<times> bytes) list"
  ServerName :: string
  InsecureSkipVerify :: bool
  MinVersion :: "16 word"

text \<open>\<open>create template parent public secret\<close> signs a certificate; \<open>pem_ok\<close> says whether it could be encoded; \<open>pem_certs\<close>
  are the certificates found in a text of PEM blocks.  What is searched for them is the certificate itself,
  not its encoding, which is not used.\<close>

definition generateConfig ::
  "(certificate \<Rightarrow> certificate \<Rightarrow> bytes \<Rightarrow> bytes \<Rightarrow> bytes option) \<Rightarrow> (bytes \<Rightarrow> bool) \<Rightarrow> (bytes \<Rightarrow> bytes list)
    \<Rightarrow> date \<Rightarrow> bytes \<Rightarrow> bytes \<Rightarrow> tls_config option" where
  "generateConfig create pem_ok pem_certs now public secret =
     (let cert = node_certificate public now
      in case create cert cert public secret of None \<Rightarrow> None
      | Some certbytes \<Rightarrow>
          if \<not> pem_ok certbytes then None
          else Some \<lparr>RootCAs = pem_certs certbytes, Certificates = [([certbytes], secret)], ServerName = '''',
                     InsecureSkipVerify = True, MinVersion = 0x0304\<rparr>)"

text \<open>Without a configuration there are no links at all: setting up the links of a core panics.\<close>

definition newLinkTLS :: "tls_config option \<Rightarrow> tls_config outcome" where
  "newLinkTLS c = (case c of None \<Rightarrow> Panic | Some c \<Rightarrow> Ret c)"

text \<open>A dial sends the name of the server it wants.\<close>

definition dial_config :: "tls_config \<Rightarrow> string \<Rightarrow> tls_config" where
  "dial_config c sni = c\<lparr>ServerName := sni\<rparr>"

section \<open>What the configuration asks for\<close>

lemma hex_encode_inject: "hex_encode xs = hex_encode ys \<longleftrightarrow> xs = ys"
  by (metis hex_decode_encode option.inject)

text \<open>Every TLS link presents a certificate that names the node's key and never expires, speaks version 1.3
  at least, and takes any certificate of the other end.\<close>

lemma tls_links:
  assumes "newLinkTLS (generateConfig create pem_ok pem_certs now public secret) = Ret c"
  shows "InsecureSkipVerify (dial_config c sni)" "MinVersion (dial_config c sni) = 0x0304" "ServerName (dial_config c sni) = sni"
    and "\<exists>certbytes. create (node_certificate public now) (node_certificate public now) public secret = Some certbytes
      \<and> Certificates (dial_config c sni) = [([certbytes], secret)] \<and> RootCAs c = pem_certs certbytes"
  using assms by (auto simp: newLinkTLS_def generateConfig_def dial_config_def Let_def split: option.splits if_splits)

lemma certificate_names_key: "CommonName (node_certificate public now) = CommonName (node_certificate public' now') \<longleftrightarrow> public = public'"
  by (simp add: node_certificate_def hex_encode_inject)

lemma tls_panics_iff: "newLinkTLS (generateConfig create pem_ok pem_certs now public secret) = Panic \<longleftrightarrow>
    (case create (node_certificate public now) (node_certificate public now) public secret of
       None \<Rightarrow> True | Some certbytes \<Rightarrow> \<not> pem_ok certbytes)"
  by (auto simp: newLinkTLS_def generateConfig_def Let_def split: option.splits)

end
