(* ===== verification/Key_Store.thy ===== *)
theory Key_Store
  imports Address_Key Systems Icmpv6
begin

text \<open>
  The key store of src/ipv6rwc/ipv6rwc.go: who owns which address, and the packets that wait for an
  answer to that question.  Pointers to \<open>keyInfo\<close> and \<open>buffer\<close> objects are numbers that index two
  heaps; Go's comparison of pointers is comparison of these numbers.  \<open>time.AfterFunc\<close> makes a timer
  with a function; \<open>Stop\<close> removes a timer that has not fired yet; a timer that has fired is a
  goroutine that waits for the store's mutex, and \<open>Stop\<close> does not reach it any more.  Each method
  is one atomic step, because it holds the mutex; the packets it sends are its output.
  The signatures of crypto/ed25519 are arguments: \<open>sign\<close> with this node's key, and \<open>verify\<close> for a public key of
  the right length; \<open>ed25519_Verify\<close> panics for any other.
\<close>

section \<open>State\<close>

record key_info =
  ki_key :: bytes
  ki_address :: bytes
  ki_subnet :: bytes
  ki_timeout :: "nat option"

record pkt_buffer =
  pb_packet :: bytes
  pb_timeout :: "nat option"

datatype timer_fun = ExpireInfo nat | ExpireAddrBuffer bytes nat | ExpireSubnetBuffer bytes nat

record key_store =
  ks_address :: bytes
  ks_subnet :: bytes
  ks_keyToInfo :: "bytes \<rightharpoonup> nat"
  ks_addrToInfo :: "bytes \<rightharpoonup> nat"
  ks_addrBuffer :: "bytes \<rightharpoonup> nat"
  ks_subnetToInfo :: "bytes \<rightharpoonup> nat"
  ks_subnetBuffer :: "bytes \<rightharpoonup> nat"
  ks_mtu :: "64 word"
  ks_infos :: "nat \<Rightarrow> key_info option"
  ks_buffers :: "nat \<Rightarrow> pkt_buffer option"
  ks_timers :: "nat \<rightharpoonup> timer_fun"
  ks_fired :: "timer_fun list"
  ks_next :: nat

text \<open>What a method sends: \<open>core.WriteTo\<close> and \<open>core.SendOutOfBand\<close>, with the destination key last.\<close>

datatype ks_out = SendPacket bytes bytes | SendOutOfBand bytes bytes

definition typeKeyDummy :: byte where "typeKeyDummy = 0"
definition typeKeyLookup :: byte where "typeKeyLookup = 1"
definition typeKeyResponse :: byte where "typeKeyResponse = 2"

lemmas key_types = typeKeyDummy_def typeKeyLookup_def typeKeyResponse_def

section \<open>Timers and allocation\<close>

definition after_func :: "timer_fun \<Rightarrow> key_store \<Rightarrow> nat \<times> key_store" where
  "after_func f s =
     (ks_next s, s\<lparr>ks_timers := (ks_timers s)(ks_next s \<mapsto> f), ks_next := ks_next s + 1\<rparr>)"

definition stop_timer :: "nat option \<Rightarrow> key_store \<Rightarrow> key_store" where
  "stop_timer tm s = (case tm of None \<Rightarrow> s | Some t \<Rightarrow> s\<lparr>ks_timers := (ks_timers s)(t := None)\<rparr>)"

definition new_info :: "key_info \<Rightarrow> key_store \<Rightarrow> nat \<times> key_store" where
  "new_info i s =
     (ks_next s, s\<lparr>ks_infos := (ks_infos s)(ks_next s := Some i), ks_next := ks_next s + 1\<rparr>)"

definition new_buffer :: "key_store \<Rightarrow> nat \<times> key_store" where
  "new_buffer s =
     (ks_next s, s\<lparr>ks_buffers := (ks_buffers s)(ks_next s := Some \<lparr>pb_packet = [], pb_timeout = None\<rparr>),
                   ks_next := ks_next s + 1\<rparr>)"

text \<open>The functions that the timers run.\<close>

definition expire_info :: "nat \<Rightarrow> key_store \<Rightarrow> key_store" where
  "expire_info p s =
     (case ks_infos s p of None \<Rightarrow> s
      | Some i \<Rightarrow>
          let s = (if ks_keyToInfo s (ki_key i) = Some p
                   then s\<lparr>ks_keyToInfo := (ks_keyToInfo s)(ki_key i := None)\<rparr> else s);
              s = (if ks_addrToInfo s (ki_address i) = Some p
                   then s\<lparr>ks_addrToInfo := (ks_addrToInfo s)(ki_address i := None)\<rparr> else s)
          in (if ks_subnetToInfo s (ki_subnet i) = Some p
              then s\<lparr>ks_subnetToInfo := (ks_subnetToInfo s)(ki_subnet i := None)\<rparr> else s))"

definition expire_addrBuffer :: "bytes \<Rightarrow> nat \<Rightarrow> key_store \<Rightarrow> key_store" where
  "expire_addrBuffer addr b s =
     (if ks_addrBuffer s addr = Some b
      then s\<lparr>ks_addrBuffer := (ks_addrBuffer s)(addr := None)\<rparr> else s)"

definition expire_subnetBuffer :: "bytes \<Rightarrow> nat \<Rightarrow> key_store \<Rightarrow> key_store" where
  "expire_subnetBuffer subnet b s =
     (if ks_subnetBuffer s subnet = Some b
      then s\<lparr>ks_subnetBuffer := (ks_subnetBuffer s)(subnet := None)\<rparr> else s)"

fun run_timer :: "timer_fun \<Rightarrow> key_store \<Rightarrow> key_store" where
  "run_timer (ExpireInfo p) s = expire_info p s"
| "run_timer (ExpireAddrBuffer addr b) s = expire_addrBuffer addr b s"
| "run_timer (ExpireSubnetBuffer subnet b) s = expire_subnetBuffer subnet b s"

definition resetTimeout :: "nat \<Rightarrow> key_store \<Rightarrow> key_store" where
  "resetTimeout p s =
     (case ks_infos s p of None \<Rightarrow> s
      | Some i \<Rightarrow>
          let s = stop_timer (ki_timeout i) s;
              (t, s) = after_func (ExpireInfo p) s
          in s\<lparr>ks_infos := (ks_infos s)(p := Some (i\<lparr>ki_timeout := Some t\<rparr>))\<rparr>)"

text \<open>Lines shared by \<open>sendToAddress\<close> and \<open>sendToSubnet\<close>: the packet goes into the buffer object, and
  its timer starts again.\<close>

definition fill_buffer :: "nat \<Rightarrow> timer_fun \<Rightarrow> bytes \<Rightarrow> key_store \<Rightarrow> key_store" where
  "fill_buffer b f bs s =
     (case ks_buffers s b of None \<Rightarrow> s
      | Some buf \<Rightarrow>
          let s = stop_timer (pb_timeout buf) s;
              (t, s) = after_func f s
          in s\<lparr>ks_buffers := (ks_buffers s)(b := Some \<lparr>pb_packet = bs, pb_timeout = Some t\<rparr>)\<rparr>)"

section \<open>Sending\<close>

definition sendKeyLookup :: "(bytes \<Rightarrow> bytes) \<Rightarrow> bytes \<Rightarrow> ks_out" where
  "sendKeyLookup sign partial = SendOutOfBand ([typeKeyLookup] @ sign partial) partial"

definition sendKeyResponse :: "(bytes \<Rightarrow> bytes) \<Rightarrow> bytes \<Rightarrow> ks_out" where
  "sendKeyResponse sign dest = SendOutOfBand ([typeKeyResponse] @ sign dest) dest"

definition info_key :: "key_store \<Rightarrow> nat \<Rightarrow> bytes" where
  "info_key s p = (case ks_infos s p of None \<Rightarrow> [] | Some i \<Rightarrow> ki_key i)"

definition sendToAddress ::
  "network_domain \<Rightarrow> (bytes \<Rightarrow> bytes) \<Rightarrow> bytes \<Rightarrow> bytes \<Rightarrow> key_store \<Rightarrow> (key_store \<times> ks_out list) outcome" where
  "sendToAddress nd sign addr bs s =
     (case ks_addrToInfo s addr of
        Some p \<Rightarrow> let s = resetTimeout p s in Ret (s, [SendPacket bs (info_key s p)])
      | None \<Rightarrow>
          let (b, s) = (case ks_addrBuffer s addr of
                 Some b \<Rightarrow> (b, s)
               | None \<Rightarrow> let (b, s) = new_buffer s
                         in (b, s\<lparr>ks_addrBuffer := (ks_addrBuffer s)(addr \<mapsto> b)\<rparr>));
              s = fill_buffer b (ExpireAddrBuffer addr b) bs s
          in bind_outcome (GetAddressKey nd addr) (\<lambda>partial. Ret (s, [sendKeyLookup sign partial])))"

definition sendToSubnet ::
  "network_domain \<Rightarrow> (bytes \<Rightarrow> bytes) \<Rightarrow> bytes \<Rightarrow> bytes \<Rightarrow> key_store \<Rightarrow> (key_store \<times> ks_out list) outcome" where
  "sendToSubnet nd sign subnet bs s =
     (case ks_subnetToInfo s subnet of
        Some p \<Rightarrow> let s = resetTimeout p s in Ret (s, [SendPacket bs (info_key s p)])
      | None \<Rightarrow>
          let (b, s) = (case ks_subnetBuffer s subnet of
                 Some b \<Rightarrow> (b, s)
               | None \<Rightarrow> let (b, s) = new_buffer s
                         in (b, s\<lparr>ks_subnetBuffer := (ks_subnetBuffer s)(subnet \<mapsto> b)\<rparr>));
              s = fill_buffer b (ExpireSubnetBuffer subnet b) bs s
          in bind_outcome (GetSubnetKey nd subnet) (\<lambda>partial. Ret (s, [sendKeyLookup sign partial])))"

section \<open>Learning a key\<close>

text \<open>Taking the packet that waits in a buffer, if any.\<close>

definition take_addrBuffer :: "bytes \<Rightarrow> key_store \<Rightarrow> bytes list \<times> key_store" where
  "take_addrBuffer addr s =
     (case ks_addrBuffer s addr of None \<Rightarrow> ([], s)
      | Some b \<Rightarrow> ((case ks_buffers s b of None \<Rightarrow> [] | Some buf \<Rightarrow> [pb_packet buf]),
                   s\<lparr>ks_addrBuffer := (ks_addrBuffer s)(addr := None)\<rparr>))"

definition take_subnetBuffer :: "bytes \<Rightarrow> key_store \<Rightarrow> bytes list \<times> key_store" where
  "take_subnetBuffer subnet s =
     (case ks_subnetBuffer s subnet of None \<Rightarrow> ([], s)
      | Some b \<Rightarrow> ((case ks_buffers s b of None \<Rightarrow> [] | Some buf \<Rightarrow> [pb_packet buf]),
                   s\<lparr>ks_subnetBuffer := (ks_subnetBuffer s)(subnet := None)\<rparr>))"

text \<open>A dereference of a \<open>nil\<close> address panics; \<open>kArray\<close> has 32 bytes, so this needs a prefix that does
  not decode.\<close>

definition deref :: "'a option outcome \<Rightarrow> 'a outcome" where
  "deref r = bind_outcome r (\<lambda>x. case x of None \<Rightarrow> Panic | Some y \<Rightarrow> Ret y)"

definition update ::
  "network_domain \<Rightarrow> bytes \<Rightarrow> key_store \<Rightarrow> (nat \<times> key_store \<times> ks_out list) outcome" where
  "update nd key s =
     (let kArray = go_copy (replicate 32 0) key
      in case ks_keyToInfo s kArray of
           Some p \<Rightarrow> Ret (p, resetTimeout p s, [])
         | None \<Rightarrow>
             bind_outcome (deref (AddrForKey nd kArray)) (\<lambda>addr.
             bind_outcome (deref (SubnetForKey nd kArray)) (\<lambda>subnet.
               let (p, s) = new_info \<lparr>ki_key = kArray, ki_address = addr, ki_subnet = subnet,
                                      ki_timeout = None\<rparr> s;
                   s = s\<lparr>ks_keyToInfo := (ks_keyToInfo s)(kArray \<mapsto> p)\<rparr>;
                   s = s\<lparr>ks_addrToInfo := (ks_addrToInfo s)(addr \<mapsto> p)\<rparr>;
                   s = s\<lparr>ks_subnetToInfo := (ks_subnetToInfo s)(subnet \<mapsto> p)\<rparr>;
                   (packets1, s) = take_addrBuffer addr s;
                   (packets2, s) = take_subnetBuffer subnet s;
                   s = resetTimeout p s
               in Ret (p, s, map (\<lambda>packet. SendPacket packet kArray) (packets1 @ packets2)))))"

text \<open>\<open>ed25519.Verify\<close> panics for a public key that is not 32 bytes long; \<open>verify\<close> is what it answers for
  the others.\<close>

definition ed25519_Verify ::
  "(bytes \<Rightarrow> bytes \<Rightarrow> bytes \<Rightarrow> bool) \<Rightarrow> bytes \<Rightarrow> bytes \<Rightarrow> bytes \<Rightarrow> bool outcome" where
  "ed25519_Verify verify publicKey message sig =
     (if length publicKey \<noteq> 32 then Panic else Ret (verify publicKey message sig))"

definition oobHandler ::
  "network_domain \<Rightarrow> (bytes \<Rightarrow> bytes) \<Rightarrow> (bytes \<Rightarrow> bytes \<Rightarrow> bytes \<Rightarrow> bool)
    \<Rightarrow> bytes \<Rightarrow> bytes \<Rightarrow> bytes \<Rightarrow> key_store \<Rightarrow> (key_store \<times> ks_out list) outcome" where
  "oobHandler nd sign verify fromKey toKey data s =
     (if length data \<noteq> 1 + 64 then Ret (s, [])
      else let sig = tl data
           in if hd data = typeKeyLookup
              then bind_outcome (deref (SubnetForKey nd toKey)) (\<lambda>snet.
                     if snet \<noteq> ks_subnet s then Ret (s, [])
                     else bind_outcome (ed25519_Verify verify fromKey toKey sig) (\<lambda>ok.
                       if ok then Ret (s, [sendKeyResponse sign fromKey]) else Ret (s, [])))
              else if hd data = typeKeyResponse
              then bind_outcome (ed25519_Verify verify fromKey toKey sig) (\<lambda>ok.
                     if ok then bind_outcome (update nd fromKey s) (\<lambda>(p, s, outs). Ret (s, outs))
                     else Ret (s, []))
              else Ret (s, []))"

section \<open>MTU\<close>

definition SetMTU :: "64 word \<Rightarrow> 64 word \<Rightarrow> key_store \<Rightarrow> key_store" where
  "SetMTU maxMTU mtu s =
     (let mtu = (if mtu > maxMTU then maxMTU else mtu);
          mtu = (if mtu < 1280 then 1280 else mtu)
      in s\<lparr>ks_mtu := mtu\<rparr>)"

text \<open>\<open>init\<close>: the address and the subnet of the node's own key, empty tables, and a safe MTU.  It panics
  when the session layer does not take the out-of-band handler (\<open>oobSet\<close> is false).\<close>

definition ks_init :: "network_domain \<Rightarrow> bool \<Rightarrow> bytes \<Rightarrow> key_store outcome" where
  "ks_init nd oobSet public =
     bind_outcome (deref (AddrForKey nd public)) (\<lambda>addr.
     bind_outcome (deref (SubnetForKey nd public)) (\<lambda>subnet.
       if \<not> oobSet then Panic
       else Ret \<lparr>ks_address = addr, ks_subnet = subnet, ks_keyToInfo = Map.empty,
                 ks_addrToInfo = Map.empty, ks_addrBuffer = Map.empty, ks_subnetToInfo = Map.empty,
                 ks_subnetBuffer = Map.empty, ks_mtu = 1280, ks_infos = Map.empty,
                 ks_buffers = Map.empty, ks_timers = Map.empty, ks_fired = [], ks_next = 0\<rparr>))"

section \<open>Packets in and out\<close>

text \<open>The results of \<open>writePC\<close>: the length, or one of its errors.\<close>

datatype write_result = Written nat | NotIPv6 | Undersized nat | IncorrectSource bytes | InvalidDestination

definition pkt_src :: "bytes \<Rightarrow> bytes" where "pkt_src bs = take 16 (drop 8 bs)"
definition pkt_dst :: "bytes \<Rightarrow> bytes" where "pkt_dst bs = take 16 (drop 24 bs)"

definition writePC ::
  "network_domain \<Rightarrow> (bytes \<Rightarrow> bytes) \<Rightarrow> bytes \<Rightarrow> key_store
    \<Rightarrow> (write_result \<times> key_store \<times> ks_out list) outcome" where
  "writePC nd sign bs s =
     (if bs = [] then Panic
      else if bs ! 0 AND 0xf0 \<noteq> 0x60 then Ret (NotIPv6, s, [])
      else if length bs < 40 then Ret (Undersized (length bs), s, [])
      else let srcAddr = go_copy (replicate 16 0) (drop 8 bs);
               dstAddr = go_copy (replicate 16 0) (drop 24 bs);
               srcSubnet = go_copy (replicate 8 0) (drop 8 bs);
               dstSubnet = go_copy (replicate 8 0) (drop 24 bs)
           in if srcAddr \<noteq> ks_address s \<and> srcSubnet \<noteq> ks_subnet s
              then Ret (IncorrectSource srcAddr, s, [])
              else bind_outcome (IsValidAddress nd dstAddr) (\<lambda>validAddr.
                   if validAddr
                   then bind_outcome (sendToAddress nd sign dstAddr bs s)
                          (\<lambda>(s, outs). Ret (Written (length bs), s, outs))
                   else bind_outcome (IsValidSubnet nd dstSubnet) (\<lambda>validSubnet.
                        if validSubnet
                        then bind_outcome (sendToSubnet nd sign dstSubnet bs s)
                               (\<lambda>(s, outs). Ret (Written (length bs), s, outs))
                        else Ret (InvalidDestination, s, []))))"

text \<open>The body of an ICMPv6 Packet Too Big message.\<close>

record packet_too_big =
  ptb_MTU :: int
  ptb_Data :: bytes

type_synonym ptb_marshal = "bytes \<Rightarrow> bytes \<Rightarrow> packet_too_big icmp_message \<Rightarrow> bytes option"

text \<open>One pass of the loop of \<open>readPC\<close>, for a packet \<open>bs\<close> that \<open>core.ReadFrom\<close> has returned from the
  node with the key \<open>src\<close>: the result is \<open>None\<close> when the loop goes on to the next packet.
  The type of Packet Too Big is 2.\<close>

definition readPC_packet ::
  "network_domain \<Rightarrow> (bytes \<Rightarrow> bytes) \<Rightarrow> ptb_marshal \<Rightarrow> bytes \<Rightarrow> bytes \<Rightarrow> key_store
    \<Rightarrow> (bytes option \<times> key_store \<times> ks_out list) outcome" where
  "readPC_packet nd sign marshal src bs s =
     (if length bs = 0 then Ret (None, s, [])
      else if bs ! 0 AND 0xf0 \<noteq> 0x60 then Ret (None, s, [])
      else if length bs < 40 then Ret (None, s, [])
      else if int (length bs) > sint (ks_mtu s)
      then let buf = go_copy (replicate 512 0) bs; cn = min 512 (length bs);
               ptb = \<lparr>ptb_MTU = sint (ks_mtu s), ptb_Data = take cn buf\<rparr>
           in (case CreateICMPv6 marshal (take 16 (drop 8 buf)) (take 16 (drop 24 buf)) 2 0 ptb of
                 None \<Rightarrow> Ret (None, s, [])
               | Some packet \<Rightarrow> bind_outcome (writePC nd sign packet s)
                                  (\<lambda>(r, s, outs). Ret (None, s, outs)))
      else let srcAddr = go_copy (replicate 16 0) (drop 8 bs);
               dstAddr = go_copy (replicate 16 0) (drop 24 bs);
               srcSubnet = go_copy (replicate 8 0) (drop 8 bs);
               dstSubnet = go_copy (replicate 8 0) (drop 24 bs)
           in if dstAddr \<noteq> ks_address s \<and> dstSubnet \<noteq> ks_subnet s then Ret (None, s, [])
              else bind_outcome (update nd src s) (\<lambda>(p, s, outs).
                     case ks_infos s p of None \<Rightarrow> Panic
                     | Some info \<Rightarrow>
                         if srcAddr \<noteq> ki_address info \<and> srcSubnet \<noteq> ki_subnet info
                         then Ret (None, s, outs) else Ret (Some bs, s, outs)))"

text \<open>\<open>readPC\<close> itself over the reads of the core, with a buffer \<open>p\<close>: the packet copied into it and
  its length, an error of the core, or still waiting for another packet.\<close>

datatype core_read = CorePacket bytes bytes | CoreError

datatype read_result = ReadPacket bytes nat | ReadError | ReadBlocked

fun readPC ::
  "network_domain \<Rightarrow> (bytes \<Rightarrow> bytes) \<Rightarrow> ptb_marshal \<Rightarrow> bytes \<Rightarrow> core_read list \<Rightarrow> key_store
    \<Rightarrow> (read_result \<times> key_store \<times> ks_out list) outcome" where
  "readPC nd sign marshal p [] s = Ret (ReadBlocked, s, [])"
| "readPC nd sign marshal p (CoreError # rest) s = Ret (ReadError, s, [])"
| "readPC nd sign marshal p (CorePacket src bs # rest) s =
     bind_outcome (readPC_packet nd sign marshal src bs s) (\<lambda>(r, s, outs).
       case r of
         Some bs \<Rightarrow> Ret (ReadPacket (go_copy p bs) (min (length p) (length bs)), s, outs)
       | None \<Rightarrow> bind_outcome (readPC nd sign marshal p rest s)
                   (\<lambda>(r, s, outs'). Ret (r, s, outs @ outs')))"

end
