(* ===== verification/Config.thy ===== *)
theory Config
  imports Nodeinfo "HOL-Library.AList"
begin

text \<open>
  The configuration of src/config/config.go and src/defaults: its fields, the defaults, and reading and
  writing it.  The keys of a new configuration, decoding UTF-16, and the parser that lays the
  text of a file over a configuration (hjson and mapstructure) are parameters.
\<close>

record MulticastInterfaceConfig =
  mic_Regex :: string
  mic_Beacon :: bool
  mic_Listen :: bool
  mic_Port :: nat
  mic_Priority :: nat

record NodeConfig =
  cfg_Peers :: "string list"
  cfg_InterfacePeers :: "(string \<times> string list) list"
  cfg_Listen :: "string list"
  cfg_AdminListen :: string
  cfg_HttpAddress :: string
  cfg_WwwRoot :: string
  cfg_MulticastInterfaces :: "MulticastInterfaceConfig list"
  cfg_AllowedPublicKeys :: "string list"
  cfg_PublicKey :: string
  cfg_PrivateKey :: string
  cfg_IfName :: string
  cfg_IfMTU :: nat
  cfg_NodeInfoPrivacy :: bool
  cfg_NodeInfo :: "string \<rightharpoonup> json"
  cfg_NetworkDomain :: network_domain
  cfg_PublicPeersUrl :: string
  cfg_FeaturesConfig :: "string \<rightharpoonup> json"

text \<open>The zero value of the structure, and a key pair put into it.\<close>

definition zero_config :: NodeConfig where
  "zero_config = \<lparr>cfg_Peers = [], cfg_InterfacePeers = [], cfg_Listen = [], cfg_AdminListen = '''',
     cfg_HttpAddress = '''', cfg_WwwRoot = '''', cfg_MulticastInterfaces = [], cfg_AllowedPublicKeys = [],
     cfg_PublicKey = '''', cfg_PrivateKey = '''', cfg_IfName = '''', cfg_IfMTU = 0, cfg_NodeInfoPrivacy = False,
     cfg_NodeInfo = Map.empty, cfg_NetworkDomain = \<lparr>Prefix = ''''\<rparr>, cfg_PublicPeersUrl = '''',
     cfg_FeaturesConfig = Map.empty\<rparr>"

definition NewKeys :: "bytes \<times> bytes \<Rightarrow> NodeConfig \<Rightarrow> NodeConfig" where
  "NewKeys keys cfg = cfg\<lparr>cfg_PublicKey := hex_encode (fst keys), cfg_PrivateKey := hex_encode (snd keys)\<rparr>"

section \<open>Defaults\<close>

record defaultParameters =
  def_HttpAddress :: string
  def_PublicPeersUrl :: string
  def_NetworkDomain :: network_domain

record platformDefaultParameters =
  pd_ConfigFile :: string
  pd_MulticastInterfaces :: "MulticastInterfaceConfig list"
  pd_MaximumIfMTU :: nat
  pd_IfMTU :: nat
  pd_IfName :: string

definition Define :: defaultParameters where
  "Define = \<lparr>def_HttpAddress = ''http://localhost:19019'',
     def_PublicPeersUrl = ''https://map.rivchain.org/rest/peers.json'', def_NetworkDomain = \<lparr>Prefix = ''fc''\<rparr>\<rparr>"

text \<open>The Linux build; \<open>defaultConfig\<close> may be set when the program is linked.\<close>

definition getDefaults :: platformDefaultParameters where
  "getDefaults = \<lparr>pd_ConfigFile = ''/etc/mesh.conf'',
     pd_MulticastInterfaces = [\<lparr>mic_Regex = ''.*'', mic_Beacon = True, mic_Listen = True, mic_Port = 0, mic_Priority = 0\<rparr>],
     pd_MaximumIfMTU = 65535, pd_IfMTU = 65535, pd_IfName = ''auto''\<rparr>"

definition dot_star :: MulticastInterfaceConfig where
  "dot_star = \<lparr>mic_Regex = ''.*'', mic_Beacon = True, mic_Listen = True, mic_Port = 0, mic_Priority = 0\<rparr>"

text \<open>The builds for the other platforms.\<close>

definition getDefaults_darwin :: platformDefaultParameters where
  "getDefaults_darwin = \<lparr>pd_ConfigFile = ''/etc/mesh.conf'',
     pd_MulticastInterfaces = [dot_star\<lparr>mic_Regex := ''en.*''\<rparr>, dot_star\<lparr>mic_Regex := ''bridge.*''\<rparr>],
     pd_MaximumIfMTU = 65535, pd_IfMTU = 65535, pd_IfName = ''auto''\<rparr>"

definition getDefaults_freebsd :: platformDefaultParameters where
  "getDefaults_freebsd = \<lparr>pd_ConfigFile = ''/usr/local/etc/mesh.conf'', pd_MulticastInterfaces = [dot_star],
     pd_MaximumIfMTU = 32767, pd_IfMTU = 32767, pd_IfName = ''/dev/tun0''\<rparr>"

definition getDefaults_openbsd :: platformDefaultParameters where
  "getDefaults_openbsd = \<lparr>pd_ConfigFile = ''/etc/mesh.conf'', pd_MulticastInterfaces = [dot_star],
     pd_MaximumIfMTU = 16384, pd_IfMTU = 16384, pd_IfName = ''tun0''\<rparr>"

definition getDefaults_other :: platformDefaultParameters where
  "getDefaults_other = \<lparr>pd_ConfigFile = ''/etc/mesh.conf'', pd_MulticastInterfaces = [dot_star],
     pd_MaximumIfMTU = 65535, pd_IfMTU = 65535, pd_IfName = ''none''\<rparr>"

definition getDefaults_windows :: platformDefaultParameters where
  "getDefaults_windows = \<lparr>pd_ConfigFile = ''C:'' @ [CHR 0x5C] @ ''ProgramData'' @ [CHR 0x5C] @ ''v6Space'' @ [CHR 0x5C] @ ''mesh.conf'',
     pd_MulticastInterfaces = [dot_star], pd_MaximumIfMTU = 65535, pd_IfMTU = 65535, pd_IfName = ''v6Space''\<rparr>"

definition GetDefaults :: "string \<Rightarrow> platformDefaultParameters" where
  "GetDefaults defaultConfig =
     (if defaultConfig \<noteq> '''' then getDefaults\<lparr>pd_ConfigFile := defaultConfig\<rparr> else getDefaults)"

definition GenerateConfig :: "string \<Rightarrow> bytes \<times> bytes \<Rightarrow> NodeConfig" where
  "GenerateConfig defaultConfig keys =
     (let defaults = GetDefaults defaultConfig; cfg = NewKeys keys zero_config
      in cfg\<lparr>cfg_Listen := [], cfg_Peers := [], cfg_InterfacePeers := [], cfg_AllowedPublicKeys := [],
             cfg_MulticastInterfaces := pd_MulticastInterfaces defaults, cfg_IfName := pd_IfName defaults,
             cfg_IfMTU := pd_IfMTU defaults, cfg_NodeInfoPrivacy := False,
             cfg_HttpAddress := def_HttpAddress Define, cfg_NetworkDomain := def_NetworkDomain Define,
             cfg_PublicPeersUrl := def_PublicPeersUrl Define\<rparr>)"

text \<open>\<open>Genconf\<close>: the text of a new configuration; the errors of the two encoders are dropped.\<close>

definition Genconf :: "(NodeConfig \<Rightarrow> string) \<Rightarrow> (NodeConfig \<Rightarrow> string) \<Rightarrow> string \<Rightarrow> bytes \<times> bytes \<Rightarrow> bool \<Rightarrow> string" where
  "Genconf to_json to_hjson defaultConfig keys isjson =
     (let cfg = GenerateConfig defaultConfig keys in if isjson then to_json cfg else to_hjson cfg)"

section \<open>Reading and writing\<close>

definition has_bom :: "bytes \<Rightarrow> bool" where
  "has_bom conf \<longleftrightarrow> take 2 conf = [0xFF, 0xFE] \<or> take 2 conf = [0xFE, 0xFF]"

text \<open>\<open>ReadConfig\<close> of the bytes of the file or of standard input; \<open>overlay\<close> is what the parsers make of
  them on top of the defaults.\<close>

definition ReadConfig ::
  "(bytes \<Rightarrow> bytes option) \<Rightarrow> (bytes \<Rightarrow> NodeConfig \<Rightarrow> NodeConfig option) \<Rightarrow> string \<Rightarrow> bytes \<times> bytes
    \<Rightarrow> bytes option \<Rightarrow> NodeConfig option" where
  "ReadConfig utf16 overlay defaultConfig keys file =
     (case file of None \<Rightarrow> None
      | Some conf \<Rightarrow>
          (case (if has_bom conf then utf16 conf else Some conf) of None \<Rightarrow> None
           | Some conf \<Rightarrow> overlay conf (GenerateConfig defaultConfig keys)))"

definition WriteConfig :: "(NodeConfig \<Rightarrow> bytes option) \<Rightarrow> bool \<Rightarrow> NodeConfig \<Rightarrow> bytes option \<Rightarrow> bool \<times> bytes option" where
  "WriteConfig marshal writable cfg file =
     (case marshal cfg of None \<Rightarrow> (False, file)
      | Some bs \<Rightarrow> if writable then (True, Some bs) else (False, file))"

definition GetHttpEndpoint :: "NodeConfig option \<Rightarrow> string \<Rightarrow> string" where
  "GetHttpEndpoint config defaultEndpoint =
     (case config of None \<Rightarrow> defaultEndpoint
      | Some config \<Rightarrow>
          let ep = cfg_HttpAddress config in if ep \<noteq> ''none'' \<and> ep \<noteq> '''' then ep else defaultEndpoint)"

text \<open>What a file leaves out is what the defaults say; an endpoint that is disabled is the caller's.\<close>

lemma ReadConfig_defaults:
  "overlay conf = (\<lambda>cfg. Some cfg) \<Longrightarrow> \<not> has_bom conf \<Longrightarrow>
     ReadConfig utf16 overlay dc keys (Some conf) = Some (GenerateConfig dc keys)"
  by (simp add: ReadConfig_def)

lemma GetHttpEndpoint_nonempty: "d \<noteq> '''' \<Longrightarrow> GetHttpEndpoint c d \<noteq> ''''"
  by (auto simp: GetHttpEndpoint_def Let_def split: option.splits)

end
