(* ===== verification/Tun.thy ===== *)
theory Tun
  imports Key_Store Config
begin

text \<open>
  The TUN adapter of src/tun (tun.go, iface.go, options.go): the local
  side of the key store.  The system's TUN device is a parameter: what creating it comes to, and the
  packets it hands over.
\<close>

section \<open>The adapter\<close>

record tun_adapter =
  tu_store :: key_store
  tu_addr :: bytes
  tu_subnet :: bytes
  tu_mtu :: "64 word"
  tu_hasIface :: bool
  tu_isOpen :: bool
  tu_isEnabled :: bool
  tu_name :: string
  tu_cfg_mtu :: "64 word"

datatype tun_option = InterfaceName string | InterfaceMTU "64 word"

fun tun_applyOption :: "tun_option \<Rightarrow> tun_adapter \<Rightarrow> tun_adapter" where
  "tun_applyOption (InterfaceName v) m = m\<lparr>tu_name := v\<rparr>"
| "tun_applyOption (InterfaceMTU v) m = m\<lparr>tu_cfg_mtu := v\<rparr>"

definition DefaultName :: "string \<Rightarrow> string" where "DefaultName dc = pd_IfName (GetDefaults dc)"
definition DefaultMTU :: "string \<Rightarrow> 64 word" where "DefaultMTU dc = of_nat (pd_IfMTU (GetDefaults dc))"
definition MaximumMTU :: "64 word" where "MaximumMTU = of_nat (pd_MaximumIfMTU getDefaults)"

definition getSupportedMTU :: "64 word \<Rightarrow> 64 word" where
  "getSupportedMTU mtu = (if mtu < 1280 then 1280 else if mtu > MaximumMTU then MaximumMTU else mtu)"

definition tun_MTU :: "tun_adapter \<Rightarrow> 64 word" where
  "tun_MTU t = getSupportedMTU (tu_mtu t)"

section \<open>Starting\<close>

text \<open>The device: \<open>create name mtu\<close> is \<open>None\<close> when it cannot be created, which panics, and otherwise its MTU,
  unless that cannot be read; \<open>address_ok\<close> says whether the address, with the length of its
  prefix, could be configured.  How each platform configures it is in Tun_Setup.\<close>

record tun_device =
  td_create :: "string \<Rightarrow> 64 word \<Rightarrow> 64 word option option"
  td_address_ok :: "bytes \<times> int \<Rightarrow> bool"

definition tun_setup_as ::
  "string \<Rightarrow> tun_device \<Rightarrow> bytes \<times> int \<Rightarrow> 64 word \<Rightarrow> tun_adapter \<Rightarrow> (bool \<times> tun_adapter) outcome" where
  "tun_setup_as ifname d addr mtu t =
     (case td_create d ifname mtu of
        None \<Rightarrow> Panic
      | Some m \<Rightarrow> Ret (td_address_ok d addr,
          t\<lparr>tu_hasIface := True, tu_mtu := (case m of Some mtu \<Rightarrow> getSupportedMTU mtu | None \<Rightarrow> 0)\<rparr>))"

definition tun_setup ::
  "tun_device \<Rightarrow> string \<Rightarrow> bytes \<times> int \<Rightarrow> 64 word \<Rightarrow> tun_adapter \<Rightarrow> (bool \<times> tun_adapter) outcome" where
  "tun_setup d ifname = tun_setup_as (if ifname = ''auto'' then [CHR 0x00] else ifname) d"

text \<open>On other platforms the address is left to the user.\<close>

definition tun_setup_other ::
  "tun_device \<Rightarrow> string \<Rightarrow> bytes \<times> int \<Rightarrow> 64 word \<Rightarrow> tun_adapter \<Rightarrow> (bool \<times> tun_adapter) outcome" where
  "tun_setup_other d ifname = tun_setup_as ifname (d\<lparr>td_address_ok := \<lambda>_. True\<rparr>)"

datatype tun_started = TunAlreadyStarted | TunSetupFailed | TunDisabled | TunStarted

definition tun_start ::
  "network_domain \<Rightarrow> tun_device \<Rightarrow> 64 word \<Rightarrow> tun_adapter \<Rightarrow> (tun_started \<times> tun_adapter) outcome" where
  "tun_start nd d maxMTU t =
     (if tu_isOpen t then Ret (TunAlreadyStarted, t)
      else let t = t\<lparr>tu_addr := ks_address (tu_store t), tu_subnet := ks_subnet (tu_store t)\<rparr>
           in bind_outcome (GetPrefix nd) (\<lambda>prefix. let addr = (tu_addr t, 8 * int (length prefix) - 1)
           in if tu_name t = ''none'' \<or> tu_name t = ''dummy'' then Ret (TunDisabled, t\<lparr>tu_isEnabled := False\<rparr>)
              else let mtu = (if maxMTU < tu_cfg_mtu t then maxMTU else tu_cfg_mtu t)
                   in bind_outcome (tun_setup d (tu_name t) addr mtu t) (\<lambda>(ok, t).
                        if \<not> ok then Ret (TunSetupFailed, t)
                        else Ret (TunStarted, t\<lparr>tu_store := SetMTU maxMTU (tun_MTU t) (tu_store t),
                                                tu_isOpen := True, tu_isEnabled := True\<rparr>))))"

definition tun_New ::
  "network_domain \<Rightarrow> bool \<Rightarrow> tun_device \<Rightarrow> 64 word \<Rightarrow> bytes \<Rightarrow> tun_option list
    \<Rightarrow> (tun_started \<times> tun_adapter) outcome" where
  "tun_New nd oobSet d maxMTU public opts =
     bind_outcome (ks_init nd oobSet public) (\<lambda>store. tun_start nd d maxMTU (fold tun_applyOption opts
       \<lparr>tu_store = store, tu_addr = [], tu_subnet = [], tu_mtu = 0, tu_hasIface = False, tu_isOpen = False,
        tu_isEnabled = False, tu_name = '''', tu_cfg_mtu = 0\<rparr>))"

definition tun_IsStarted :: "tun_adapter \<Rightarrow> bool" where
  "tun_IsStarted t = tu_isOpen t"

definition tun_stop :: "tun_adapter \<Rightarrow> tun_adapter" where
  "tun_stop t = t\<lparr>tu_isOpen := False\<rparr>"

text \<open>The name of the device, empty when it cannot be read; what is reported on it.\<close>

definition tun_Name :: "string option \<Rightarrow> string" where
  "tun_Name iface = (case iface of Some name \<Rightarrow> name | None \<Rightarrow> '''')"

definition getTUNHandler :: "string option \<Rightarrow> tun_adapter \<Rightarrow> bool \<times> string \<times> 64 word" where
  "getTUNHandler iface t = (if \<not> tu_isEnabled t then (False, '''', 0) else (True, tun_Name iface, tun_MTU t))"

section \<open>Packets\<close>

definition TUN_OFFSET_BYTES :: nat where "TUN_OFFSET_BYTES = 4"

text \<open>The reader's loop over what the device hands over, a packet or an error (\<open>None\<close>): the store after, the
  packets sent, and whether the reader still runs.  Errors of \<open>Write\<close> are logged.\<close>

fun tun_read ::
  "network_domain \<Rightarrow> (bytes \<Rightarrow> bytes) \<Rightarrow> bytes option list \<Rightarrow> key_store
    \<Rightarrow> (key_store \<times> ks_out list \<times> bool) outcome" where
  "tun_read nd sign [] s = Ret (s, [], True)"
| "tun_read nd sign (None # reads) s = Ret (s, [], False)"
| "tun_read nd sign (Some bs # reads) s =
     (if length bs \<le> TUN_OFFSET_BYTES then Ret (s, [], False)
      else bind_outcome (writePC nd sign bs s) (\<lambda>(_, s, outs).
             bind_outcome (tun_read nd sign reads s) (\<lambda>(s, outs', running). Ret (s, outs @ outs', running))))"

text \<open>The writer's step for what \<open>readPC\<close> returned: the packet handed to the device; \<open>None\<close> ends the
  writer.\<close>

definition tun_write :: "bool \<Rightarrow> read_result \<Rightarrow> bytes list option" where
  "tun_write isEnabled r =
     (case r of ReadError \<Rightarrow> None
      | ReadBlocked \<Rightarrow> Some []
      | ReadPacket buf n \<Rightarrow> if isEnabled then Some [take n buf] else Some [])"

section \<open>The MTU of the adapter\<close>

lemma SetMTU_range:
  assumes "1280 \<le> mtu"
  shows "ks_mtu (SetMTU maxMTU mtu s) = (if maxMTU < 1280 then 1280 else min mtu maxMTU)"
  using assms by (auto simp: SetMTU_def Let_def min_def)

lemma getSupportedMTU_range: "1280 \<le> getSupportedMTU mtu" "getSupportedMTU mtu \<le> MaximumMTU"
  "1280 \<le> mtu \<Longrightarrow> mtu \<le> MaximumMTU \<Longrightarrow> getSupportedMTU mtu = mtu"
  by (auto simp: getSupportedMTU_def MaximumMTU_def getDefaults_def)

text \<open>C30: the MTU a started adapter uses: the one of the device, raised to 1280 and lowered to 65535 and to what a
  session carries (unless that is below 1280, when it is 1280); the device is asked for the
  configured MTU, lowered to what a session carries.  A name of none or dummy starts no device.\<close>

theorem started_mtu:
  assumes "tun_start nd d maxMTU t = Ret (TunStarted, t')"
  shows "\<exists>m. td_create d (if tu_name t = ''auto'' then [CHR 0x00] else tu_name t) (min maxMTU (tu_cfg_mtu t)) = Some m
      \<and> ks_mtu (tu_store t') = (if maxMTU < 1280 then 1280
           else min (max 1280 (min 65535 (case m of Some mtu \<Rightarrow> mtu | None \<Rightarrow> 0))) maxMTU)
      \<and> tu_isOpen t' \<and> tu_isEnabled t' \<and> tu_name t \<notin> {''none'', ''dummy''} \<and> \<not> tu_isOpen t"
proof -
  have supported: "getSupportedMTU (getSupportedMTU mtu) = getSupportedMTU mtu" for mtu
    by (rule getSupportedMTU_range(3) [OF getSupportedMTU_range(1,2)])
  have eq: "getSupportedMTU mtu = max 1280 (min 65535 mtu)" for mtu
    by (auto simp: getSupportedMTU_def MaximumMTU_def getDefaults_def max_def min_def dest: less_trans)
  have min': "(if maxMTU < c then maxMTU else c) = min maxMTU c" for c
    by (auto simp: min_def)
  obtain m where "td_create d (if tu_name t = ''auto'' then [CHR 0x00] else tu_name t) (min maxMTU (tu_cfg_mtu t)) = Some m"
    and "tu_store t' = SetMTU maxMTU (getSupportedMTU (case m of Some mtu \<Rightarrow> getSupportedMTU mtu | None \<Rightarrow> 0)) (tu_store t)"
    and "tu_isOpen t'" "tu_isEnabled t'" "tu_name t \<notin> {''none'', ''dummy''}" "\<not> tu_isOpen t"
    using assms
    by (auto simp: tun_start_def tun_setup_def tun_setup_as_def tun_MTU_def Let_def go_simps min' split: if_splits option.splits)
  moreover have "ks_mtu (SetMTU maxMTU (getSupportedMTU c) s) = (if maxMTU < 1280 then 1280
      else min (max 1280 (min 65535 c)) maxMTU)" for c s
    using SetMTU_range [OF getSupportedMTU_range(1), where maxMTU = maxMTU] by (simp only: eq)
  ultimately show ?thesis by (cases m) (auto simp: supported)
qed

definition example_tun :: tun_adapter where
  "example_tun =
     \<lparr>tu_store = \<lparr>ks_address = [], ks_subnet = [], ks_keyToInfo = Map.empty, ks_addrToInfo = Map.empty,
        ks_addrBuffer = Map.empty, ks_subnetToInfo = Map.empty, ks_subnetBuffer = Map.empty, ks_mtu = 1280,
        ks_infos = Map.empty, ks_buffers = Map.empty, ks_timers = Map.empty, ks_fired = [], ks_next = 0\<rparr>,
      tu_addr = [], tu_subnet = [], tu_mtu = 0, tu_hasIface = False, tu_isOpen = False, tu_isEnabled = False,
      tu_name = ''auto'', tu_cfg_mtu = 65535\<rparr>"

definition example_device :: tun_device where
  "example_device = \<lparr>td_create = (\<lambda>_ mtu. Some (Some mtu)), td_address_ok = (\<lambda>_. True)\<rparr>"

lemma example_prefix: "GetPrefix \<lparr>Prefix = ''fc''\<rparr> = Ret [0xFC]"
  by code_simp

lemma example_started:
  "\<exists>t. tun_start \<lparr>Prefix = ''fc''\<rparr> example_device 9000 example_tun = Ret (TunStarted, t)"
  by (simp add: tun_start_def tun_setup_def tun_setup_as_def example_device_def example_tun_def example_prefix Let_def go_simps)

theorem started_mtu_witness:
  "\<exists>t. tun_start \<lparr>Prefix = ''fc''\<rparr> example_device 9000 example_tun = Ret (TunStarted, t) \<and> ks_mtu (tu_store t) = 9000"
proof -
  obtain t where t: "tun_start \<lparr>Prefix = ''fc''\<rparr> example_device 9000 example_tun = Ret (TunStarted, t)"
    using example_started by blast
  have "ks_mtu (tu_store t) = 9000"
    using started_mtu [OF t] by (auto simp: example_device_def example_tun_def)
  with t show ?thesis by blast
qed

end
