(* ===== verification/Ip_Text.thy ===== *)
theory Ip_Text
  imports Net
begin

text \<open>
  What the code uses of Go's text of IPv6 addresses: \<open>net.IP.String\<close> of an address of 16 bytes that is not an IPv4
  address in IPv6 form, and \<open>strconv.ParseUint\<close> of base 16 and 16 bits.  The longest run of at least two
  zero groups, the first of the longest ones, is left out.
\<close>

section \<open>Hexadecimal numbers\<close>

fun show_hex :: "nat \<Rightarrow> string" where
  "show_hex n = (if n < 16 then [hex_digits ! n] else show_hex (n div 16) @ [hex_digits ! (n mod 16)])"

declare show_hex.simps [simp del]

text \<open>The value \<open>ParseUint\<close> returns beside its error: 0 where the text is not a number, the largest one where the
  number is too large, which is noticed before the rest is read.\<close>

fun ParseUint16 :: "nat \<Rightarrow> string \<Rightarrow> nat" where
  "ParseUint16 acc [] = acc"
| "ParseUint16 acc (c # cs) =
     (case hex_val c of None \<Rightarrow> 0
      | Some d \<Rightarrow> let n = 16 * acc + unat d in if n > 65535 then 65535 else ParseUint16 n cs)"

declare ParseUint16.simps(2) [simp del]

lemma ParseUint16_digit: "n < 16 \<Longrightarrow> 16 * acc + n \<le> 65535 \<Longrightarrow>
    ParseUint16 acc (hex_digits ! n # cs) = ParseUint16 (16 * acc + n) cs"
  by (simp add: ParseUint16.simps(2) hex_val_digit unsigned_of_nat take_bit_nat_eq_self)

lemma ParseUint16_append: "n \<le> 65535 \<Longrightarrow> ParseUint16 0 (show_hex n @ cs) = ParseUint16 n cs"
proof (induction n arbitrary: cs rule: show_hex.induct)
  case (1 n)
  show ?case
  proof (cases "n < 16")
    case True
    then show ?thesis by (simp add: show_hex.simps [of n] ParseUint16_digit)
  next
    case False
    then have "ParseUint16 0 (show_hex n @ cs) = ParseUint16 (n div 16) (hex_digits ! (n mod 16) # cs)"
      using 1 by (simp add: show_hex.simps [of n])
    then show ?thesis using 1(2) by (simp add: ParseUint16_digit)
  qed
qed

lemma ParseUint16_show [simp]: "n \<le> 65535 \<Longrightarrow> ParseUint16 0 (show_hex n) = n"
  using ParseUint16_append [of n "[]"] by simp

lemma hex_digits_set: "set hex_digits \<inter> {CHR '':'', CHR ''/''} = {}"
  by (simp add: hex_digits_def)

lemma show_hex_digits: "set (show_hex n) \<subseteq> set hex_digits"
proof (induction n rule: show_hex.induct)
  case (1 n)
  have "hex_digits ! m \<in> set hex_digits" if "m < 16" for m
    using that by (intro nth_mem) (simp add: hex_digits_def)
  then show ?case using 1 by (simp add: show_hex.simps [of n])
qed

lemma show_hex_separators [simp]: "CHR '':'' \<notin> set (show_hex n)" "CHR ''/'' \<notin> set (show_hex n)"
  using show_hex_digits hex_digits_set by blast+

section \<open>Groups of an address\<close>

fun groups :: "bytes \<Rightarrow> nat list" where
  "groups (a # b # bs) = (256 * unat a + unat b) # groups bs"
| "groups _ = []"

definition zero_run :: "nat list \<Rightarrow> nat \<Rightarrow> nat" where
  "zero_run gs i = length (takeWhile (\<lambda>g. g = 0) (drop i gs))"

definition longer_run :: "nat list \<Rightarrow> nat \<Rightarrow> (nat \<times> nat) option \<Rightarrow> (nat \<times> nat) option" where
  "longer_run gs i best =
     (let l = zero_run gs i
      in if l \<ge> 2 \<and> (case best of None \<Rightarrow> True | Some (_, m) \<Rightarrow> l > m) then Some (i, l) else best)"

definition zero_span :: "nat list \<Rightarrow> (nat \<times> nat) option" where
  "zero_span gs = fold (longer_run gs) [0..<length gs] None"

fun join_colons :: "string list \<Rightarrow> string" where
  "join_colons [] = []"
| "join_colons [x] = x"
| "join_colons (x # xs) = x @ CHR '':'' # join_colons xs"

definition ip_String :: "bytes \<Rightarrow> string" where
  "ip_String a =
     (let gs = groups a
      in case zero_span gs of
           None \<Rightarrow> join_colons (map show_hex gs)
         | Some (i, l) \<Rightarrow> join_colons (map show_hex (take i gs)) @ ''::'' @ join_colons (map show_hex (drop (i + l) gs)))"

lemma length_groups [simp]: "length (groups a) = length a div 2"
  by (induction a rule: groups.induct) simp_all

lemma groups_bound: "list_all (\<lambda>g. g \<le> 65535) (groups a)"
proof (induction a rule: groups.induct)
  case (1 a b bs)
  have "unat a < 256" "unat b < 256"
    using unsigned_less [of a, where 'a = nat] unsigned_less [of b, where 'a = nat] by simp_all
  then show ?case using 1 by simp
qed simp_all

text \<open>What is left out is a run of zeros inside the address.\<close>

definition span_ok :: "nat list \<Rightarrow> (nat \<times> nat) option \<Rightarrow> bool" where
  "span_ok gs best = (case best of None \<Rightarrow> True
     | Some (i, l) \<Rightarrow> 2 \<le> l \<and> i + l \<le> length gs \<and> take l (drop i gs) = replicate l 0)"

lemma takeWhile_zeros: "take (length (takeWhile (\<lambda>g. g = 0) xs)) xs = replicate (length (takeWhile (\<lambda>g. g = (0::nat)) xs)) 0"
  by (induction xs) auto

lemma zero_run_zeros: "take (zero_run gs i) (drop i gs) = replicate (zero_run gs i) 0"
  unfolding zero_run_def by (rule takeWhile_zeros)

lemma zero_run_bound: "i \<le> length gs \<Longrightarrow> i + zero_run gs i \<le> length gs"
  using length_takeWhile_le [of "\<lambda>g. g = 0" "drop i gs"] by (simp add: zero_run_def)

lemma longer_run_ok: "span_ok gs best \<Longrightarrow> i \<le> length gs \<Longrightarrow> span_ok gs (longer_run gs i best)"
  using zero_run_bound [of i gs] by (auto simp: span_ok_def longer_run_def Let_def zero_run_zeros)

lemma zero_span_ok: "span_ok gs (zero_span gs)"
proof -
  have "list_all (\<lambda>i. i \<le> length gs) is \<Longrightarrow> span_ok gs best \<Longrightarrow> span_ok gs (fold (longer_run gs) is best)" for "is" best
    by (induction "is" arbitrary: best) (auto intro: longer_run_ok)
  then show ?thesis by (simp add: zero_span_def list_all_iff span_ok_def)
qed

lemma longer_run_None: "longer_run gs i best = None \<longleftrightarrow> best = None \<and> zero_run gs i < 2"
  by (auto simp: longer_run_def Let_def split: option.splits)

lemma zero_span_None: "zero_span gs = None \<longleftrightarrow> list_all (\<lambda>i. zero_run gs i < 2) [0..<length gs]"
proof -
  have "fold (longer_run gs) is best = None \<longleftrightarrow> best = None \<and> list_all (\<lambda>i. zero_run gs i < 2) is" for "is" best
    by (induction "is" arbitrary: best) (auto simp: longer_run_None)
  then show ?thesis by (simp add: zero_span_def)
qed

section \<open>Splitting the text again\<close>

lemma Split_join_colons:
  "xs \<noteq> [] \<Longrightarrow> list_all (\<lambda>x. CHR '':'' \<notin> set x) xs \<Longrightarrow> Split CHR '':'' (join_colons xs) = xs"
  by (induction xs rule: join_colons.induct) (auto simp: Split_single Split_append)

lemma Split_join_colons_append:
  "xs \<noteq> [] \<Longrightarrow> list_all (\<lambda>x. CHR '':'' \<notin> set x) xs \<Longrightarrow>
    Split CHR '':'' (join_colons xs @ CHR '':'' # s) = xs @ Split CHR '':'' s"
  by (induction xs rule: join_colons.induct) (auto simp: Split_append)

lemma list_all_show_hex [simp]: "list_all (\<lambda>x. CHR '':'' \<notin> set x) (map show_hex gs)"
  by (simp add: list_all_iff)

lemma set_join_colons: "set (join_colons xs) \<subseteq> insert CHR '':'' (\<Union> (set ` set xs))"
  by (induction xs rule: join_colons.induct) auto

lemma slash_join_colons [simp]: "CHR ''/'' \<notin> set (join_colons (map show_hex gs))"
  using set_join_colons [of "map show_hex gs"] by auto

lemma slash_ip_String [simp]: "CHR ''/'' \<notin> set (ip_String a)"
  by (auto simp: ip_String_def Let_def split: option.splits)

lemma zero_span_pos:
  assumes "zero_span gs = Some (i, l)" "hd gs \<noteq> 0"
  shows "0 < i"
proof (rule ccontr)
  assume "\<not> 0 < i"
  then have ok: "2 \<le> l" "l \<le> length gs" "take l gs = replicate l 0"
    using zero_span_ok [of gs] assms by (auto simp: span_ok_def)
  then have "gs ! 0 = 0" using nth_take [of 0 l gs] by simp
  then show False using assms(2) ok by (cases gs) auto
qed

lemma Split_ip_String:
  assumes "groups a \<noteq> []" "hd (groups a) \<noteq> 0"
  shows "Split CHR '':'' (ip_String a) =
    (case zero_span (groups a) of None \<Rightarrow> map show_hex (groups a)
     | Some (i, l) \<Rightarrow> map show_hex (take i (groups a)) @ [] #
         (if i + l = length (groups a) then [[]] else map show_hex (drop (i + l) (groups a))))"
proof (cases "zero_span (groups a)")
  case None
  then show ?thesis using assms by (simp add: ip_String_def Split_join_colons)
next
  case (Some p)
  then obtain i l where il: "zero_span (groups a) = Some (i, l)" by (cases p) auto
  have ok: "i + l \<le> length (groups a)" using zero_span_ok [of "groups a"] il by (simp add: span_ok_def)
  have "take i (groups a) \<noteq> []" using zero_span_pos [OF il assms(2)] assms(1) by simp
  then show ?thesis using il ok
    by (auto simp: ip_String_def Let_def Split_join_colons Split_join_colons_append simp del: length_groups)
qed

end
