(* ===== verification/Tun_Setup.thy ===== *)
theory Tun_Setup
  imports Tun Ip_Text
begin

text \<open>
  How each platform sets the TUN device up (\<open>setup\<close>, \<open>setupAddress\<close> and \<open>setupMTU\<close> of tun_linux.go,
  tun_darwin.go, tun_bsd.go and tun_windows.go): the requests that are made of the system, with their
  contents, in their order, up to the first that fails.  The answers of the system are arguments.
\<close>

section \<open>The address\<close>

text \<open>The argument of \<open>setup\<close>: the text of the address with the length of its prefix.\<close>

definition addr_text :: "bytes \<times> int \<Rightarrow> string" where
  "addr_text a = ip_String (fst a) @ CHR ''/'' # show_nat (nat (snd a))"

text \<open>The loop over the eight groups of that text, the same on macOS and BSD: each number is written with its low
  byte first and read with its high byte first.  A text of less than eight parts is indexed out of range.\<close>

definition swapped :: "16 word \<Rightarrow> 16 word" where
  "swapped v = get_uint16 (rev (put_uint16 v))"

definition sin6_words :: "string \<Rightarrow> 16 word list outcome" where
  "sin6_words addr =
     (let parts = Split CHR '':'' (hd (Split CHR ''/'' addr))
      in if length parts < 8 then Panic
         else Ret (map (\<lambda>i. swapped (word_of_nat (ParseUint16 0 (parts ! i)))) [0..<8]))"

text \<open>What such words are in the memory of a machine that stores the low byte first.\<close>

definition in_memory :: "16 word list \<Rightarrow> bytes" where
  "in_memory ws = concat (map (\<lambda>w. rev (put_uint16 w)) ws)"

lemma put_get_uint16: "put_uint16 (get_uint16 [x, y]) = [x, y]"
  unfolding put_uint16_def get_uint16_def by (auto intro!: bit_word_eqI simp: bit_simps impossible_bit)

lemma in_memory_swapped: "in_memory (map swapped vs) = concat (map put_uint16 vs)"
proof (induction vs)
  case (Cons v vs)
  have "put_uint16 (swapped v) = rev (put_uint16 v)"
    unfolding swapped_def by (simp add: put_uint16_def [of v] put_get_uint16)
  then show ?case using Cons by (simp add: in_memory_def)
qed (simp add: in_memory_def)

lemma group_word: "word_of_nat (256 * unat a + unat b) = get_uint16 [a, b]" for a b :: byte
proof -
  have "push_bit 8 (ucast a) OR ucast b = push_bit 8 (ucast a) + (ucast b :: 16 word)"
    by (rule disjunctive_add [symmetric]) (auto simp: bit_simps dest: bit_imp_le_length)
  moreover have "push_bit 8 (ucast a :: 16 word) = word_of_nat (256 * unat a)"
    by (simp add: push_bit_eq_mult unsigned_ucast_eq)
  ultimately show ?thesis by (simp add: get_uint16_def)
qed

lemma groups_memory: "even (length a) \<Longrightarrow> concat (map put_uint16 (map word_of_nat (groups a))) = a"
  by (induction a rule: groups.induct) (simp_all add: group_word put_get_uint16 del: of_nat_add of_nat_mult)

lemma Split_addr_text: "hd (Split CHR ''/'' (addr_text (a, n))) = ip_String a"
proof -
  have "CHR ''/'' \<notin> set (ip_String a)" by simp
  then show ?thesis by (simp add: addr_text_def Split_append)
qed

text \<open>The texts of eight parts: nothing is left out, or the last two groups are.\<close>

definition eight_parts :: "bytes \<Rightarrow> bool" where
  "eight_parts a \<longleftrightarrow> zero_span (groups a) = None \<or> zero_span (groups a) = Some (6, 2)"

lemma sin6_words_parts:
  "sin6_words (addr_text (a, n)) =
    (let parts = Split CHR '':'' (ip_String a)
     in if length parts < 8 then Panic else Ret (map swapped (map word_of_nat (map (ParseUint16 0) (take 8 parts)))))"
  by (auto simp: sin6_words_def Split_addr_text Let_def intro!: nth_equalityI)

lemma ParseUint16_groups: "map (ParseUint16 0) (map show_hex (groups a)) = groups a"
  using groups_bound [of a] by (auto simp: list_all_iff intro: map_idI)

lemma ip_String_parts:
  assumes "length a = 16" "hd (groups a) \<noteq> 0"
  shows "if eight_parts a then length (Split CHR '':'' (ip_String a)) = 8 \<and> map (ParseUint16 0) (Split CHR '':'' (ip_String a)) = groups a
    else length (Split CHR '':'' (ip_String a)) < 8"
proof (cases "zero_span (groups a)")
  case None
  have "length (groups a) = 8" using assms(1) by simp
  moreover from this have "groups a \<noteq> []" by (metis list.size(3) zero_neq_numeral)
  ultimately show ?thesis
    using None Split_ip_String [of a] assms(2) ParseUint16_groups [of a] by (simp add: eight_parts_def)
next
  case (Some q)
  then obtain i l where il: "zero_span (groups a) = Some (i, l)" by (cases q) auto
  have len: "length (groups a) = 8" using assms(1) by simp
  then have ne: "groups a \<noteq> []" by (metis list.size(3) zero_neq_numeral)
  have ok: "2 \<le> l" "i + l \<le> 8" "take l (drop i (groups a)) = replicate l 0"
    using zero_span_ok [of "groups a"] il len by (auto simp: span_ok_def)
  have p: "Split CHR '':'' (ip_String a) = map show_hex (take i (groups a)) @ [] #
      (if i + l = 8 then [[]] else map show_hex (drop (i + l) (groups a)))"
    using Split_ip_String [OF ne assms(2)] il len by simp
  show ?thesis
  proof (cases "i = 6 \<and> l = 2")
    case True
    then have "drop 6 (groups a) = [0, 0]" using ok len by (simp add: numeral_2_eq_2)
    then have g: "take 6 (groups a) @ [0, 0] = groups a" by (metis append_take_drop_id)
    have "map (ParseUint16 0) (map show_hex (take 6 (groups a))) = take 6 (groups a)"
      using ParseUint16_groups [of a] by (metis take_map)
    then show ?thesis using p True il g len by (simp add: eight_parts_def)
  next
    case False
    then show ?thesis using p ok len il by (auto simp: eight_parts_def)
  qed
qed

lemma sin6_words_text:
  assumes "length a = 16" "hd (groups a) \<noteq> 0"
  shows "sin6_words (addr_text (a, n)) =
    (if eight_parts a then Ret (map swapped (map word_of_nat (groups a))) else Panic)"
  using ip_String_parts [OF assms] by (simp add: sin6_words_parts Let_def split: if_splits)

section \<open>Setting up a device\<close>

text \<open>The device is created, its MTU is read, and the address is configured with what that came to; the result is
  whether it could be, the adapter, and the requests made.\<close>

definition setup_device ::
  "string \<Rightarrow> tun_device \<Rightarrow> (64 word \<Rightarrow> (bool \<times> 'r list) outcome) \<Rightarrow> 64 word \<Rightarrow> tun_adapter \<Rightarrow> (bool \<times> tun_adapter \<times> 'r list) outcome" where
  "setup_device ifname d setupAddress mtu t =
     (case td_create d ifname mtu of
        None \<Rightarrow> Panic
      | Some m \<Rightarrow>
          let t = t\<lparr>tu_hasIface := True, tu_mtu := (case m of Some mtu \<Rightarrow> getSupportedMTU mtu | None \<Rightarrow> 0)\<rparr>
          in bind_outcome (setupAddress (tu_mtu t)) (\<lambda>(ok, reqs). Ret (ok, t, reqs)))"

text \<open>Requests are made one after the other until one is refused.\<close>

fun until_refused :: "('r \<Rightarrow> bool) \<Rightarrow> 'r list \<Rightarrow> bool \<times> 'r list" where
  "until_refused ok [] = (True, [])"
| "until_refused ok (r # rs) =
     (if ok r then (case until_refused ok rs of (res, made) \<Rightarrow> (res, r # made)) else (False, [r]))"

lemma until_refused_spec:
  "until_refused ok rs = (list_all ok rs, takeWhile ok rs @ take 1 (dropWhile ok rs))"
  by (induction rs) (auto simp: case_prod_beta)

section \<open>Linux\<close>

datatype netlink_request = ParseAddr string | LinkByName string | AddrAdd string string | LinkSetMTU string "64 word" | LinkSetUp string

definition linux_setupAddress :: "(netlink_request \<Rightarrow> bool) \<Rightarrow> string \<Rightarrow> 64 word \<Rightarrow> string \<Rightarrow> bool \<times> netlink_request list" where
  "linux_setupAddress ok name mtu addr =
     until_refused ok [ParseAddr addr, LinkByName name, AddrAdd name addr, LinkSetMTU name mtu, LinkSetUp name]"

definition tun_setup_linux ::
  "(netlink_request \<Rightarrow> bool) \<Rightarrow> tun_device \<Rightarrow> string \<Rightarrow> string \<Rightarrow> bytes \<times> int \<Rightarrow> 64 word \<Rightarrow> tun_adapter
    \<Rightarrow> (bool \<times> tun_adapter \<times> netlink_request list) outcome" where
  "tun_setup_linux ok d name ifname addr =
     setup_device (if ifname = ''auto'' then [CHR 0x00] else ifname) d
       (\<lambda>mtu. Ret (linux_setupAddress ok name mtu (addr_text addr)))"

section \<open>macOS\<close>

record sockaddr_in6 =
  sin6_len :: "8 word"
  sin6_family :: "8 word"
  sin6_port :: "8 word"
  sin6_flowinfo :: "32 word"
  sin6_addr :: "16 word list"
  sin6_scope_id :: "32 word"

text \<open>Its size: three bytes, one of padding, four, sixteen and four.\<close>

definition zero_sockaddr :: sockaddr_in6 where
  "zero_sockaddr = \<lparr>sin6_len = 0, sin6_family = 0, sin6_port = 0, sin6_flowinfo = 0, sin6_addr = replicate 8 0, sin6_scope_id = 0\<rparr>"

definition sizeof_sockaddr_in6 :: "8 word" where
  "sizeof_sockaddr_in6 = 28"

record in6_aliasreq =
  ifra_name :: string
  ifra_addr :: sockaddr_in6
  ifra_dstaddr :: sockaddr_in6
  ifra_prefixmask :: sockaddr_in6
  ifra_flags :: "32 word"
  ifra_vltime :: "32 word"
  ifra_pltime :: "32 word"

record ifreq =
  ifr_name :: string
  ifru_mtu :: "32 word"

datatype darwin_ioctl = SIOCAIFADDR_IN6 in6_aliasreq | SIOCSIFMTU ifreq

text \<open>The number of \<open>AF_INET6\<close> is an argument, for it differs between the platforms; a name is cut at 16 bytes.\<close>

definition ifr_bytes :: "string \<Rightarrow> string" where
  "ifr_bytes name = go_copy (replicate 16 (CHR 0x00)) name"

definition darwin_aliasreq :: "8 word \<Rightarrow> string \<Rightarrow> 16 word list \<Rightarrow> in6_aliasreq" where
  "darwin_aliasreq af_inet6 name ws =
     \<lparr>ifra_name = ifr_bytes name,
      ifra_addr = zero_sockaddr\<lparr>sin6_len := sizeof_sockaddr_in6, sin6_family := af_inet6, sin6_addr := ws\<rparr>,
      ifra_dstaddr = zero_sockaddr,
      ifra_prefixmask = zero_sockaddr\<lparr>sin6_len := sizeof_sockaddr_in6, sin6_addr := (replicate 8 0)[0 := swapped 0xFE00]\<rparr>,
      ifra_flags = 0x20 OR 0x400, ifra_vltime = 0xFFFFFFFF, ifra_pltime = 0xFFFFFFFF\<rparr>"

definition darwin_setupAddress ::
  "bool \<Rightarrow> (darwin_ioctl \<Rightarrow> bool) \<Rightarrow> 8 word \<Rightarrow> string \<Rightarrow> 64 word \<Rightarrow> string \<Rightarrow> (bool \<times> darwin_ioctl list) outcome" where
  "darwin_setupAddress socket ok af_inet6 name mtu addr =
     (if \<not> socket then Ret (False, [])
      else bind_outcome (sin6_words addr) (\<lambda>ws. Ret (until_refused ok
             [SIOCAIFADDR_IN6 (darwin_aliasreq af_inet6 name ws), SIOCSIFMTU \<lparr>ifr_name = ifr_bytes name, ifru_mtu = ucast mtu\<rparr>])))"

definition tun_setup_darwin ::
  "bool \<Rightarrow> (darwin_ioctl \<Rightarrow> bool) \<Rightarrow> 8 word \<Rightarrow> tun_device \<Rightarrow> string \<Rightarrow> string \<Rightarrow> bytes \<times> int \<Rightarrow> 64 word \<Rightarrow> tun_adapter
    \<Rightarrow> (bool \<times> tun_adapter \<times> darwin_ioctl list) outcome" where
  "tun_setup_darwin socket ok af_inet6 d name ifname addr =
     setup_device (if ifname = ''auto'' then ''utun'' else ifname) d
       (\<lambda>mtu. darwin_setupAddress socket ok af_inet6 name mtu (addr_text addr))"

section \<open>BSD\<close>

text \<open>A refused request falls back to ifconfig, and what that comes to is only logged.  The MTU is handed to ifconfig as
  Go's conversion of an integer to a string, which is the UTF-8 encoding of the character with that number.\<close>

definition utf8 :: "nat \<Rightarrow> nat list" where
  "utf8 n =
     (if n < 0x80 then [n]
      else if n < 0x800 then [0xC0 + n div 64, 0x80 + n mod 64]
      else if n < 0x10000 then [0xE0 + n div 4096, 0x80 + n div 64 mod 64, 0x80 + n mod 64]
      else [0xF0 + n div 262144, 0x80 + n div 4096 mod 64, 0x80 + n div 64 mod 64, 0x80 + n mod 64])"

definition rune_string :: "nat \<Rightarrow> string" where
  "rune_string n = map char_of (utf8 (if n > 0x10FFFF \<or> 0xD800 \<le> n \<and> n \<le> 0xDFFF then 0xFFFD else n))"

record in6_ifreq_mtu =
  mtu_name :: string
  mtu_value :: "64 word"

record in6_ifreq_addr =
  addr_name :: string
  addr_value :: sockaddr_in6

datatype bsd_request = SetIfMTU in6_ifreq_mtu | SetIfAddr in6_ifreq_addr | Ifconfig "string list"

text \<open>A request, and the command that is run when it is refused.\<close>

definition or_ifconfig :: "(bsd_request \<Rightarrow> bool) \<Rightarrow> bsd_request \<Rightarrow> string list \<Rightarrow> bsd_request list" where
  "or_ifconfig ok r args = r # (if ok r then [] else [Ifconfig (''ifconfig'' # args)])"

definition bsd_setupAddress ::
  "bool \<Rightarrow> (bsd_request \<Rightarrow> bool) \<Rightarrow> 8 word \<Rightarrow> string \<Rightarrow> 64 word \<Rightarrow> string \<Rightarrow> (bool \<times> bsd_request list) outcome" where
  "bsd_setupAddress socket ok af_inet6 name mtu addr =
     (if \<not> socket then Ret (False, [])
      else let mtus = or_ifconfig ok (SetIfMTU \<lparr>mtu_name = ifr_bytes name, mtu_value = mtu\<rparr>) [name, ''mtu'', rune_string (unat mtu)]
      in bind_outcome (sin6_words addr) (\<lambda>ws.
           let ar = \<lparr>addr_name = ifr_bytes name,
                     addr_value = zero_sockaddr\<lparr>sin6_len := sizeof_sockaddr_in6, sin6_family := af_inet6, sin6_addr := ws\<rparr>\<rparr>
           in Ret (True, mtus @ or_ifconfig ok (SetIfAddr ar) [name, ''inet6'', addr])))"

definition tun_setup_bsd ::
  "bool \<Rightarrow> (bsd_request \<Rightarrow> bool) \<Rightarrow> 8 word \<Rightarrow> tun_device \<Rightarrow> string \<Rightarrow> string \<Rightarrow> bytes \<times> int \<Rightarrow> 64 word \<Rightarrow> tun_adapter
    \<Rightarrow> (bool \<times> tun_adapter \<times> bsd_request list) outcome" where
  "tun_setup_bsd socket ok af_inet6 d name ifname addr =
     setup_device ifname d (\<lambda>mtu. bsd_setupAddress socket ok af_inet6 name mtu (addr_text addr))"

section \<open>Windows\<close>

text \<open>The identity of an adapter is taken from the SHA-1 hash of its name, numbers with their low byte first.\<close>

record win_guid =
  Data1 :: "32 word"
  Data2 :: "16 word"
  Data3 :: "16 word"
  Data4 :: bytes

fun little_endian :: "bytes \<Rightarrow> nat" where
  "little_endian [] = 0"
| "little_endian (b # bs) = unat b + 256 * little_endian bs"

definition adapter_guid :: "(string \<Rightarrow> bytes) \<Rightarrow> string \<Rightarrow> win_guid" where
  "adapter_guid sha1 ifname =
     (let hash = sha1 ifname
      in \<lparr>Data1 = word_of_nat (little_endian (take 4 hash)), Data2 = word_of_nat (little_endian (take 2 (drop 4 hash))),
          Data3 = word_of_nat (little_endian (take 2 (drop 6 hash))), Data4 = go_copy (replicate 8 0) (take 8 (drop 8 hash))\<rparr>)"

text \<open>Setting the addresses of an interface; when they belong to another one already, they are taken from all
  interfaces that are down, and it is tried once more.\<close>

datatype set_result = SetOk | AlreadyExists | SetError

record win_iface =
  wi_LUID :: nat
  wi_up :: bool
  wi_addresses :: "(bytes option \<times> nat) list"

definition cleanup_addresses :: "(bytes \<times> nat) list \<Rightarrow> win_iface list option \<Rightarrow> (nat \<times> bytes \<times> nat) list" where
  "cleanup_addresses addresses interfaces =
     (if addresses = [] then []
      else case interfaces of None \<Rightarrow> []
      | Some ifs \<Rightarrow> concat (map (\<lambda>i. if wi_up i then []
          else concat (map (\<lambda>(ip, len). case ip of None \<Rightarrow> []
            | Some ip \<Rightarrow> if ip \<in> set (map fst addresses) then [(wi_LUID i, ip, len)] else []) (wi_addresses i))) ifs))"

text \<open>What the calls of one attempt come to: the text parsed as a prefix, the two attempts at setting it, and the
  interfaces listed between them.\<close>

record win_attempt =
  wa_parsed :: "(bytes \<times> nat) option"
  wa_first :: set_result
  wa_second :: set_result
  wa_interfaces :: "win_iface list option"

definition win_setupAddress :: "bool \<Rightarrow> string \<Rightarrow> win_attempt \<Rightarrow> bool \<times> (nat \<times> bytes \<times> nat) list" where
  "win_setupAddress native name a =
     (if name = '''' \<or> \<not> native then (False, [])
      else case wa_parsed a of None \<Rightarrow> (False, [])
      | Some address \<Rightarrow>
          (case wa_first a of SetOk \<Rightarrow> (True, []) | SetError \<Rightarrow> (False, [])
           | AlreadyExists \<Rightarrow> (wa_second a = SetOk, cleanup_addresses [address] (wa_interfaces a))))"

text \<open>The MTU: whether it could be set, and the one that is forced upon the device.\<close>

definition win_setupMTU :: "bool \<Rightarrow> string \<Rightarrow> bool \<Rightarrow> bool \<Rightarrow> 64 word \<Rightarrow> bool \<times> 64 word option" where
  "win_setupMTU native name ip_ok set_ok mtu =
     (if name = '''' then (False, None)
      else if \<not> native then (True, None)
      else if \<not> ip_ok then (False, None)
      else (set_ok, Some (ucast (ucast mtu :: 32 word))))"

text \<open>The attempts at the address, from the \<open>i\<close>-th: whether one succeeded, and the seconds slept after those that
  did not.\<close>

function win_attempts :: "(nat \<Rightarrow> bool) \<Rightarrow> nat \<Rightarrow> bool \<times> nat list" where
  "win_attempts ok i =
     (if \<not> i < 10 then (True, [])
      else if ok i then (True, [])
      else if i > 8 then (False, [])
      else case win_attempts ok (i + 1) of (res, sleeps) \<Rightarrow> (res, 2 * i # sleeps))"
  by auto
termination by (relation "measure (\<lambda>(ok, i). 10 - i)") auto

declare win_attempts.simps [simp del]

text \<open>The system: whether the function runs with the rights of the system, whether the first and the second
  creation of the device succeed, its name, the attempts, and the answers on its MTU.\<close>

record win_system =
  ws_elevated :: bool
  ws_create :: "nat \<Rightarrow> string \<Rightarrow> win_guid \<Rightarrow> 64 word \<Rightarrow> bool"
  ws_name :: string
  ws_native :: bool
  ws_attempt :: "nat \<Rightarrow> win_attempt"
  ws_ip_ok :: bool
  ws_set_ok :: bool
  ws_mtu :: "64 word option"

definition tun_setup_windows ::
  "(string \<Rightarrow> bytes) \<Rightarrow> string \<Rightarrow> win_system \<Rightarrow> string \<Rightarrow> 64 word \<Rightarrow> tun_adapter \<Rightarrow> bool \<times> tun_adapter \<times> nat list" where
  "tun_setup_windows sha1 default_name w ifname mtu t =
     (let ifname = (if ifname = ''auto'' then default_name else ifname);
          guid = adapter_guid sha1 ifname
      in if \<not> ws_elevated w then (False, t, [])
         else if \<not> ws_create w 0 ifname guid mtu \<and> \<not> ws_create w 1 ifname guid mtu then (False, t, [])
         else let t = t\<lparr>tu_hasIface := True\<rparr>
              in case win_attempts (\<lambda>i. fst (win_setupAddress (ws_native w) (ws_name w) (ws_attempt w i))) 1 of
                (res, sleeps) \<Rightarrow>
                  if \<not> res then (False, t, sleeps)
                  else if \<not> fst (win_setupMTU (ws_native w) (ws_name w) (ws_ip_ok w) (ws_set_ok w) (getSupportedMTU mtu))
                  then (False, t, sleeps)
                  else (True, (case ws_mtu w of Some m \<Rightarrow> t\<lparr>tu_mtu := m\<rparr> | None \<Rightarrow> t), sleeps))"

section \<open>Attempts\<close>

lemma win_attempts_fail: "list_all (\<lambda>i. \<not> ok i) [k..<10] \<Longrightarrow> k < 10 \<Longrightarrow>
    win_attempts ok k = (False, map (\<lambda>i. 2 * i) [k..<9])"
proof (induction ok k rule: win_attempts.induct)
  case (1 ok i)
  then show ?case
    by (subst win_attempts.simps) (auto simp: upt_conv_Cons)
qed

lemma win_attempts_succeed: "k \<le> n \<Longrightarrow> n < 10 \<Longrightarrow> ok n \<Longrightarrow> list_all (\<lambda>i. \<not> ok i) [k..<n] \<Longrightarrow>
    win_attempts ok k = (True, map (\<lambda>i. 2 * i) [k..<n])"
proof (induction ok k rule: win_attempts.induct)
  case (1 ok i)
  show ?case
  proof (cases "i = n")
    case True
    then show ?thesis using 1 by (subst win_attempts.simps) simp
  next
    case False
    then show ?thesis using 1 by (subst win_attempts.simps) (auto simp: upt_conv_Cons)
  qed
qed

lemma win_attempts_run:
  "\<exists>n \<le> 8. win_attempts ok 1 = (list_ex ok [1..<10], map (\<lambda>i. 2 * i) [1..<Suc n]) \<and> list_all (\<lambda>i. \<not> ok i) [1..<Suc n]"
proof (cases "list_ex ok [1..<10]")
  case True
  let ?n = "LEAST i. 1 \<le> i \<and> ok i"
  obtain i where i: "1 \<le> i \<and> ok i" "i < 10" using True by (auto simp: list_ex_iff)
  have n: "1 \<le> ?n \<and> ok ?n" using i(1) by (rule LeastI)
  moreover have "?n < 10" using Least_le [of "\<lambda>i. 1 \<le> i \<and> ok i", OF i(1)] i(2) by simp
  moreover have none: "list_all (\<lambda>i. \<not> ok i) [1..<?n]" by (auto simp: list_all_iff dest: not_less_Least)
  ultimately have "win_attempts ok 1 = (True, map (\<lambda>i. 2 * i) [1..<?n])" by (intro win_attempts_succeed) auto
  then show ?thesis using n none \<open>?n < 10\<close> True by (intro exI [of _ "?n - 1"]) auto
next
  case False
  then have none: "list_all (\<lambda>i. \<not> ok i) [1..<10]" by (simp add: list_all_iff list_ex_iff)
  then have "win_attempts ok 1 = (False, map (\<lambda>i. 2 * i) [1..<Suc 8])" using win_attempts_fail [of ok 1] by simp
  moreover have "list_all (\<lambda>i. \<not> ok i) [1..<Suc 8]" using none by (auto simp: list_all_iff)
  ultimately show ?thesis using False by (intro exI [of _ 8]) (simp del: upt_Suc)
qed

lemma sleeps_bounded: "n \<le> 8 \<Longrightarrow> sum_list (map (\<lambda>i. 2 * i) [1..<Suc n]) \<le> 72"
proof -
  assume "n \<le> 8"
  then have "list_ex (\<lambda>m. n = m) [0..<9]" by (auto simp: list_ex_iff)
  moreover have "list_all (\<lambda>n. sum_list (map (\<lambda>i. 2 * i) [1..<Suc n]) \<le> 72) [0..<9]" by code_simp
  ultimately show ?thesis by (auto simp: list_ex_iff list_all_iff)
qed

section \<open>Properties\<close>

text \<open>C32: the set-up on macOS: where the text of the address has eight parts, the first request carries the sixteen bytes
  of the address and the mask of seven bits, and the set-up succeeds exactly when no request is refused.
  Where the text leaves out zeros anywhere but in the last two groups, the set-up panics.\<close>

theorem darwin_setup:
  assumes "length a = 16" "hd (groups a) \<noteq> 0"
    and "td_create d (if ifname = ''auto'' then ''utun'' else ifname) mtu = Some m"
  shows "if eight_parts a
    then \<exists>res t' ar made. tun_setup_darwin True ok af_inet6 d name ifname (a, n) mtu t = Ret (res, t', SIOCAIFADDR_IN6 ar # made)
      \<and> in_memory (sin6_addr (ifra_addr ar)) = a
      \<and> in_memory (sin6_addr (ifra_prefixmask ar)) = 0xFE # replicate 15 0
      \<and> (res \<longleftrightarrow> list_all ok (SIOCAIFADDR_IN6 ar # made))
    else tun_setup_darwin True ok af_inet6 d name ifname (a, n) mtu t = Panic"
proof (cases "eight_parts a")
  case True
  let ?ar = "darwin_aliasreq af_inet6 name (map swapped (map word_of_nat (groups a)))"
  have a: "in_memory (sin6_addr (ifra_addr ?ar)) = a"
    unfolding darwin_aliasreq_def using assms(1) groups_memory [of a] by (simp add: in_memory_swapped del: map_map)
  have "in_memory (sin6_addr (ifra_prefixmask ?ar)) = 0xFE # replicate 15 0"
    unfolding darwin_aliasreq_def by code_simp
  moreover note a True
  ultimately show ?thesis using assms sin6_words_text [OF assms(1,2), of n]
    by (auto simp: tun_setup_darwin_def setup_device_def darwin_setupAddress_def Let_def)
next
  case False
  then show ?thesis using assms sin6_words_text [OF assms(1,2), of n]
    by (simp add: tun_setup_darwin_def setup_device_def darwin_setupAddress_def Let_def)
qed

text \<open>An address of the default domain, and one with zeros inside.\<close>

definition plain_address :: bytes where
  "plain_address = [0xfc, 1, 0x20, 2, 0x30, 3, 0x40, 4, 0x50, 5, 0x60, 6, 0x70, 7, 0x80, 8]"

definition zeros_address :: bytes where
  "zeros_address = [0xfc, 1, 0, 0, 0, 0, 0x40, 4, 0x50, 5, 0x60, 6, 0x70, 7, 0x80, 8]"

lemma upto8: "[0..<8] = [0, 1, 2, 3, 4, 5, 6, 7]"
  by (simp add: upt_rec)

lemma plain_groups: "groups plain_address = [0xfc01, 0x2002, 0x3003, 0x4004, 0x5005, 0x6006, 0x7007, 0x8008]"
  by (simp add: plain_address_def)

lemma zeros_groups: "groups zeros_address = [0xfc01, 0, 0, 0x4004, 0x5005, 0x6006, 0x7007, 0x8008]"
  by (simp add: zeros_address_def)

lemma plain_eight_parts: "eight_parts plain_address"
  unfolding eight_parts_def plain_groups zero_span_None by (simp add: upt_rec zero_run_def)

lemma zeros_not_eight_parts: "\<not> eight_parts zeros_address"
  unfolding eight_parts_def zeros_groups zero_span_def
  by (simp add: upt_rec longer_run_def zero_run_def Let_def)

theorem darwin_setup_witness:
  "(\<exists>t' ar made. tun_setup_darwin True (\<lambda>_. True) 30 example_device ''utun3'' ''auto'' (plain_address, 7) 9000 example_tun
      = Ret (True, t', SIOCAIFADDR_IN6 ar # made) \<and> in_memory (sin6_addr (ifra_addr ar)) = plain_address)
   \<and> tun_setup_darwin True (\<lambda>_. True) 30 example_device ''utun3'' ''auto'' (zeros_address, 7) 9000 example_tun = Panic"
proof -
  have dev: "td_create example_device name 9000 = Some (Some 9000)" for name by (simp add: example_device_def)
  have len: "length plain_address = 16" "length zeros_address = 16" by (simp_all add: plain_address_def zeros_address_def)
  have hd: "hd (groups plain_address) \<noteq> 0" "hd (groups zeros_address) \<noteq> 0" by (simp_all add: plain_groups zeros_groups)
  have all: "list_all (\<lambda>_. True) xs" for xs :: "darwin_ioctl list" by (simp add: list_all_iff)
  show ?thesis
    using darwin_setup [OF len(1) hd(1) dev, of "\<lambda>_. True" 30 "''utun3''" "''auto''" 7 example_tun]
      darwin_setup [OF len(2) hd(2) dev, of "\<lambda>_. True" 30 "''utun3''" "''auto''" 7 example_tun]
      plain_eight_parts zeros_not_eight_parts all
    by auto
qed

lemma digit_below: "n < 10 \<Longrightarrow> digit n \<in> set ''0123456789''"
  unfolding digit_def by (rule nth_mem) simp

lemma show_nat_digits: "set (show_nat n) \<subseteq> set ''0123456789''"
proof (induction n rule: show_nat.induct)
  case (1 n)
  then show ?case using digit_below [of n] digit_below [of "n mod 10"] by (auto simp: show_nat.simps [of n])
qed

lemma utf8_lead:
  assumes "0x80 \<le> n" "n \<le> 0x10FFFF"
  shows "\<exists>b bs. utf8 n = b # bs \<and> 192 \<le> b \<and> b < 256"
  using assms by (auto simp: utf8_def)

lemma rune_string_not_number:
  assumes "n = 0 \<or> 0x80 \<le> n"
  shows "rune_string n \<noteq> show_nat n"
proof (cases "n = 0")
  case True
  have "of_char (char_of (0::nat) :: char) \<noteq> (of_char CHR ''0'' :: nat)" by simp
  then have "char_of (0::nat) \<noteq> CHR ''0''" by metis
  with True show ?thesis by (simp add: rune_string_def utf8_def show_nat.simps [of 0] digit_def)
next
  case False
  let ?n = "if n > 0x10FFFF \<or> 0xD800 \<le> n \<and> n \<le> 0xDFFF then 0xFFFD else n"
  obtain b bs where "utf8 ?n = b # bs" "192 \<le> b" "b < 256"
    using utf8_lead [of ?n] assms False by (cases "n > 0x10FFFF \<or> 0xD800 \<le> n \<and> n \<le> 0xDFFF") auto
  then have b: "rune_string n = char_of b # map char_of bs" "192 \<le> b" "b < 256" by (simp_all add: rune_string_def)
  have "list_all (\<lambda>c. of_char c < (58::nat)) ''0123456789''" by simp
  moreover have "of_char (char_of b :: char) = b" using b by simp
  ultimately have out: "char_of b \<notin> set ''0123456789''" using b(2) unfolding list_all_iff by fastforce
  show ?thesis
  proof
    assume "rune_string n = show_nat n"
    then have "char_of b \<in> set (show_nat n)" using b(1) by (metis list.set_intros(1))
    then have "char_of b \<in> set ''0123456789''" by (rule subsetD [OF show_nat_digits])
    then show False by (rule notE [OF out])
  qed
qed

text \<open>on BSD the set-up never fails once it has a socket, whatever is refused: the MTU and the bytes of the
  address are requested, and for a refused request a command is run whose end does not matter; the
  argument that should tell ifconfig the MTU is not its number.\<close>

theorem bsd_setup:
  assumes "length a = 16" "hd (groups a) \<noteq> 0" "eight_parts a" "td_create d ifname mtu = Some m"
  shows "\<exists>t' ar mtuArg. tun_setup_bsd True ok af_inet6 d name ifname (a, n) mtu t = Ret (True, t',
      or_ifconfig ok (SetIfMTU \<lparr>mtu_name = ifr_bytes name, mtu_value = tu_mtu t'\<rparr>) [name, ''mtu'', mtuArg]
      @ or_ifconfig ok (SetIfAddr ar) [name, ''inet6'', addr_text (a, n)])
    \<and> in_memory (sin6_addr (addr_value ar)) = a
    \<and> mtuArg \<noteq> show_nat (unat (tu_mtu t'))"
proof -
  let ?mtu = "case m of Some mtu \<Rightarrow> getSupportedMTU mtu | None \<Rightarrow> 0"
  let ?ar = "\<lparr>addr_name = ifr_bytes name, addr_value = zero_sockaddr\<lparr>sin6_len := sizeof_sockaddr_in6,
      sin6_family := af_inet6, sin6_addr := map swapped (map word_of_nat (groups a))\<rparr>\<rparr>"
  have a: "in_memory (sin6_addr (addr_value ?ar)) = a"
    using assms(1) groups_memory [of a] by (simp add: in_memory_swapped del: map_map)
  have "0x80 \<le> unat (getSupportedMTU w)" for w
    using getSupportedMTU_range(1) [of w] by (simp add: word_le_nat_alt)
  then have "rune_string (unat ?mtu) \<noteq> show_nat (unat ?mtu)"
    by (intro rune_string_not_number) (auto split: option.splits)
  then show ?thesis
    using assms a
    by (intro exI [of _ "t\<lparr>tu_hasIface := True, tu_mtu := ?mtu\<rparr>"] exI [of _ ?ar] exI [of _ "rune_string (unat ?mtu)"])
      (simp add: tun_setup_bsd_def setup_device_def bsd_setupAddress_def sin6_words_text Let_def)
qed

theorem bsd_setup_witness:
  "\<exists>t' ar mtuArg. tun_setup_bsd True (\<lambda>_. False) 28 example_device ''tun0'' ''tun0'' (plain_address, 7) 9000 example_tun
     = Ret (True, t', [SetIfMTU \<lparr>mtu_name = ifr_bytes ''tun0'', mtu_value = tu_mtu t'\<rparr>, Ifconfig [''ifconfig'', ''tun0'', ''mtu'', mtuArg],
         SetIfAddr ar, Ifconfig [''ifconfig'', ''tun0'', ''inet6'', addr_text (plain_address, 7)]])
     \<and> mtuArg \<noteq> show_nat (unat (tu_mtu t'))"
proof -
  have "length plain_address = 16" "hd (groups plain_address) \<noteq> 0" by (simp_all add: plain_address_def)
  then show ?thesis
    using bsd_setup [of plain_address example_device "''tun0''" 9000 "Some 9000" "\<lambda>_. False" 28 "''tun0''" 7 example_tun] plain_eight_parts
    by (auto simp: or_ifconfig_def example_device_def)
qed

text \<open>C33: the set-up on Windows makes up to nine attempts at the address, each after the failure of the one before it
  and a pause two seconds longer than the last, 72 seconds at most; it succeeds exactly when it has the
  rights, the device can be created at the first or the second try, one of the nine attempts succeeds, and
  so does setting the MTU.\<close>

theorem windows_setup:
  assumes "tun_setup_windows sha1 dn w ifname mtu t = (res, t', sleeps)"
    and "name = (if ifname = ''auto'' then dn else ifname)" "guid = adapter_guid sha1 name"
    and "ok = (\<lambda>i. fst (win_setupAddress (ws_native w) (ws_name w) (ws_attempt w i)))"
  shows "sum_list sleeps \<le> 72
    \<and> (\<exists>n\<le>8. sleeps = map (\<lambda>i. 2 * i) [1..<Suc n] \<and> list_all (\<lambda>i. \<not> ok i) [1..<Suc n])
    \<and> (res \<longleftrightarrow> ws_elevated w \<and> (ws_create w 0 name guid mtu \<or> ws_create w 1 name guid mtu) \<and> list_ex ok [1..<10]
        \<and> fst (win_setupMTU (ws_native w) (ws_name w) (ws_ip_ok w) (ws_set_ok w) (getSupportedMTU mtu)))"
proof -
  obtain n where n: "n \<le> 8" "win_attempts ok 1 = (list_ex ok [1..<10], map (\<lambda>i. 2 * i) [1..<Suc n])"
      "list_all (\<lambda>i. \<not> ok i) [1..<Suc n]"
    using win_attempts_run by blast
  let ?started = "ws_elevated w \<and> (ws_create w 0 name guid mtu \<or> ws_create w 1 name guid mtu)"
  have eq: "(res, sleeps) = (if \<not> ?started then (False, [])
      else (list_ex ok [1..<10] \<and> fst (win_setupMTU (ws_native w) (ws_name w) (ws_ip_ok w) (ws_set_ok w) (getSupportedMTU mtu)),
        map (\<lambda>i. 2 * i) [1..<Suc n]))"
    using assms(1) n(2) unfolding assms(2-4)
    by (auto simp: tun_setup_windows_def Let_def simp del: upt_Suc split: if_splits)
  have "\<exists>n\<le>8. sleeps = map (\<lambda>i. 2 * i) [1..<Suc n] \<and> list_all (\<lambda>i. \<not> ok i) [1..<Suc n]"
  proof (cases ?started)
    case True
    then show ?thesis using eq n(1,3) by (intro exI [of _ n]) (simp del: upt_Suc)
  next
    case False
    then show ?thesis using eq by (intro exI [of _ 0]) simp
  qed
  moreover from this have "sum_list sleeps \<le> 72" using sleeps_bounded by auto
  moreover have "res \<longleftrightarrow> ?started \<and> list_ex ok [1..<10]
      \<and> fst (win_setupMTU (ws_native w) (ws_name w) (ws_ip_ok w) (ws_set_ok w) (getSupportedMTU mtu))"
    using eq by (simp del: upt_Suc split: if_splits)
  ultimately show ?thesis by blast
qed

text \<open>A system on which the third attempt succeeds.\<close>

definition example_windows :: win_system where
  "example_windows = \<lparr>ws_elevated = True, ws_create = (\<lambda>i _ _ _. i = 1), ws_name = ''mesh'', ws_native = True,
     ws_attempt = (\<lambda>i. \<lparr>wa_parsed = Some (plain_address, 7), wa_first = (if i = 3 then SetOk else SetError),
       wa_second = SetError, wa_interfaces = None\<rparr>),
     ws_ip_ok = True, ws_set_ok = True, ws_mtu = Some 65535\<rparr>"

theorem windows_setup_witness:
  "\<exists>t' sleeps. tun_setup_windows (\<lambda>_. replicate 20 0) ''auto'' example_windows ''mesh'' 65535 example_tun = (True, t', sleeps)
    \<and> sum_list sleeps \<le> 72"
proof -
  obtain res t' sleeps where r: "tun_setup_windows (\<lambda>_. replicate 20 0) ''auto'' example_windows ''mesh'' 65535 example_tun = (res, t', sleeps)"
    by (metis prod_cases3)
  have "list_ex (\<lambda>i. fst (win_setupAddress (ws_native example_windows) (ws_name example_windows) (ws_attempt example_windows i))) [1..<10]"
    by (auto simp: list_ex_iff example_windows_def win_setupAddress_def intro!: bexI [of _ 3])
  then show ?thesis using windows_setup [OF r refl refl refl] r
    by (auto simp: example_windows_def win_setupMTU_def)
qed

section \<open>The set-up the adapter starts with\<close>

text \<open>\<open>tun_start\<close> takes whether the address could be configured from the device; on Linux that is whether none of
  the five requests is refused.\<close>

lemma linux_setup:
  assumes "\<And>mtu. td_address_ok d addr \<longleftrightarrow> list_all ok [ParseAddr (addr_text addr), LinkByName name,
      AddrAdd name (addr_text addr), LinkSetMTU name mtu, LinkSetUp name]"
  shows "tun_setup d ifname addr mtu t =
    bind_outcome (tun_setup_linux ok d name ifname addr mtu t) (\<lambda>(res, t', _). Ret (res, t'))"
proof (cases "td_create d (if ifname = ''auto'' then [CHR 0x00] else ifname) mtu")
  case (Some m)
  then show ?thesis using assms [of "case m of Some mtu \<Rightarrow> getSupportedMTU mtu | None \<Rightarrow> 0"]
    by (simp add: tun_setup_def tun_setup_as_def tun_setup_linux_def setup_device_def linux_setupAddress_def
        until_refused_spec Let_def)
qed (simp add: tun_setup_def tun_setup_as_def tun_setup_linux_def setup_device_def)

end
