(* ===== verification/Multicast_Props.thy ===== *)
theory Multicast_Props
  imports Multicast Links_Runs
begin

text \<open>
  From a beacon to a pinned call, which interfaces take part, what an announcement leaves, and the
  pace of the beacons.
\<close>

section \<open>From a beacon to a call\<close>

lemma take_beacon [simp]:
  "length key = 32 \<Longrightarrow> take 32 (beacon key ip port) = key"
  "length (beacon key ip port) = length key + length ip + 2"
  by (simp_all add: beacon_def)

lemma beacon_ip: "length key = 32 \<Longrightarrow> take (length ip) (drop 32 (beacon key ip port)) = ip"
  by (simp add: beacon_def)

lemma beacon_port:
  assumes "length key = 32" and "port < 2 ^ 16"
  shows "unat (get_uint16 (drop (32 + length ip) (beacon key ip port))) = port"
proof -
  have "drop (32 + length ip) (beacon key ip port) = put_uint16 (word_of_nat port)"
    using assms(1) by (simp add: beacon_def)
  with assms(2) show ?thesis by (simp add: unsigned_of_nat take_bit_nat_eq_self)
qed

lemma beacon_key_option: "query_Get (beacon_url addr key n) ''priority'' = show_nat n"
  "url_Query (beacon_url addr key n) ''key'' = [hex_encode key]"
  "url_Scheme (beacon_url addr key n) = ''tls''" "url_Host (beacon_url addr key n) = addr"
  by (simp_all add: beacon_url_def query_Get_def)

lemma beacon_options:
  "length key = 32 \<Longrightarrow> n < 256 \<Longrightarrow>
     call_options (beacon_url addr key n) = Inr \<lparr>pinnedEd25519Keys = {key}, lo_priority = n\<rparr>"
  by (simp add: call_options_def beacon_key_option ParseUint8_show Let_def)

text \<open>C22: from a beacon to a pinned link: a beacon from another node on an interface where this node listens
  leads to a TLS call to the announced address and port, with the announced key pinned; so the
  only key with which the call's handshake can end in a link is the announced one.\<close>

theorem beacon_leads_to_pinned_call:
  assumes "length key = 32" and "key \<noteq> self" and "port < 2 ^ 16" and "ip \<noteq> []"
    and "bp_bytes p = beacon key ip port" and "bp_fromIP p = ip" and "bp_Dst p = Some groupIP"
    and "IsLinkLocalMulticast groupIP"
    and "resolve ip port = Some \<lparr>ta_IP = ip, ta_Port = port, ta_Zone = z\<rparr>"
    and "filter (\<lambda>(_, info). ni_Name (ii_iface info) = bp_fromZone p) interfaces = [(i, info)]"
    and "ii_listen info" and "ii_priority info < 256"
    and "\<not> isConnectedTo links (linkInfoFor ''tls'' (ni_Name (ii_iface info)) addr)"
    and "addr = TCPAddr_String show_ip \<lparr>ta_IP = ip, ta_Port = port, ta_Zone = ''''\<rparr>"
    and "length public = 32"
  shows "\<exists>u options. listen_packet show_ip resolve groupIP self interfaces p = Some (u, ni_Name (ii_iface info))
     \<and> call sctp isIP links u (ni_Name (ii_iface info)) =
         (linkInfoFor ''tls'' (ni_Name (ii_iface info)) addr,
          Dialing (DialTLS (ni_Name (ii_iface info)) (tlsSNI isIP u)) options)
     \<and> (handshake public allowed \<lparr>lk_options = options, lk_incoming = False, lk_force = False\<rparr> io
          = Ret (Connected key' prio) \<longrightarrow> key' = key \<and> prio = ii_priority info)"
proof (intro exI conjI)
  let ?u = "beacon_url addr key (ii_priority info)" and ?o = "\<lparr>pinnedEd25519Keys = {key}, lo_priority = ii_priority info\<rparr>"
  have lo: "32 \<le> length (bp_bytes p)" "length (bp_bytes p) - 2 = 32 + length ip"
    using assms(1,5) by simp_all
  show "listen_packet show_ip resolve groupIP self interfaces p = Some (?u, ni_Name (ii_iface info))"
    using assms lo
    by (simp add: listen_packet_def Let_def ip_Equal_def beacon_ip beacon_port)
  show "call sctp isIP links ?u (ni_Name (ii_iface info)) =
      (linkInfoFor ''tls'' (ni_Name (ii_iface info)) addr,
       Dialing (DialTLS (ni_Name (ii_iface info)) (tlsSNI isIP ?u)) ?o)"
    using assms by (simp add: call_def Let_def beacon_key_option beacon_options) (simp add: linkInfoFor_def)
  show "handshake public allowed \<lparr>lk_options = ?o, lk_incoming = False, lk_force = False\<rparr> io
          = Ret (Connected key' prio) \<longrightarrow> key' = key \<and> prio = ii_priority info"
    by (auto simp: handshake_connected [OF assms(15)] key_accepted_def)
qed

definition test_inter :: interfaceInfo where
  "test_inter = \<lparr>ii_iface = \<lparr>ni_Index = 2, ni_Name = ''eth0'', ni_up = True, ni_multicast = True, ni_pointToPoint = False\<rparr>,
     ii_addrs = [], ii_beacon = True, ii_listen = True, ii_port = 9, ii_priority = 0\<rparr>"

definition test_beacon :: beacon_packet where
  "test_beacon = \<lparr>bp_Dst = Some [224, 0, 0, 1], bp_bytes = beacon (replicate 32 7) [9, 9, 9, 9] 5,
     bp_fromIP = [9, 9, 9, 9], bp_fromZone = ''eth0''\<rparr>"

theorem beacon_leads_to_pinned_call_witness:
  "\<exists>u. listen_packet (\<lambda>_. ''ip'') (\<lambda>ip port. Some \<lparr>ta_IP = ip, ta_Port = port, ta_Zone = ''''\<rparr>)
     [224, 0, 0, 1] (replicate 32 8) [(2, test_inter)] test_beacon = Some (u, ''eth0'')"
  using beacon_leads_to_pinned_call [where key = "replicate 32 7" and self = "replicate 32 8" and port = 5
      and ip = "[9, 9, 9, 9]" and p = test_beacon and groupIP = "[224, 0, 0, 1]" and i = 2 and info = test_inter
      and resolve = "\<lambda>ip port. Some \<lparr>ta_IP = ip, ta_Port = port, ta_Zone = ''''\<rparr>"
      and interfaces = "[(2, test_inter)]" and links = Map.empty and show_ip = "\<lambda>_. ''ip''" and public = "replicate 32 1"
      and z = "''''" and addr = "TCPAddr_String (\<lambda>_. ''ip'') \<lparr>ta_IP = [9, 9, 9, 9], ta_Port = 5, ta_Zone = ''''\<rparr>"
      and sctp = True and isIP = "\<lambda>_. True" and allowed = "{}" and key' = "[]" and prio = 0
      and io = "\<lparr>io_deadline = True, io_write = None, io_read = None, io_clear = True\<rparr>"]
  by (auto simp: test_inter_def test_beacon_def IsLinkLocalMulticast_def ip_class_def To4_def isConnectedTo_def)

section \<open>Which interfaces take part\<close>

lemma fold_add_allowed:
  assumes "distinct (map ni_Index is)" and "\<forall>i\<in>set is. ni_Index i \<notin> fst ` set m"
  shows "map_of (fold (add_allowed cfgs) is m) k =
    (case find (\<lambda>i. ni_Index i = k \<and> usable i \<and> config_for cfgs i \<noteq> None) is of
       None \<Rightarrow> map_of m k
     | Some i \<Rightarrow> (let c = the (config_for cfgs i) in
         Some \<lparr>ii_iface = i, ii_addrs = [], ii_beacon = mi_Beacon c, ii_listen = mi_Listen c,
               ii_port = mi_Port c, ii_priority = 0\<rparr>))"
  using assms
proof (induction "is" arbitrary: m)
  case (Cons x xs)
  have idx: "ni_Index x \<notin> ni_Index ` set xs" using Cons.prems(1) by simp
  have fresh: "ni_Index i \<notin> fst ` set (add_allowed cfgs x m)" if "i \<in> set xs" for i
  proof -
    have "ni_Index i \<noteq> ni_Index x" using idx that by (metis imageI)
    then show ?thesis using Cons.prems(2) that
      by (auto simp: add_allowed_def dom_update split: option.splits)
  qed
  have "find (\<lambda>i. ni_Index i = ni_Index x \<and> usable i \<and> config_for cfgs i \<noteq> None) xs = None"
    using idx unfolding find_None_iff by (metis imageI)
  then show ?case
    using Cons.IH [of "add_allowed cfgs x m"] Cons.prems fresh
    by (auto simp: add_allowed_def update_conv' Let_def split: option.splits)
qed simp

text \<open>the interfaces that take part are those that are up, can do multicast and are not point-to-point,
  and whose name matches an enabled entry of the configuration; such an interface has the
  beacon, listen and port settings of the first such entry, but always priority 0.\<close>

theorem allowed_interfaces:
  assumes "distinct (map ni_Index is)"
  shows "map_of (getAllowedInterfaces (Some is) cfgs) k = Some info \<longleftrightarrow>
    (\<exists>i c. i \<in> set is \<and> ni_Index i = k \<and> ni_up i \<and> ni_multicast i \<and> \<not> ni_pointToPoint i
       \<and> find (\<lambda>c. (mi_Beacon c \<or> mi_Listen c) \<and> mi_Regex c (ni_Name i)) cfgs = Some c
       \<and> info = \<lparr>ii_iface = i, ii_addrs = [], ii_beacon = mi_Beacon c, ii_listen = mi_Listen c,
                 ii_port = mi_Port c, ii_priority = 0\<rparr>)"
proof -
  have cfg: "config_for cfgs i = find (\<lambda>c. (mi_Beacon c \<or> mi_Listen c) \<and> mi_Regex c (ni_Name i)) cfgs" for i
    by (simp add: config_for_def)
  let ?P = "\<lambda>i. ni_Index i = k \<and> usable i \<and> config_for cfgs i \<noteq> None"
  have one: "i = j" if "i \<in> set is" "j \<in> set is" "ni_Index i = ni_Index j" for i j
    using that assms by (metis distinct_map inj_onD)
  have f: "find ?P is = Some i \<longleftrightarrow> i \<in> set is \<and> ?P i" for i
  proof
    assume "find ?P is = Some i"
    from find_SomeD [OF this] show "i \<in> set is \<and> ?P i" .
  next
    assume i: "i \<in> set is \<and> ?P i"
    then have "find ?P is \<noteq> None" by (auto simp: find_None_iff)
    then obtain j where j: "find ?P is = Some j" by blast
    from find_SomeD [OF this] i have "j = i" by (intro one) auto
    with j show "find ?P is = Some i" by simp
  qed
  have "map_of (getAllowedInterfaces (Some is) cfgs) k =
    (case find ?P is of None \<Rightarrow> None
     | Some i \<Rightarrow> (let c = the (config_for cfgs i) in
         Some \<lparr>ii_iface = i, ii_addrs = [], ii_beacon = mi_Beacon c, ii_listen = mi_Listen c,
               ii_port = mi_Port c, ii_priority = 0\<rparr>))"
    using fold_add_allowed [OF assms, of "[]" cfgs k]
    by (cases "find ?P is") (simp_all add: getAllowedInterfaces_def)
  also have "\<dots> = Some info \<longleftrightarrow> (\<exists>i. find ?P is = Some i \<and>
      info = \<lparr>ii_iface = i, ii_addrs = [], ii_beacon = mi_Beacon (the (config_for cfgs i)),
        ii_listen = mi_Listen (the (config_for cfgs i)), ii_port = mi_Port (the (config_for cfgs i)), ii_priority = 0\<rparr>)"
    by (auto simp: Let_def split: option.splits)
  also have "\<dots> \<longleftrightarrow> (\<exists>i c. i \<in> set is \<and> ni_Index i = k \<and> usable i \<and> config_for cfgs i = Some c \<and>
      info = \<lparr>ii_iface = i, ii_addrs = [], ii_beacon = mi_Beacon c, ii_listen = mi_Listen c,
        ii_port = mi_Port c, ii_priority = 0\<rparr>)"
    unfolding f by (metis option.collapse option.distinct(1) option.sel)
  finally show ?thesis unfolding cfg usable_def by simp
qed

definition test_interface :: net_interface where
  "test_interface = \<lparr>ni_Index = 2, ni_Name = ''eth0'', ni_up = True, ni_multicast = True, ni_pointToPoint = False\<rparr>"

definition test_config :: MulticastInterface where
  "test_config = \<lparr>mi_Regex = (\<lambda>s. s = ''eth0''), mi_Beacon = True, mi_Listen = True, mi_Port = 9, mi_Priority = 3\<rparr>"

theorem allowed_interfaces_witness:
  "map_of (getAllowedInterfaces (Some [test_interface]) [test_config]) 2 =
     Some \<lparr>ii_iface = test_interface, ii_addrs = [], ii_beacon = True, ii_listen = True, ii_port = 9, ii_priority = 0\<rparr>"
  by (subst allowed_interfaces) (simp_all add: test_interface_def test_config_def)

section \<open>Listeners\<close>

definition grown :: "nat \<Rightarrow> (nat \<times> listenerInfo) list \<Rightarrow> (nat \<times> listenerInfo) list \<Rightarrow> bool" where
  "grown i ls ls' \<longleftrightarrow> fst ` set ls' \<subseteq> insert i (fst ` set ls)
     \<and> fst ` set ls \<subseteq> fst ` set ls' \<and> (distinct (map fst ls) \<longrightarrow> distinct (map fst ls'))"

lemma grown_update: "grown i ls ls' \<Longrightarrow> grown i ls (AList.update i l ls')"
  by (auto simp: grown_def dom_update distinct_update)

lemma grown_refl: "grown i ls ls"
  by (auto simp: grown_def)

lemma insert_trans: "B \<subseteq> insert i C \<Longrightarrow> A \<subseteq> insert i B \<Longrightarrow> A \<subseteq> insert i C"
  by blast

lemma grown_trans: "grown i ls ls' \<Longrightarrow> grown i ls' ls'' \<Longrightarrow> grown i ls ls''"
  unfolding grown_def by (meson insert_trans subset_trans)

lemma announce_addrs_grown:
  "grown (ni_Index (ii_iface info)) ls (fst (announce_addrs listen now key info addrs ls))"
proof (induction addrs arbitrary: ls)
  case (Cons addr addrs)
  let ?i = "ni_Index (ii_iface info)" and ?rec = "announce_addrs listen now key info addrs"
  show ?case
  proof (cases addr)
    case (Some ip)
    let ?l = "case map_of ls ?i of Some l \<Rightarrow> (Some l, []) | None \<Rightarrow>
        (case listen ip (ii_port info) (ni_Name (ii_iface info)) of None \<Rightarrow> (None, [])
         | Some a \<Rightarrow> (Some \<lparr>ls_addr = a, ls_time = now, ls_interval = 0, ls_port = ii_port info\<rparr>, [StartListener ?i]))"
    have upd: "grown ?i ls (AList.update ?i x ls)" for x by (rule grown_update [OF grown_refl])
    have upd2: "grown ?i ls (AList.update ?i y (AList.update ?i x ls))" for x y by (rule grown_update [OF upd])
    have rec: "grown ?i ls (fst (?rec (AList.update ?i x ls)))" for x by (rule grown_trans [OF upd Cons.IH])
    obtain linfo start where l: "?l = (linfo, start)" by (cases ?l)
    have "?i = ni_Index (ii_iface info)" ..
    show ?thesis
    proof (cases "To4 ip \<noteq> None \<or> \<not> IsLinkLocalUnicast ip \<or> \<not> ii_beacon info")
      case True
      then show ?thesis using Some Cons.IH grown_refl by (auto simp: Let_def)
    next
      case False
      then show ?thesis
        by (cases linfo; cases "send_beacon now key (ni_Name (ii_iface info)) (the linfo)")
          (simp_all add: Some l Let_def Cons.IH rec upd upd2 case_prod_unfold)
    qed
  qed (simp add: Cons.IH)
qed (simp add: grown_refl)

lemma sub_union: "A \<subseteq> I \<union> B \<Longrightarrow> B \<subseteq> insert i C \<Longrightarrow> A \<subseteq> insert i I \<union> C"
  by blast

lemma announce_all_keys:
  "fst ` set (fst (announce_all listen now key ints ls)) \<subseteq>
     (\<lambda>(_, info). ni_Index (ii_iface info)) ` set ints \<union> fst ` set ls
   \<and> (distinct (map fst ls) \<longrightarrow> distinct (map fst (fst (announce_all listen now key ints ls))))"
proof (induction ints arbitrary: ls)
  case (Cons x ints)
  obtain k info where x: "x = (k, info)" by (cases x)
  obtain l1 o1 where 1: "announce_addrs listen now key info (ii_addrs info) ls = (l1, o1)" by fastforce
  have "grown (ni_Index (ii_iface info)) ls l1"
    using announce_addrs_grown [of info ls listen now key "ii_addrs info"] 1 by simp
  then have "fst ` set l1 \<subseteq> insert (ni_Index (ii_iface info)) (fst ` set ls)"
    "distinct (map fst ls) \<Longrightarrow> distinct (map fst l1)" by (simp_all add: grown_def)
  moreover have "fst (announce_all listen now key (x # ints) ls) = fst (announce_all listen now key ints l1)"
    by (simp add: x 1 case_prod_unfold)
  moreover have "(\<lambda>(_, info). ni_Index (ii_iface info)) ` set (x # ints) =
      insert (ni_Index (ii_iface info)) ((\<lambda>(_, info). ni_Index (ii_iface info)) ` set ints)"
    by (simp add: x)
  ultimately show ?case using sub_union [OF conjunct1 [OF Cons.IH [of l1]]] conjunct2 [OF Cons.IH [of l1]]
    by (simp del: set_map)
qed simp

lemma set_update_subset: "set (AList.update k v m) \<subseteq> insert (k, v) (set m)"
  by (induction m) auto

lemma fold_add_allowed_index:
  "\<forall>(k, info)\<in>set m. k = ni_Index (ii_iface info) \<Longrightarrow>
     \<forall>(k, info)\<in>set (fold (add_allowed cfgs) is m). k = ni_Index (ii_iface info)"
proof (induction "is" arbitrary: m)
  case (Cons x xs)
  have "\<forall>(k, info)\<in>set (add_allowed cfgs x m). k = ni_Index (ii_iface info)"
  proof (cases "usable x \<and> config_for cfgs x \<noteq> None")
    case True
    then obtain v where "add_allowed cfgs x m = AList.update (ni_Index x) v m" "ii_iface v = x"
      by (auto simp: add_allowed_def)
    then show ?thesis using Cons.prems set_update_subset [of "ni_Index x" v m] by fastforce
  qed (use Cons.prems in \<open>auto simp: add_allowed_def split: option.splits\<close>)
  then show ?case using Cons.IH by simp
qed simp

lemma updated_index:
  "(k, info) \<in> set (mc_interfaces (updateInterfaces allifaces addrs m)) \<Longrightarrow> k = ni_Index (ii_iface info)"
  using fold_add_allowed_index [of "[]" "mc_config m" "the allifaces"]
  by (auto simp: updateInterfaces_def List.map_filter_def getAllowedInterfaces_def split: option.splits)

lemma announce_all_kept: "fst ` set ls \<subseteq> fst ` set (fst (announce_all listen now key ints ls))"
proof (induction ints arbitrary: ls)
  case (Cons x ints)
  obtain k info where x: "x = (k, info)" by (cases x)
  let ?a = "fst (announce_addrs listen now key info (ii_addrs info) ls)"
  have "fst ` set ls \<subseteq> fst ` set ?a"
    using announce_addrs_grown [of info ls listen now key "ii_addrs info"] by (simp add: grown_def)
  also have "\<dots> \<subseteq> fst ` set (fst (announce_all listen now key ints ?a))" by (rule Cons.IH)
  finally show ?case by (simp add: x case_prod_unfold)
qed simp

text \<open>an announcement leaves no listener behind: afterwards every listener belongs to an interface
  that takes part now, there is one for each at most, and every listener that is gone was stopped;
  a module that is not open does nothing and does not arm its timer.\<close>

theorem announce_listeners:
  assumes "announce allifaces addrs listen now key m = (m', outs, again)"
  shows "(mc_isOpen m \<longrightarrow> again \<and> fst ` set (mc_listeners m') \<subseteq> fst ` set (mc_interfaces m'))
    \<and> (distinct (map fst (mc_listeners m)) \<longrightarrow> distinct (map fst (mc_listeners m')))
    \<and> (\<forall>name\<in>fst ` set (mc_listeners m) - fst ` set (mc_listeners m'). mc_isOpen m \<longrightarrow> StopListener name \<in> set outs)
    \<and> (\<not> mc_isOpen m \<longrightarrow> m' = m \<and> outs = [] \<and> \<not> again)"
proof (cases "mc_isOpen m")
  case True
  define u where "u = updateInterfaces allifaces addrs m"
  define ks where "ks = filter (keep_listener (mc_interfaces u)) (mc_listeners m)"
  have same: "mc_listeners u = mc_listeners m" by (simp add: u_def updateInterfaces_def)
  obtain ls os where all: "announce_all listen now key (mc_interfaces u) ks = (ls, os)" by fastforce
  have m': "mc_listeners m' = ls" "mc_interfaces m' = mc_interfaces u" and again: "again"
    and outs: "outs = map (StopListener \<circ> fst) (filter (\<lambda>x. \<not> keep_listener (mc_interfaces u) x) (mc_listeners m)) @ os"
    using assms True all by (auto simp: announce_def Let_def u_def [symmetric] same ks_def [symmetric])
  have idx: "(\<lambda>(_, info). ni_Index (ii_iface info)) ` set (mc_interfaces u) \<subseteq> fst ` set (mc_interfaces u)"
    using updated_index [of _ _ allifaces addrs m] by (force simp: u_def)
  have kept: "fst ` set ks \<subseteq> fst ` set (mc_interfaces u)"
    by (auto simp: ks_def keep_listener_def dom_map_of_conv_image_fst [symmetric] split: option.splits)
  have keys: "fst ` set ls \<subseteq> fst ` set (mc_interfaces u)"
    and dist: "distinct (map fst ks) \<longrightarrow> distinct (map fst ls)"
    using announce_all_keys [of listen now key "mc_interfaces u" ks] subset_trans [OF _ Un_least [OF idx kept]]
    unfolding all fst_conv by blast+
  have stay: "fst ` set ks \<subseteq> fst ` set ls"
    using announce_all_kept [of ks listen now key "mc_interfaces u"] unfolding all by simp
  have "StopListener name \<in> set outs" if "name \<in> fst ` set (mc_listeners m)" "name \<notin> fst ` set ls" for name
  proof -
    from that(1) obtain l where "(name, l) \<in> set (mc_listeners m)" by auto
    moreover have "(name, l) \<notin> set ks" using stay that(2) by force
    ultimately show ?thesis by (force simp: outs ks_def)
  qed
  moreover have "distinct (map fst (mc_listeners m)) \<longrightarrow> distinct (map fst ks)"
    by (simp add: ks_def distinct_map_filter)
  ultimately show ?thesis using True again keys dist m' by auto
qed (use assms in \<open>auto simp: announce_def\<close>)

definition test_multicast :: multicast where
  "test_multicast = \<lparr>mc_isOpen = True,
     mc_listeners = [(5, \<lparr>ls_addr = None, ls_time = 0, ls_interval = 0, ls_port = 1\<rparr>)],
     mc_interfaces = [], mc_groupAddr = '''', mc_config = []\<rparr>"

lemma test_announce:
  "announce None addrs listen now key test_multicast = (test_multicast\<lparr>mc_listeners := []\<rparr>, [StopListener 5], True)"
  by (simp add: announce_def test_multicast_def updateInterfaces_def getAllowedInterfaces_def
      List.map_filter_def keep_listener_def)

theorem announce_listeners_witness:
  "StopListener 5 \<in> set (fst (snd (announce None (\<lambda>_. None) (\<lambda>_ _ _. None) 0 [] test_multicast)))"
  unfolding test_announce
  using announce_listeners [OF test_announce [of "\<lambda>_. None" "\<lambda>_ _ _. None" 0 "[]"]] by (simp add: test_multicast_def)

section \<open>The pace of beacons\<close>

text \<open>The announcements on one listener at the given times: whether each sent a beacon.\<close>

fun beacons_sent :: "nat list \<Rightarrow> bytes \<Rightarrow> string \<Rightarrow> listenerInfo \<Rightarrow> bool list" where
  "beacons_sent [] key name l = []"
| "beacons_sent (t # ts) key name l =
     (case send_beacon t key name l of None \<Rightarrow> False # beacons_sent ts key name l
      | Some (l', outs) \<Rightarrow> (outs \<noteq> []) # beacons_sent ts key name l')"

lemma beacons_all_sent:
  assumes "sorted_wrt (\<lambda>a b. a + second \<le> b) ts" and "\<forall>t\<in>set ts. ls_time l + ls_interval l \<le> t"
    and "ls_addr l = Some a"
  shows "beacons_sent ts key name l = replicate (length ts) True"
  using assms
proof (induction ts arbitrary: l)
  case (Cons t ts)
  define l' where "l' = (if ls_interval l < 15 * second then l\<lparr>ls_interval := ls_interval l + second\<rparr> else l)"
  have step: "send_beacon t key name l = Some (l', [SendBeacon (beacon key (ta_IP a) (ta_Port a)) name])"
    using Cons.prems by (auto simp: send_beacon_def l'_def)
  have "beacons_sent ts key name l' = replicate (length ts) True"
  proof (rule Cons.IH)
    show "\<forall>t\<in>set ts. ls_time l' + ls_interval l' \<le> t"
      using Cons.prems(1,2) by (auto simp: l'_def second_def)
  qed (use Cons.prems in \<open>auto simp: l'_def\<close>)
  with step show ?case by simp
qed simp

text \<open>the interval never delays a beacon: the code lengthens it by a second after every beacon, up to
  fifteen, but compares it to the time since the listener was started; so a new listener sends
  a beacon at every announcement of the timer, one a second, for ever.\<close>

theorem beacons_never_throttled:
  assumes "sorted_wrt (\<lambda>a b. a + second \<le> b) ts" and "\<forall>t\<in>set ts. start \<le> t"
  shows "beacons_sent ts key name \<lparr>ls_addr = Some a, ls_time = start, ls_interval = 0, ls_port = port\<rparr>
     = replicate (length ts) True"
  using assms by (intro beacons_all_sent) simp_all

theorem beacons_never_throttled_witness:
  "beacons_sent [0, second, 2 * second] [] ''eth0'' \<lparr>ls_addr = Some \<lparr>ta_IP = [], ta_Port = 0, ta_Zone = ''''\<rparr>, ls_time = 0, ls_interval = 0, ls_port = 1\<rparr>
     = [True, True, True]"
  using beacons_never_throttled [of "[0, second, 2 * second]" 0] by (simp add: numeral_3_eq_3 second_def)

end
