(* ===== verification/Rest_Dispatch.thy ===== *)
theory Rest_Dispatch
  imports Net "HOL-Library.Char_ord" "HOL-Library.List_Lexorder" "HOL-Library.Product_Lexorder"
begin

text \<open>
  The REST server of src/restapi/rest_server.go up to its handlers: the handler table, the routes that
  Go's \<open>ServeMux\<close> gets from it, the order \<open>Serve\<close> sorts it into, and what the server does with a
  request before a handler runs.  The handlers themselves are in Rest_Handlers.
\<close>

section \<open>The table\<close>

datatype endpoint = ApiDoc | ApiSelf | ApiNodeinfo | ApiPutNodeinfo | ApiPeers | ApiPostPeers | ApiPutPeers
  | ApiDeletePeers | ApiPublicPeers | ApiPaths | ApiHealth | ApiSse | ApiDht | ApiSessions
  | ApiMulticastinterfaces | ApiRemoteNodeinfo | ApiRemoteSelf | ApiRemotePeers | ApiRemoteDHT

record ApiHandler =
  ah_Method :: string
  ah_Pattern :: string
  ah_Handler :: endpoint

text \<open>The path of a pattern: \<open>strings.Split(pattern, "{")[0]\<close>.\<close>

definition pattern_path :: "string \<Rightarrow> string" where
  "pattern_path pattern = hd (Split (CHR ''{'') pattern)"

definition matchPattern :: "string \<Rightarrow> string \<Rightarrow> bool" where
  "matchPattern pattern value = (let p = pattern_path pattern in length value \<ge> length p \<and> p = take (length p) value)"

text \<open>\<open>AddHandler\<close>: the table and the paths registered with the multiplexer, or an error.\<close>

definition AddHandler :: "ApiHandler \<Rightarrow> ApiHandler list \<times> string list \<Rightarrow> (ApiHandler list \<times> string list) option" where
  "AddHandler handler = (\<lambda>(handlers, mux).
     if list_ex (\<lambda>h. ah_Method h = ah_Method handler \<and> ah_Pattern h = ah_Pattern handler) handlers then None
     else let notRegistered = \<not> list_ex (\<lambda>h. ah_Pattern h = ah_Pattern handler) handlers
          in Some (handlers @ [handler], if notRegistered then mux @ [pattern_path (ah_Pattern handler)] else mux))"

definition api_entries :: "(string \<times> string \<times> endpoint) list" where
  "api_entries =
    [(''GET'', ''/api'', ApiDoc), (''GET'', ''/api/self'', ApiSelf), (''GET'', ''/api/nodeinfo'', ApiNodeinfo),
     (''PUT'', ''/api/nodeinfo'', ApiPutNodeinfo), (''GET'', ''/api/peers'', ApiPeers),
     (''POST'', ''/api/peers'', ApiPostPeers), (''PUT'', ''/api/peers'', ApiPutPeers),
     (''DELETE'', ''/api/peers'', ApiDeletePeers), (''GET'', ''/api/publicpeers'', ApiPublicPeers),
     (''GET'', ''/api/paths'', ApiPaths), (''POST'', ''/api/health'', ApiHealth), (''GET'', ''/api/sse'', ApiSse),
     (''GET'', ''/api/dht'', ApiDht), (''GET'', ''/api/sessions'', ApiSessions),
     (''GET'', ''/api/multicastinterfaces'', ApiMulticastinterfaces),
     (''GET'', ''/api/remote/nodeinfo/{key}'', ApiRemoteNodeinfo), (''GET'', ''/api/remote/self/{key}'', ApiRemoteSelf),
     (''GET'', ''/api/remote/peers/{key}'', ApiRemotePeers), (''GET'', ''/api/remote/dht/{key}'', ApiRemoteDHT)]"

definition api_handlers :: "ApiHandler list" where
  "api_handlers = map (\<lambda>(m, p, e). \<lparr>ah_Method = m, ah_Pattern = p, ah_Handler = e\<rparr>) api_entries"

text \<open>The server as \<open>NewRestServer\<close> leaves it; \<open>AddHandler\<close>'s error is dropped.  The root path serves files
  when the document root was found, in a zip file or in a directory.\<close>

datatype doc_fs = OnZipfs | OnOSfs | DocNotFound

record rest_server =
  rs_handlers :: "ApiHandler list"
  rs_mux :: "string list"
  rs_docFsType :: doc_fs

datatype rest_error = NotConfigured | BadListenURL

definition add_or_skip :: "ApiHandler \<Rightarrow> ApiHandler list \<times> string list \<Rightarrow> ApiHandler list \<times> string list" where
  "add_or_skip h s = (case AddHandler h s of None \<Rightarrow> s | Some s' \<Rightarrow> s')"

definition NewRestServer :: "bool \<Rightarrow> doc_fs \<Rightarrow> string \<Rightarrow> rest_error + rest_server" where
  "NewRestServer url_ok fs ListenAddress =
     (if ListenAddress = ''none'' \<or> ListenAddress = '''' then Inl NotConfigured
      else if \<not> url_ok then Inl BadListenURL
      else case fold add_or_skip api_handlers ([], if fs = DocNotFound then [] else [''/'']) of
        (handlers, mux) \<Rightarrow> Inr \<lparr>rs_handlers = handlers, rs_mux = mux, rs_docFsType = fs\<rparr>)"

text \<open>\<open>Serve\<close> sorts by the length of the pattern, then by the pattern.\<close>

definition handler_key :: "ApiHandler \<Rightarrow> nat \<times> string" where
  "handler_key h = (length (ah_Pattern h), ah_Pattern h)"

definition Serve :: "rest_server \<Rightarrow> rest_server" where
  "Serve a = a\<lparr>rs_handlers := sort_key handler_key (rs_handlers a)\<rparr>"

section \<open>Requests\<close>

text \<open>What \<open>ServeMux\<close> does with a path that is in canonical form: the registered path itself, or the longest
  one that ends in a slash and is a prefix, or a redirection to a path with a slash appended.\<close>

datatype mux_result = MuxHandler string | MuxRedirect | MuxNotFound

fun longest :: "string list \<Rightarrow> string option" where
  "longest [] = None"
| "longest (p # ps) = (case longest ps of None \<Rightarrow> Some p | Some q \<Rightarrow> if length q > length p then Some q else Some p)"

definition mux_match :: "string list \<Rightarrow> string \<Rightarrow> mux_result" where
  "mux_match mux path =
     (if path \<in> set mux then MuxHandler path
      else if path @ ''/'' \<in> set mux then MuxRedirect
      else case longest (filter (\<lambda>p. p \<noteq> [] \<and> last p = CHR ''/'' \<and> HasPrefix path p) mux) of
        None \<Rightarrow> MuxNotFound | Some p \<Rightarrow> MuxHandler p)"

text \<open>The loop over the table, from its end.\<close>

definition dispatch :: "ApiHandler list \<Rightarrow> string \<Rightarrow> string \<Rightarrow> ApiHandler option" where
  "dispatch handlers method path = find (\<lambda>h. ah_Method h = method \<and> matchPattern (ah_Pattern h) path) (rev handlers)"

text \<open>What the authentication hook came to, and the end of a request.\<close>

datatype webauth = NoModule | AuthSuccess | AuthExit | StartError | WaitError

datatype served = Forbidden | Unauthorized | InternalServerError | MethodNotAllowed | Handled endpoint
  | StaticFile | Redirected | NotFound404

definition serve_api :: "string \<Rightarrow> string \<Rightarrow> webauth \<Rightarrow> ApiHandler list \<Rightarrow> string \<Rightarrow> string \<Rightarrow> served" where
  "serve_api RemoteAddr Addr auth handlers method path =
     (case SplitHostPort RemoteAddr of None \<Rightarrow> Forbidden
      | Some (clientIp, _) \<Rightarrow>
          (case SplitHostPort Addr of None \<Rightarrow> Forbidden
           | Some (svrIp, _) \<Rightarrow>
               if clientIp \<noteq> svrIp then Forbidden
               else (case dispatch handlers method path of None \<Rightarrow> MethodNotAllowed
               | Some h \<Rightarrow>
                   (case auth of NoModule \<Rightarrow> Handled (ah_Handler h) | AuthSuccess \<Rightarrow> Handled (ah_Handler h)
                    | AuthExit \<Rightarrow> Unauthorized | StartError \<Rightarrow> InternalServerError | WaitError \<Rightarrow> InternalServerError))))"

definition serve_request :: "string \<Rightarrow> string \<Rightarrow> webauth \<Rightarrow> rest_server \<Rightarrow> string \<Rightarrow> string \<Rightarrow> served" where
  "serve_request RemoteAddr Addr auth a method path =
     (case mux_match (rs_mux a) path of MuxNotFound \<Rightarrow> NotFound404 | MuxRedirect \<Rightarrow> Redirected
      | MuxHandler p \<Rightarrow> if p = ''/'' then StaticFile else serve_api RemoteAddr Addr auth (rs_handlers a) method path)"

text \<open>The environment of the hook: a header's variable and value.\<close>

definition upper :: "char \<Rightarrow> char" where
  "upper c = (if CHR ''a'' \<le> c \<and> c \<le> CHR ''z'' then char_of (of_char c - 32 :: nat) else c)"

definition header_env :: "string \<Rightarrow> string list \<Rightarrow> string \<times> string" where
  "header_env k v = (''HTTP_'' @ map (\<lambda>c. if c = CHR ''-'' then CHR ''_'' else c) (map upper k), concat v)"

section \<open>Which handler runs\<close>

lemma matchPattern_prefix [code]: "matchPattern pattern value \<longleftrightarrow> HasPrefix value (pattern_path pattern)"
  by (auto simp: matchPattern_def HasPrefix_def Let_def dest: sym arg_cong [where f = length])

lemma find_rev_sorted:
  assumes "find P (rev (sort_key k xs)) = Some x"
  shows "x \<in> set xs \<and> P x \<and> (\<forall>y\<in>set xs. P y \<longrightarrow> k y \<le> k x)"
proof -
  obtain i where i: "i < length xs" "rev (sort_key k xs) ! i = x" "P x"
    "\<forall>j<i. \<not> P (rev (sort_key k xs) ! j)"
    using assms by (auto simp: find_Some_iff)
  have "k y \<le> k x" if y: "y \<in> set xs" "P y" for y
  proof -
    have "y \<in> set (rev (sort_key k xs))" using y(1) by simp
    then have "\<exists>j<length (rev (sort_key k xs)). rev (sort_key k xs) ! j = y" by (simp only: in_set_conv_nth)
    then obtain j where j: "j < length xs" "rev (sort_key k xs) ! j = y" by auto
    then have "i \<le> j" using i(4) y(2) by (meson not_le)
    then have "length xs - Suc j \<le> length xs - Suc i" by simp
    then have "map k (sort_key k xs) ! (length xs - Suc j) \<le> map k (sort_key k xs) ! (length xs - Suc i)"
      using i(1) by (intro sorted_nth_mono) auto
    then show ?thesis using i(1,2) j by (simp add: rev_nth)
  qed
  moreover have "x \<in> set xs" using nth_mem [of i "rev (sort_key k xs)"] i(1,2) by simp
  ultimately show ?thesis using i(3) by blast
qed

text \<open>C15: the sorted table makes the most specific handler win: of all handlers of the request's method whose
  path is a prefix of the request's, one with the longest pattern runs, whatever order they were
  added in; there is none exactly when no handler of that method matches, and a handler runs only for a client
  on the server's own address that the authentication hook, if there is one, let pass.\<close>

theorem most_specific_handler:
  "(dispatch (rs_handlers (Serve a)) method path = Some h \<longrightarrow>
      h \<in> set (rs_handlers a) \<and> ah_Method h = method \<and> HasPrefix path (pattern_path (ah_Pattern h))
      \<and> (\<forall>h'\<in>set (rs_handlers a). ah_Method h' = method \<and> HasPrefix path (pattern_path (ah_Pattern h'))
           \<longrightarrow> length (ah_Pattern h') \<le> length (ah_Pattern h)))
   \<and> (dispatch (rs_handlers (Serve a)) method path = None \<longleftrightarrow>
      \<not> (\<exists>h\<in>set (rs_handlers a). ah_Method h = method \<and> HasPrefix path (pattern_path (ah_Pattern h))))
   \<and> (serve_request RemoteAddr Addr auth (Serve a) method path = Handled e \<longrightarrow>
      (\<exists>ip port port'. SplitHostPort RemoteAddr = Some (ip, port) \<and> SplitHostPort Addr = Some (ip, port'))
      \<and> auth \<in> {NoModule, AuthSuccess}
      \<and> (\<exists>h. dispatch (rs_handlers (Serve a)) method path = Some h \<and> ah_Handler h = e))"
proof (intro conjI impI)
  assume d: "dispatch (rs_handlers (Serve a)) method path = Some h"
  then have "find (\<lambda>h. ah_Method h = method \<and> matchPattern (ah_Pattern h) path)
      (rev (sort_key handler_key (rs_handlers a))) = Some h"
    by (simp add: dispatch_def Serve_def)
  from find_rev_sorted [OF this]
  show "h \<in> set (rs_handlers a)" "ah_Method h = method" "HasPrefix path (pattern_path (ah_Pattern h))"
    "\<forall>h'\<in>set (rs_handlers a). ah_Method h' = method \<and> HasPrefix path (pattern_path (ah_Pattern h'))
           \<longrightarrow> length (ah_Pattern h') \<le> length (ah_Pattern h)"
    by (auto simp: matchPattern_prefix handler_key_def less_eq_prod_def)
next
  show "dispatch (rs_handlers (Serve a)) method path = None \<longleftrightarrow>
      \<not> (\<exists>h\<in>set (rs_handlers a). ah_Method h = method \<and> HasPrefix path (pattern_path (ah_Pattern h)))"
    by (auto simp: dispatch_def Serve_def find_None_iff matchPattern_prefix)
next
  assume s: "serve_request RemoteAddr Addr auth (Serve a) method path = Handled e"
  then have api: "serve_api RemoteAddr Addr auth (rs_handlers (Serve a)) method path = Handled e"
    by (auto simp: serve_request_def split: mux_result.splits if_splits)
  then show "\<exists>ip port port'. SplitHostPort RemoteAddr = Some (ip, port) \<and> SplitHostPort Addr = Some (ip, port')"
    "auth \<in> {NoModule, AuthSuccess}"
    "\<exists>h. dispatch (rs_handlers (Serve a)) method path = Some h \<and> ah_Handler h = e"
    by (auto simp: serve_api_def split: option.splits prod.splits if_splits webauth.splits)
qed

section \<open>The routes of the code's table\<close>

definition api_server :: rest_server where
  "api_server = projr (NewRestServer True OnOSfs ''http://localhost:19019'')"

definition local_request :: "string \<Rightarrow> string \<Rightarrow> served" where
  "local_request method path = serve_request ''[::1]:5000'' ''[::1]:19019'' NoModule (Serve api_server) method path"

text \<open>every documented endpoint is reached: each entry of the table answers its own method and path,
  with any non-empty key where the pattern has one.  A GET of the path that only has a POST
  entry is answered with the documentation of the API, another method is not allowed, and a
  path below no pattern goes to the document root.\<close>

theorem api_routes:
  "list_all (\<lambda>(m, p, e). local_request m (if CHR ''{'' \<in> set p then pattern_path p @ c # key else p) = Handled e) api_entries
   \<and> local_request ''GET'' ''/api/health'' = Handled ApiDoc
   \<and> local_request ''PATCH'' ''/api/peers'' = MethodNotAllowed
   \<and> local_request ''GET'' ''/api/unknown'' = StaticFile"
proof (intro conjI)
  show "list_all (\<lambda>(m, p, e). local_request m (if CHR ''{'' \<in> set p then pattern_path p @ c # key else p) = Handled e)
      api_entries"
    by code_simp
  show "local_request ''GET'' ''/api/health'' = Handled ApiDoc" by code_simp
  show "local_request ''PATCH'' ''/api/peers'' = MethodNotAllowed" by code_simp
  show "local_request ''GET'' ''/api/unknown'' = StaticFile" by code_simp
qed

lemma api_peers_found:
  "dispatch (rs_handlers (Serve api_server)) ''GET'' ''/api/peers'' =
     Some \<lparr>ah_Method = ''GET'', ah_Pattern = ''/api/peers'', ah_Handler = ApiPeers\<rparr>"
  by code_simp

lemma api_peers_handled: "local_request ''GET'' ''/api/peers'' = Handled ApiPeers"
  by code_simp

theorem most_specific_handler_witness:
  "\<exists>h. dispatch (rs_handlers (Serve api_server)) ''GET'' ''/api/peers'' = Some h
     \<and> h \<in> set (rs_handlers api_server) \<and> HasPrefix ''/api/peers'' (pattern_path (ah_Pattern h))
     \<and> (\<exists>ip port port'. SplitHostPort ''[::1]:5000'' = Some (ip, port) \<and> SplitHostPort ''[::1]:19019'' = Some (ip, port'))"
proof -
  obtain h where h: "dispatch (rs_handlers (Serve api_server)) ''GET'' ''/api/peers'' = Some h"
    using api_peers_found by blast
  have r: "serve_request ''[::1]:5000'' ''[::1]:19019'' NoModule (Serve api_server) ''GET'' ''/api/peers'' = Handled ApiPeers"
    using api_peers_handled by (simp only: local_request_def)
  show ?thesis
    using most_specific_handler [of api_server "''GET''" "''/api/peers''" h "''[::1]:5000''" "''[::1]:19019''" NoModule ApiPeers]
      h r by blast
qed

end
