(* ===== verification/Core_Peers.thy ===== *)
theory Core_Peers
  imports Core_Config
begin

text \<open>
  The core as a transition system around its peer loop and the goroutines it starts, what adding and removing a
  peer comes to, and what removing all of them closes.
\<close>

section \<open>Runs\<close>

text \<open>A run keeps the core, the goroutines that peer loops have started and that have not run yet, and the calls
  that were made.  A goroutine with a nil URL panics when it runs, which ends the whole process.\<close>

datatype core_run = Running core "(url \<times> string) outcome list" "(url \<times> string) list" | CoreCrashed

text \<open>The actor runs a peer loop, a goroutine runs, a timer fires, somebody asks for a retry, the core is stopped, or a
  peer is added or removed: the blocks that \<open>AddPeer\<close>, \<open>RemovePeer\<close> and \<open>RemovePeers\<close> give the actor.\<close>

inductive core_step :: "(string \<Rightarrow> url option) \<Rightarrow> core_run \<Rightarrow> core_run \<Rightarrow> bool" for parse where
  core_loop: "co_inbox c > 0 \<Longrightarrow> addPeerLoop parse (c\<lparr>co_inbox := co_inbox c - 1\<rparr>) = (c', calls)
     \<Longrightarrow> core_step parse (Running c gs made) (Running c' (gs @ calls) made)"
| core_call: "i < length gs \<Longrightarrow> gs ! i = Ret x
     \<Longrightarrow> core_step parse (Running c gs made) (Running c (take i gs @ drop (Suc i) gs) (made @ [x]))"
| core_crash: "Panic \<in> set gs \<Longrightarrow> core_step parse (Running c gs made) CoreCrashed"
| core_fire: "t \<in> co_armed c
     \<Longrightarrow> core_step parse (Running c gs made) (Running (c\<lparr>co_armed := co_armed c - {t}, co_inbox := co_inbox c + 1\<rparr>) gs made)"
| core_retry: "RetryPeersNow c = Some c' \<Longrightarrow> core_step parse (Running c gs made) (Running c' gs made)"
| core_stop: "core_step parse (Running c gs made) (Running (core_close c) gs made)"
| core_add: "parse (pe_URI peer) = Some u \<Longrightarrow> core_step parse (Running c gs made)
     (Running (c\<lparr>co_config := (co_config c)\<lparr>cc_peers := AList.update peer (Some info) (cc_peers (co_config c))\<rparr>\<rparr>) gs made)"
| core_remove: "core_step parse (Running c gs made)
     (Running (c\<lparr>co_config := (co_config c)\<lparr>cc_peers := AList.delete peer (cc_peers (co_config c))\<rparr>\<rparr>) gs made)"

inductive_cases core_step_CoreCrashed: "core_step parse CoreCrashed st"

text \<open>The loops under way: those in the inbox and those a timer will post.\<close>

definition core_inv :: "core \<Rightarrow> bool" where
  "core_inv c \<longleftrightarrow> finite (co_armed c) \<and> (\<forall>t\<in>co_armed c. t < co_next c)
     \<and> (\<forall>t. co_timer c = Some t \<longrightarrow> t < co_next c)
     \<and> (co_done c \<or> co_inbox c > 0 \<or> co_armed c \<noteq> {})"

definition core_start :: "core \<Rightarrow> bool" where
  "core_start c \<longleftrightarrow> (\<exists>marshal build parse sctp encryption now secret opts ls.
     New marshal build parse sctp encryption now secret opts = Inr (c, ls))"

lemma New_InrD:
  "New marshal build parse sctp encryption now secret opts = Inr (c, ls) \<Longrightarrow>
     length secret = 64 \<and> co_public c = drop 32 secret \<and> co_secret c = secret
     \<and> co_config c = fold applyOption opts empty_config
     \<and> co_done c = False \<and> co_timer c = None \<and> co_armed c = {} \<and> co_inbox c = 1 \<and> co_next c = 0"
  by (auto simp: New_def Let_def split: if_splits prod.splits option.splits)

lemma core_start_inv: "core_start c \<Longrightarrow> core_inv c"
  by (auto simp: core_start_def core_inv_def dest!: New_InrD)

definition core_run_start :: "core_run \<Rightarrow> bool" where
  "core_run_start st \<longleftrightarrow> (\<exists>c. st = Running c [] [] \<and> core_start c)"

definition core_run_inv :: "core_run \<Rightarrow> bool" where
  "core_run_inv st = (case st of Running c gs made \<Rightarrow> core_inv c | CoreCrashed \<Rightarrow> True)"

interpretation core_runs: invariant_system core_run_start "core_step parse" core_run_inv for parse
proof unfold_locales
  fix st assume "core_run_start st"
  then show "core_run_inv st" by (auto simp: core_run_start_def core_run_inv_def core_start_inv)
next
  fix st st' assume inv: "core_run_inv st" and "core_step parse st st'"
  from this(2) show "core_run_inv st'"
  proof cases
    case (core_loop c c' calls gs made)
    then have c': "c' = fst (addPeerLoop parse (c\<lparr>co_inbox := co_inbox c - 1\<rparr>))" by simp
    show ?thesis using inv core_loop(1,3) unfolding core_loop(2) c' core_run_inv_def
      by (auto simp: core_inv_def addPeerLoop_def)
  next
    case (core_retry c c' gs made)
    then show ?thesis using inv
      by (auto simp: core_run_inv_def core_inv_def RetryPeersNow_def split: option.splits if_splits)
  next
    case (core_stop c gs made)
    then show ?thesis using inv
      by (auto simp: core_run_inv_def core_inv_def core_close_def Let_def split: option.splits)
  qed (use inv in \<open>auto simp: core_run_inv_def core_inv_def\<close>)
qed

text \<open>The goroutines with a URL can all run.\<close>

lemma calls_made:
  "(core_step parse)\<^sup>*\<^sup>* (Running c (gs @ map Ret calls) made) (Running c gs (made @ calls))"
proof (induction calls arbitrary: made)
  case (Cons x calls)
  have "core_step parse (Running c (gs @ map Ret (x # calls)) made) (Running c (gs @ map Ret calls) (made @ [x]))"
    using core_call [of "length gs" "gs @ map Ret (x # calls)" x parse c made] by simp
  also have "(core_step parse)\<^sup>*\<^sup>* (Running c (gs @ map Ret calls) (made @ [x])) (Running c gs (made @ x # calls))"
    using Cons.IH [of "made @ [x]"] by simp
  finally show ?case .
qed simp

text \<open>The next peer loop.\<close>

lemma next_loop:
  assumes "core_inv c" and "\<not> co_done c"
  obtains c' where "(core_step parse)\<^sup>*\<^sup>* (Running c gs made)
      (Running c' (gs @ map (\<lambda>(peer, _). case parse (pe_URI peer) of None \<Rightarrow> Panic
                   | Some u \<Rightarrow> Ret (u, pe_SourceInterface peer)) (cc_peers (co_config c))) made)"
    and "\<not> co_done c'" and "co_config c' = co_config c"
proof -
  have loop: "\<exists>c''. core_step parse (Running c' gs made)
      (Running c'' (gs @ map (\<lambda>(peer, _). case parse (pe_URI peer) of None \<Rightarrow> Panic
                   | Some u \<Rightarrow> Ret (u, pe_SourceInterface peer)) (cc_peers (co_config c'))) made)
      \<and> \<not> co_done c'' \<and> co_config c'' = co_config c'" if "co_inbox c' > 0" "\<not> co_done c'" for c'
    using core_loop [OF that(1), of parse _ _ gs made] that(2) by (fastforce simp: addPeerLoop_def)
  show ?thesis
  proof (cases "co_inbox c > 0")
    case True
    from loop [OF this assms(2)] show ?thesis using that by blast
  next
    case False
    then obtain t where t: "t \<in> co_armed c" using assms by (auto simp: core_inv_def)
    let ?c = "c\<lparr>co_armed := co_armed c - {t}, co_inbox := co_inbox c + 1\<rparr>"
    obtain c'' where "core_step parse (Running ?c gs made)
        (Running c'' (gs @ map (\<lambda>(peer, _). case parse (pe_URI peer) of None \<Rightarrow> Panic
                   | Some u \<Rightarrow> Ret (u, pe_SourceInterface peer)) (cc_peers (co_config c))) made)"
      "\<not> co_done c''" "co_config c'' = co_config c"
      using loop [of ?c] assms(2) by auto
    with core_fire [OF t, of parse gs made] show ?thesis
      using that by (meson converse_rtranclp_into_rtranclp r_into_rtranclp)
  qed
qed

text \<open>A goroutine that will panic stays until it does.\<close>

lemma doomed_step:
  assumes "core_step parse st st'" and "st = CoreCrashed \<or> (\<exists>c gs made. st = Running c gs made \<and> Panic \<in> set gs)"
  shows "st' = CoreCrashed \<or> (\<exists>c gs made. st' = Running c gs made \<and> Panic \<in> set gs)"
  using assms
proof cases
  case (core_call i gs x c made)
  then have "Panic \<in> set (take i gs @ gs ! i # drop (Suc i) gs)"
    using assms(2) id_take_nth_drop [of i gs] by simp
  then show ?thesis using core_call by auto
qed (use assms(2) in auto)

lemma doomed:
  assumes "(core_step parse)\<^sup>*\<^sup>* (Running c gs made) st" and "Panic \<in> set gs"
  shows "st = CoreCrashed \<or> (\<exists>c gs made. st = Running c gs made \<and> Panic \<in> set gs)"
  using assms(1) by (induction rule: rtranclp_induct) (use assms(2) doomed_step in blast)+

text \<open>C29: peers are called again for ever: in every run of a core that was neither stopped nor has crashed, the next peer loop can
  be reached; if the URIs of all configured peers parse, each of them can then be called once more, with its
  interface.  If some URI does not parse, the loop starts a goroutine that panics, which stays until it does:
  from then on every state of the run has crashed or can crash at once, and a crashed core takes no more steps.\<close>

theorem peer_loop_alive:
  assumes "reach core_run_start (core_step parse) (Running c gs made)" and "\<not> co_done c"
  shows "((\<forall>(peer, info) \<in> set (cc_peers (co_config c)). parse (pe_URI peer) \<noteq> None) \<longrightarrow>
       (\<exists>c' calls. (core_step parse)\<^sup>*\<^sup>* (Running c gs made) (Running c' gs (made @ calls))
          \<and> \<not> co_done c' \<and> co_config c' = co_config c
          \<and> calls = map (\<lambda>(peer, _). (the (parse (pe_URI peer)), pe_SourceInterface peer)) (cc_peers (co_config c))))
     \<and> ((\<exists>(peer, info) \<in> set (cc_peers (co_config c)). parse (pe_URI peer) = None) \<longrightarrow>
       (\<exists>c' gs'. (core_step parse)\<^sup>*\<^sup>* (Running c gs made) (Running c' gs' made)
          \<and> (\<forall>st. (core_step parse)\<^sup>*\<^sup>* (Running c' gs' made) st \<longrightarrow> st = CoreCrashed \<or> core_step parse st CoreCrashed)))
     \<and> (\<forall>st. \<not> core_step parse CoreCrashed st)"
proof -
  have "core_inv c" using core_runs.reach_inv [OF assms(1)] by (simp add: core_run_inv_def)
  then obtain c' where loop: "(core_step parse)\<^sup>*\<^sup>* (Running c gs made)
      (Running c' (gs @ map (\<lambda>(peer, _). case parse (pe_URI peer) of None \<Rightarrow> Panic
                   | Some u \<Rightarrow> Ret (u, pe_SourceInterface peer)) (cc_peers (co_config c))) made)" (is "_ (Running c' (gs @ ?new) made)")
    and c': "\<not> co_done c'" "co_config c' = co_config c"
    by (rule next_loop [OF _ assms(2)])
  let ?calls = "map (\<lambda>(peer, _). (the (parse (pe_URI peer)), pe_SourceInterface peer)) (cc_peers (co_config c))"
  have "(core_step parse)\<^sup>*\<^sup>* (Running c gs made) (Running c' gs (made @ ?calls))"
    if "\<forall>(peer, info) \<in> set (cc_peers (co_config c)). parse (pe_URI peer) \<noteq> None"
  proof -
    have "?new = map Ret ?calls" using that by (auto split: option.split)
    from rtranclp_trans [OF loop [unfolded this] calls_made] show ?thesis .
  qed
  with c' have "\<exists>c' calls. (core_step parse)\<^sup>*\<^sup>* (Running c gs made) (Running c' gs (made @ calls))
      \<and> \<not> co_done c' \<and> co_config c' = co_config c \<and> calls = ?calls"
    if "\<forall>(peer, info) \<in> set (cc_peers (co_config c)). parse (pe_URI peer) \<noteq> None" using that by blast
  moreover have "\<exists>c' gs'. (core_step parse)\<^sup>*\<^sup>* (Running c gs made) (Running c' gs' made)
      \<and> (\<forall>st. (core_step parse)\<^sup>*\<^sup>* (Running c' gs' made) st \<longrightarrow> st = CoreCrashed \<or> core_step parse st CoreCrashed)"
    if "\<exists>(peer, info) \<in> set (cc_peers (co_config c)). parse (pe_URI peer) = None"
  proof -
    have "Panic \<in> set (gs @ ?new)" using that by (force split: option.splits)
    then have "st = CoreCrashed \<or> core_step parse st CoreCrashed"
      if "(core_step parse)\<^sup>*\<^sup>* (Running c' (gs @ ?new) made) st" for st
      using doomed [OF that] core_crash by blast
    with loop show ?thesis by blast
  qed
  moreover have "\<not> core_step parse CoreCrashed st" for st by (auto elim: core_step_CoreCrashed)
  ultimately show ?thesis by blast
qed

definition test_opts :: "setup_option list" where
  "test_opts = [OptPeer \<lparr>pe_URI = ''tcp://h:1'', pe_SourceInterface = ''''\<rparr>, OptNetworkDomain \<lparr>Prefix = ''fc''\<rparr>]"

definition test_core :: core where
  "test_core = fst (projr (New (\<lambda>_. Some []) (\<lambda>_. '''') (\<lambda>_. None) True True 0 (replicate 64 1) test_opts))"

lemma test_core_start: "core_start test_core" "\<not> co_done test_core"
proof -
  have "\<exists>c ls. New (\<lambda>_. Some []) (\<lambda>_. '''') (\<lambda>_. None) True True 0 (replicate 64 1) test_opts = Inr (c, ls)"
    by (simp add: New_def setNodeInfo_def Let_def)
  then obtain c ls where
    c: "New (\<lambda>_. Some []) (\<lambda>_. '''') (\<lambda>_. None) True True 0 (replicate 64 1) test_opts = Inr (c, ls)"
    by blast
  then have "test_core = c" by (simp add: test_core_def)
  moreover have "core_start c" unfolding core_start_def using c by blast
  moreover have "\<not> co_done c" using New_InrD [OF c] by blast
  ultimately show "core_start test_core" "\<not> co_done test_core" by simp_all
qed

theorem peer_loop_alive_witness:
  "\<exists>u c'. (core_step (\<lambda>_. Some u))\<^sup>*\<^sup>* (Running test_core [] []) (Running c' [] [(u, '''')]) \<and> \<not> co_done c'"
proof -
  obtain u :: url where "True" by simp
  have start: "core_run_start (Running test_core [] [])" using test_core_start by (simp add: core_run_start_def)
  have peers: "cc_peers (co_config test_core) = [(\<lparr>pe_URI = ''tcp://h:1'', pe_SourceInterface = ''''\<rparr>, None)]"
    by (simp add: test_core_def New_def setNodeInfo_def Let_def empty_config_def test_opts_def)
  from peer_loop_alive [OF reach_init [of core_run_start, OF start] test_core_start(2), of "\<lambda>_. Some u"]
  show ?thesis by (auto simp: peers)
qed

text \<open>\<open>RetryPeersNow\<close> blocks for good exactly when the last timer of the peer loop is no longer armed:
  between its firing and the loop it posts, and when it is called twice before that loop runs.\<close>

theorem retry_blocks_iff:
  "(RetryPeersNow c = None \<longleftrightarrow> (\<exists>t. co_timer c = Some t \<and> t \<notin> co_armed c))
   \<and> (let c1 = fst (addPeerLoop parse c) in
        co_done c \<or> Option.bind (RetryPeersNow c1) RetryPeersNow = None)"
  by (auto simp: RetryPeersNow_def addPeerLoop_def Let_def split: option.splits if_splits)

section \<open>Adding and removing\<close>

lemma update_fresh: "map_of xs k = None \<Longrightarrow> AList.update k v xs = xs @ [(k, v)]"
  by (induction xs) (auto split: if_splits)

lemma delete_fresh: "map_of xs k = None \<Longrightarrow> AList.delete k xs = xs"
  by (induction xs) (auto simp: AList.delete_eq split: if_splits)

text \<open>C36: a peer that was added is removed without a trace: \<open>RemovePeer\<close> restores the core as it was and
  closes the link under the information that the call of the URL was filed under; adding it
  twice is an error.\<close>

theorem add_remove_peer:
  assumes "AddPeer sctp isIP parse links uri sintf c = (None, c')"
  shows "(\<exists>u. parse uri = Some u
       \<and> RemovePeer uri sintf c' = (True, Some (linkInfoFor (url_Scheme u) sintf (url_Host u)), c))
     \<and> AddPeer sctp isIP parse links uri sintf c' = (Some PeerConfigured, c')
     \<and> fst (RemovePeer uri sintf c) = False"
proof -
  let ?p = "\<lparr>pe_URI = uri, pe_SourceInterface = sintf\<rparr>" and ?xs = "cc_peers (co_config c)"
  have new: "map_of ?xs ?p = None"
    using assms by (auto simp: AddPeer_def Let_def split: if_splits)
  obtain u where u: "parse uri = Some u"
    and c': "c' = c\<lparr>co_config := (co_config c)\<lparr>cc_peers := ?xs @ [(?p, Some (fst (call sctp isIP links u sintf)))]\<rparr>\<rparr>"
    using assms new
    by (auto simp: AddPeer_def Let_def update_fresh split: if_splits option.splits prod.splits call_result.splits)
  have info: "fst (call sctp isIP links u sintf) = linkInfoFor (url_Scheme u) sintf (url_Host u)"
    by (simp add: call_def Let_def)
  have del: "AList.delete ?p (?xs @ [(?p, i)]) = ?xs" for i
    using delete_fresh [OF new] by (simp add: AList.delete_eq)
  have found: "map_of (?xs @ [(?p, i)]) ?p = Some i" for i
    using new by (simp add: map_add_def)
  have "RemovePeer uri sintf c' = (True, Some (linkInfoFor (url_Scheme u) sintf (url_Host u)), c)"
    using found by (simp add: RemovePeer_def Let_def c' info del del: map_of_append)
  moreover have "AddPeer sctp isIP parse links uri sintf c' = (Some PeerConfigured, c')"
    using found by (simp add: AddPeer_def Let_def c' del: map_of_append)
  moreover have "fst (RemovePeer uri sintf c) = False"
    using new by (simp add: RemovePeer_def Let_def)
  ultimately show ?thesis using u by blast
qed

definition test_url :: url where
  "test_url = \<lparr>url_Scheme = ''tcp'', url_Host = ''h:1'', url_Path = '''', url_Query = (\<lambda>_. []), url_String = ''tcp://h:1''\<rparr>"

definition test_empty :: core where
  "test_empty = test_core\<lparr>co_config := empty_config\<rparr>"

lemma test_AddPeer:
  "AddPeer True (\<lambda>_. False) (\<lambda>_. Some test_url) Map.empty ''tcp://h:1'' '''' test_empty =
     (None, test_empty\<lparr>co_config := empty_config\<lparr>cc_peers :=
        [(\<lparr>pe_URI = ''tcp://h:1'', pe_SourceInterface = ''''\<rparr>, Some (linkInfoFor ''tcp'' '''' ''h:1''))]\<rparr>\<rparr>)"
  by (simp add: AddPeer_def test_empty_def empty_config_def call_def test_url_def isConnectedTo_def linkInfoFor_def
      call_options_def query_Get_def Let_def)

theorem add_remove_peer_witness:
  "\<exists>c. RemovePeer ''tcp://h:1'' '''' c = (True, Some (linkInfoFor ''tcp'' '''' ''h:1''), test_empty)"
  using add_remove_peer [OF test_AddPeer] by (auto simp: test_url_def)

section \<open>Removing all peers\<close>

text \<open>The peers that were called, and the links of theirs.\<close>

abbreviation called_infos :: "(Peer \<times> linkInfo option) list \<Rightarrow> linkInfo list" where
  "called_infos peers \<equiv> List.map_filter snd peers"

lemma deref_info_simps [simp]: "deref_info None = Panic" "deref_info (Some x) = Ret x"
  by (simp_all add: deref_info_def)

lemma deref_info_Panic [simp]: "deref_info var = Panic \<longleftrightarrow> var = None"
  by (simp add: deref_info_def split: option.split)

lemma map_filter_Cons: "List.map_filter f (x # xs) = (case f x of None \<Rightarrow> [] | Some y \<Rightarrow> [y]) @ List.map_filter f xs"
  by (simp add: List.map_filter_def split: option.split)

lemma remove_loop_length:
  "length (remove_loop sched peers var posted) = posted + length (called_infos peers)"
  by (induction sched peers var posted rule: remove_loop.induct)
    (auto simp: Let_def map_filter_Cons List.map_filter_def split: option.splits)

lemma remove_loop_prompt:
  "remove_loop (replicate (length peers) 1) peers var 0 = map Ret (called_infos peers)"
proof (induction peers arbitrary: var)
  case (Cons x peers)
  then show ?case by (cases x) (auto simp: map_filter_Cons split: option.split)
qed (simp add: List.map_filter_def)

text \<open>Whatever is read was the variable's value in an iteration with a closure posted by then.\<close>

lemma remove_loop_reads:
  "y \<in> set (remove_loop sched peers var posted) \<Longrightarrow>
     (peers = [] \<and> y = deref_info var) \<or>
     (\<exists>j < length peers. y = deref_info (snd (peers ! j)) \<and> (posted > 0 \<or> (\<exists>i \<le> j. snd (peers ! i) \<noteq> None)))"
proof (induction sched peers var posted rule: remove_loop.induct)
  case (2 sched peer info peers var posted)
  define posted' where "posted' = (if info \<noteq> None then posted + 1 else posted)"
  define run where "run = min (case sched of [] \<Rightarrow> 0 | n # _ \<Rightarrow> n) posted'"
  have now: "\<exists>j < length ((peer, info) # peers). y = deref_info (snd (((peer, info) # peers) ! j))
      \<and> (posted > 0 \<or> (\<exists>i \<le> j. snd (((peer, info) # peers) ! i) \<noteq> None))"
    if "posted' > 0" and "y = deref_info info"
    using that by (intro exI [of _ 0]) (auto simp: posted'_def split: if_splits)
  consider "y = deref_info info" "posted' > 0" | "y \<in> set (remove_loop (tl sched) peers info (posted' - run))"
    using "2.prems" by (auto simp: Let_def posted'_def run_def split: if_splits)
  then show ?case
  proof cases
    case 1
    then show ?thesis using now by blast
  next
    case 2
    then have pos: "peers = [] \<Longrightarrow> posted' > 0" by (cases "posted' - run") auto
    from "2.IH" [OF refl refl refl] 2
    have "peers = [] \<and> y = deref_info info \<or>
      (\<exists>j < length peers. y = deref_info (snd (peers ! j)) \<and> (posted' - run > 0 \<or> (\<exists>i \<le> j. snd (peers ! i) \<noteq> None)))"
      by (simp add: posted'_def run_def)
    then show ?thesis
    proof
      assume "peers = [] \<and> y = deref_info info"
      then show ?thesis using now pos by blast
    next
      assume "\<exists>j < length peers. y = deref_info (snd (peers ! j)) \<and> (posted' - run > 0 \<or> (\<exists>i \<le> j. snd (peers ! i) \<noteq> None))"
      then obtain j where j: "j < length peers" "y = deref_info (snd (peers ! j))"
        and "posted' > 0 \<or> (\<exists>i \<le> j. snd (peers ! i) \<noteq> None)" by force
      then have "posted > 0 \<or> (\<exists>i \<le> Suc j. snd (((peer, info) # peers) ! i) \<noteq> None)"
        by (fastforce simp: posted'_def split: if_splits)
      with j show ?thesis by (intro disjI2 exI [of _ "Suc j"]) simp
    qed
  qed
qed simp

text \<open>An actor that is not scheduled before iteration \<open>j\<close> reads the value of that iteration first.\<close>

lemma remove_loop_late:
  "j < length peers \<Longrightarrow> posted > 0 \<or> (\<exists>i \<le> j. snd (peers ! i) \<noteq> None) \<Longrightarrow>
     \<exists>rest. remove_loop (replicate j 0 @ [1]) peers var posted = deref_info (snd (peers ! j)) # rest"
proof (induction j arbitrary: peers var posted)
  case 0
  then obtain peer info peers' where p: "peers = (peer, info) # peers'" by (cases peers) auto
  have "min 1 (if info \<noteq> None then posted + 1 else posted) = 1" using 0 by (auto simp: p)
  then show ?case by (simp add: p Let_def)
next
  case (Suc j)
  then obtain peer info peers' where p: "peers = (peer, info) # peers'" by (cases peers) auto
  have "\<exists>rest. remove_loop (replicate j 0 @ [1]) peers' info (if info \<noteq> None then posted + 1 else posted) =
      deref_info (snd (peers' ! j)) # rest"
  proof (rule Suc.IH)
    show "j < length peers'" using Suc.prems(1) by (simp add: p)
    show "0 < (if info \<noteq> None then posted + 1 else posted) \<or> (\<exists>i \<le> j. snd (peers' ! i) \<noteq> None)"
      using Suc.prems(2) by (auto simp: p nth_Cons' split: if_splits)
  qed
  then show ?case by (simp add: p Let_def split: if_splits)
qed

text \<open>Every schedule closes the right links in the right order exactly when no called peer comes before one with
  another link information, or with none.\<close>

lemma remove_loop_right:
  "(\<forall>sched. remove_loop sched peers None 0 = map Ret (called_infos peers)) \<longleftrightarrow>
     (\<forall>j < length peers. \<forall>i < j. snd (peers ! i) \<noteq> None \<longrightarrow> snd (peers ! j) = snd (peers ! i))"
proof
  assume right: "\<forall>sched. remove_loop sched peers None 0 = map Ret (called_infos peers)"
  show "\<forall>j < length peers. \<forall>i < j. snd (peers ! i) \<noteq> None \<longrightarrow> snd (peers ! j) = snd (peers ! i)"
  proof (intro allI impI)
    fix j i assume "j < length peers" "i < j" "snd (peers ! i) \<noteq> None"
    then have i: "i < length peers" by simp
    obtain r1 where r1: "remove_loop (replicate i 0 @ [1]) peers None 0 = deref_info (snd (peers ! i)) # r1"
      using remove_loop_late [OF i, of 0 None] \<open>snd (peers ! i) \<noteq> None\<close> by blast
    obtain r2 where r2: "remove_loop (replicate j 0 @ [1]) peers None 0 = deref_info (snd (peers ! j)) # r2"
      using remove_loop_late [OF \<open>j < length peers\<close>, of 0 None] \<open>i < j\<close> \<open>snd (peers ! i) \<noteq> None\<close>
      by (meson less_imp_le_nat)
    have "deref_info (snd (peers ! i)) = deref_info (snd (peers ! j))" using right r1 r2 by (metis list.inject)
    then show "snd (peers ! j) = snd (peers ! i)" using \<open>snd (peers ! i) \<noteq> None\<close>
      by (auto simp: deref_info_def split: option.splits)
  qed
next
  assume same: "\<forall>j < length peers. \<forall>i < j. snd (peers ! i) \<noteq> None \<longrightarrow> snd (peers ! j) = snd (peers ! i)"
  have one: "y = z" if y: "y \<in> set (remove_loop sched peers None 0)" and z: "z \<in> set (remove_loop sched' peers None 0)"
    for y z sched sched'
  proof -
    have read: "\<exists>i < length peers. snd (peers ! i) \<noteq> None \<and> x = deref_info (snd (peers ! i))"
      if x: "x \<in> set (remove_loop sc peers None 0)" for x sc
    proof -
      have "peers \<noteq> []" using x by auto
      then obtain j i where "j < length peers" "x = deref_info (snd (peers ! j))" "i \<le> j" "snd (peers ! i) \<noteq> None"
        using remove_loop_reads [OF x] by auto
      then show ?thesis using same by (metis le_neq_implies_less order_le_less_trans)
    qed
    obtain i j where "i < length peers" "snd (peers ! i) \<noteq> None" "y = deref_info (snd (peers ! i))"
      "j < length peers" "snd (peers ! j) \<noteq> None" "z = deref_info (snd (peers ! j))"
      using read [OF y] read [OF z] by blast
    then show "y = z" using same by (metis linorder_neqE_nat)
  qed
  show "\<forall>sched. remove_loop sched peers None 0 = map Ret (called_infos peers)"
  proof
    fix sched
    note l = remove_loop_length [of _ peers None 0]
    show "remove_loop sched peers None 0 = map Ret (called_infos peers)"
      unfolding remove_loop_prompt [of peers None, symmetric]
      by (rule nth_equalityI) (simp add: l, (rule one [OF nth_mem nth_mem]; simp add: l))
  qed
qed

lemma remove_loop_crash:
  "(\<exists>sched. Panic \<in> set (remove_loop sched peers None 0)) \<longleftrightarrow>
     (\<exists>j < length peers. \<exists>i < j. snd (peers ! i) \<noteq> None \<and> snd (peers ! j) = None)"
proof
  assume "\<exists>sched. Panic \<in> set (remove_loop sched peers None 0)"
  then obtain sched where y: "Panic \<in> set (remove_loop sched peers None 0)" ..
  then have "peers \<noteq> []" by auto
  then obtain j i where "j < length peers" "snd (peers ! j) = None" "i \<le> j" "snd (peers ! i) \<noteq> None"
    using remove_loop_reads [OF y] by (metis deref_info_Panic less_numeral_extra(3))
  then show "\<exists>j < length peers. \<exists>i < j. snd (peers ! i) \<noteq> None \<and> snd (peers ! j) = None"
    by (metis le_neq_implies_less)
next
  assume "\<exists>j < length peers. \<exists>i < j. snd (peers ! i) \<noteq> None \<and> snd (peers ! j) = None"
  then obtain j i where j: "j < length peers" "snd (peers ! j) = None" and "i \<le> j" "snd (peers ! i) \<noteq> None"
    by (meson less_imp_le_nat)
  then have "\<exists>rest. remove_loop (replicate j 0 @ [1]) peers None 0 = deref_info (snd (peers ! j)) # rest"
    by (intro remove_loop_late) auto
  then show "\<exists>sched. Panic \<in> set (remove_loop sched peers None 0)" using j by (metis deref_info_simps(1) list.set_intros(1))
qed

text \<open>C35: what \<open>RemovePeers\<close> closes under the schedules of the links actor, whose messages share the loop's variable.
  Under every schedule as many messages are handled as peers were called, and all peers are gone from the
  configuration.  Some schedule closes the links of the called peers; all schedules do so exactly when no called
  peer comes before a peer with another link, or one that was never called; and some schedule crashes the
  process exactly when a called peer comes before one that was never called, like those of the
  configuration file.\<close>

theorem remove_peers_closes:
  "(\<forall>sched. length (fst (RemovePeers sched c)) = length (called_infos (cc_peers (co_config c)))
       \<and> cc_peers (co_config (snd (RemovePeers sched c))) = [])
   \<and> (\<exists>sched. fst (RemovePeers sched c) = map Ret (called_infos (cc_peers (co_config c))))
   \<and> ((\<forall>sched. fst (RemovePeers sched c) = map Ret (called_infos (cc_peers (co_config c)))) \<longleftrightarrow>
       (\<forall>j < length (cc_peers (co_config c)). \<forall>i < j. snd (cc_peers (co_config c) ! i) \<noteq> None \<longrightarrow>
          snd (cc_peers (co_config c) ! j) = snd (cc_peers (co_config c) ! i)))
   \<and> ((\<exists>sched. Panic \<in> set (fst (RemovePeers sched c))) \<longleftrightarrow>
       (\<exists>j < length (cc_peers (co_config c)). \<exists>i < j.
          snd (cc_peers (co_config c) ! i) \<noteq> None \<and> snd (cc_peers (co_config c) ! j) = None))"
  unfolding RemovePeers_def fst_conv snd_conv remove_loop_right remove_loop_crash remove_loop_length
  using remove_loop_prompt [of "cc_peers (co_config c)" None] by auto

text \<open>A peer that was called, and then one of the configuration file: some schedule crashes.\<close>

theorem remove_peers_closes_witness:
  "\<exists>sched. Panic \<in> set (fst (RemovePeers sched (test_empty\<lparr>co_config := empty_config\<lparr>cc_peers :=
     [(\<lparr>pe_URI = ''tcp://h:1'', pe_SourceInterface = ''''\<rparr>, Some (linkInfoFor ''tcp'' '''' ''h:1'')),
      (\<lparr>pe_URI = ''tcp://h:2'', pe_SourceInterface = ''''\<rparr>, None)]\<rparr>\<rparr>)))"
  using remove_peers_closes [of "test_empty\<lparr>co_config := empty_config\<lparr>cc_peers :=
     [(\<lparr>pe_URI = ''tcp://h:1'', pe_SourceInterface = ''''\<rparr>, Some (linkInfoFor ''tcp'' '''' ''h:1'')),
      (\<lparr>pe_URI = ''tcp://h:2'', pe_SourceInterface = ''''\<rparr>, None)]\<rparr>\<rparr>"]
  by (auto simp: less_Suc_eq)

end
