(* ===== verification/Rest_Handlers.thy ===== *)
theory Rest_Handlers
  imports Rest_Dispatch Config Core_Peers Core_Reports
begin

text \<open>
  The handlers of src/restapi/rest_server.go: what each writes to its response and does to the node and
  to the configuration file.  The text of IP addresses and of errors, the table printer, the
  country database and the answers of other hosts are parameters.
\<close>

section \<open>Responses\<close>

text \<open>A \<open>ResponseWriter\<close>: the status once it is written, the headers, the body.\<close>

record response =
  rw_status :: "nat option"
  rw_headers :: "(string \<times> string list) list"
  rw_body :: string

definition new_response :: response where
  "new_response = \<lparr>rw_status = None, rw_headers = [], rw_body = ''''\<rparr>"

definition header_Set :: "string \<Rightarrow> string \<Rightarrow> response \<Rightarrow> response" where
  "header_Set k v w = w\<lparr>rw_headers := AList.update k [v] (rw_headers w)\<rparr>"

definition header_Add :: "string \<Rightarrow> string \<Rightarrow> response \<Rightarrow> response" where
  "header_Add k v w =
     w\<lparr>rw_headers := AList.update k ((case map_of (rw_headers w) k of None \<Rightarrow> [] | Some vs \<Rightarrow> vs) @ [v]) (rw_headers w)\<rparr>"

definition WriteHeader :: "nat \<Rightarrow> response \<Rightarrow> response" where
  "WriteHeader n w = (if rw_status w = None then w\<lparr>rw_status := Some n\<rparr> else w)"

definition write_body :: "string \<Rightarrow> response \<Rightarrow> response" where
  "write_body s w = (let w = WriteHeader 200 w in w\<lparr>rw_body := rw_body w @ s\<rparr>)"

definition http_Error :: "string \<Rightarrow> nat \<Rightarrow> response \<Rightarrow> response" where
  "http_Error error code w =
     write_body (error @ [CHR 0x0A]) (WriteHeader code
       (header_Set ''X-Content-Type-Options'' ''nosniff'' (header_Set ''Content-Type'' ''text/plain; charset=utf-8'' w)))"

definition addNoCacheHeaders :: "response \<Rightarrow> response" where
  "addNoCacheHeaders w = header_Add ''Expires'' ''0'' (header_Add ''Pragma'' ''no-cache''
     (header_Add ''Cache-Control'' ''no-cache, no-store, must-revalidate'' w))"

definition WriteError :: "(nat \<Rightarrow> string) \<Rightarrow> nat \<Rightarrow> response \<Rightarrow> response" where
  "WriteError StatusText status w = http_Error (StatusText status) status w"

section \<open>JSON\<close>

text \<open>The text that \<open>encoding/json\<close> makes of a value: the keys of a map in order, the characters that HTML
  treats specially as escapes.  Strings are taken to be valid UTF-8.\<close>

definition hex4 :: "char \<Rightarrow> string" where
  "hex4 c = [CHR 0x5C] @ ''u00'' @ hex_encode [of_char c]"

definition json_char :: "char \<Rightarrow> string" where
  "json_char c =
     (if c = CHR 0x22 \<or> c = CHR 0x5C then [CHR 0x5C, c]
      else if c = CHR 0x0A then [CHR 0x5C, CHR ''n''] else if c = CHR 0x0D then [CHR 0x5C, CHR ''r'']
      else if c = CHR 0x09 then [CHR 0x5C, CHR ''t'']
      else if (of_char c :: nat) < 32 \<or> c = CHR ''<'' \<or> c = CHR ''>'' \<or> c = CHR ''&'' then hex4 c
      else [c])"

definition json_string :: "string \<Rightarrow> string" where
  "json_string s = [CHR 0x22] @ concat (map json_char s) @ [CHR 0x22]"

fun join_commas :: "string list \<Rightarrow> string" where
  "join_commas [] = []"
| "join_commas [x] = x"
| "join_commas (x # y # zs) = x @ '','' @ join_commas (y # zs)"

definition show_int :: "int \<Rightarrow> string" where
  "show_int i = (if i < 0 then ''-'' @ show_nat (nat (- i)) else show_nat (nat i))"

primrec json_text :: "json \<Rightarrow> string" where
  "json_text JNull = ''null''"
| "json_text (JBool b) = (if b then ''true'' else ''false'')"
| "json_text (JNum i) = show_int i"
| "json_text (JString s) = json_string s"
| "json_text (JArray xs) = ''['' @ join_commas (map json_text xs) @ '']''"
| "json_text (JObject kvs) =
     ''{'' @ join_commas (map (\<lambda>(k, v). json_string k @ '':'' @ v) (map (map_prod id json_text) kvs)) @ ''}''"

definition json_map :: "(string \<times> json) list \<Rightarrow> json" where
  "json_map kvs = JObject (sort_key fst kvs)"

section \<open>Requests\<close>

text \<open>A request: its path, the values of the query's \<open>fmt\<close> and of the header that asks to save, and its body
  as the JSON decoder leaves it: whether it failed, and the peers (or the node info) decoded.\<close>

record request =
  rq_Path :: string
  rq_fmt :: "string list"
  rq_save :: "string list"
  rq_decode_error :: "string option"
  rq_peers :: "(string \<rightharpoonup> string) list"
  rq_info :: "string \<rightharpoonup> json"

definition wants_table :: "request \<Rightarrow> bool" where
  "wants_table r = (case rq_fmt r of [] \<Rightarrow> False | f # _ \<Rightarrow> f = ''table'')"

definition WriteJson :: "(json \<Rightarrow> string) \<Rightarrow> request \<Rightarrow> json \<Rightarrow> response \<Rightarrow> response" where
  "WriteJson tableprinter r data w =
     (if wants_table r
      then write_body (tableprinter data) (header_Add ''Content-Type'' ''text/plain; charset=utf-8'' w)
      else write_body (json_text data) (header_Add ''Content-Type'' ''application/json; charset=utf-8'' w))"

section \<open>Documentation and self\<close>

definition lower :: "char \<Rightarrow> char" where
  "lower c = (if CHR ''A'' \<le> c \<and> c \<le> CHR ''Z'' then char_of (of_char c + 32 :: nat) else c)"

text \<open>The description of each method of each path; a later entry of the table replaces an earlier one.\<close>

definition api_paths :: "(string \<times> string \<times> string) list \<Rightarrow> (string \<times> (string \<times> string) list) list" where
  "api_paths hs = fold (\<lambda>(method, pattern, desc) paths.
      AList.update pattern (AList.update (map lower method) desc
        (case map_of paths pattern of None \<Rightarrow> [] | Some ms \<Rightarrow> ms)) paths) hs []"

definition openapi :: "(string \<times> string \<times> string) list \<Rightarrow> json" where
  "openapi hs = json_map
     [(''openapi'', JString ''3.0.3''),
      (''info'', json_map [(''title'', JString ''Riv mesh - OpenAPI 3.0''),
         (''description'', JString ''Common query params: fmt=table|json - response format'')]),
      (''paths'', json_map (map (\<lambda>(p, ms). (p, json_map (map (\<lambda>(m, d).
          (m, json_map [(''description'', JString d)])) ms))) (api_paths hs)))]"

definition handlers_json :: "(string \<times> string \<times> string) list \<Rightarrow> json" where
  "handlers_json hs = JArray (map (\<lambda>(m, p, d).
     JObject [(''method'', JString m), (''pattern'', JString p), (''desc'', JString d)]) hs)"

definition getApiHandler :: "(json \<Rightarrow> string) \<Rightarrow> (string \<times> string \<times> string) list \<Rightarrow> request \<Rightarrow> response \<Rightarrow> response" where
  "getApiHandler tableprinter hs r w =
     (let w = header_Set ''Access-Control-Allow-Headers'' ''*'' (header_Set ''Access-Control-Allow-Origin'' ''*'' w)
      in if wants_table r
         then WriteJson tableprinter r (handlers_json hs)
           (write_body (''Common query params: fmt=table|json - Response format'' @ [CHR 0x0A, CHR 0x0A])
             (header_Add ''Content-Type'' ''text/plain; charset=utf-8'' w))
         else write_body (json_text (openapi hs)) (header_Add ''Content-Type'' ''application/json; charset=utf-8'' w))"

definition JNat :: "nat \<Rightarrow> json" where "JNat n = JNum (int n)"

definition getApiSelfHandler ::
  "(json \<Rightarrow> string) \<Rightarrow> (bytes \<Rightarrow> string) \<Rightarrow> (bytes \<times> nat \<Rightarrow> string) \<Rightarrow> string \<times> string \<Rightarrow> string list
    \<Rightarrow> SelfInfo \<Rightarrow> core \<Rightarrow> request \<Rightarrow> response \<Rightarrow> response outcome" where
  "getApiSelfHandler tableprinter show_ip show_net build features self c r w =
     bind_outcome (core_Subnet c) (\<lambda>snet. bind_outcome (core_Address c) (\<lambda>addr. Ret (WriteJson tableprinter r (json_map
       [(''build_name'', JString (fst build)), (''build_version'', JString (snd build)),
        (''key'', JString (hex_encode (self_Key self))), (''private_key'', JString (hex_encode (self_PrivateKey self))),
        (''address'', JString (show_ip addr)), (''subnet'', JString (show_net snet)),
        (''coords'', JArray (map JNat (self_Coords self))), (''features'', JArray (map JString features))]) w)))"

text \<open>\<open>json.RawMessage\<close>: the stored text as it is.\<close>

definition getApiNodeinfoHandler :: "(string \<Rightarrow> string) \<Rightarrow> core \<Rightarrow> request \<Rightarrow> response \<Rightarrow> response" where
  "getApiNodeinfoHandler raw_table c r w =
     (let text = map (\<lambda>b. char_of (unat b)) (GetThisNodeInfo c)
      in if wants_table r then write_body (raw_table text) (header_Add ''Content-Type'' ''text/plain; charset=utf-8'' w)
         else write_body text (header_Add ''Content-Type'' ''application/json; charset=utf-8'' w))"

end
