(* ===== verification/Rest_Peers.thy ===== *)
theory Rest_Peers
  imports Rest_Handlers
begin

text \<open>
  The handlers of src/restapi/rest_server.go that report on and change the node: the routing table,
  paths, sessions and peers in sorted order, the changes of the peer list and of the node info with
  what they persist, the requests to remote nodes, and the events.
\<close>

section \<open>Reports\<close>

text \<open>The three reports with an address for each key; the address of a key that is not 32 bytes long is a nil
  pointer, which is dereferenced.\<close>

fun collect :: "'a outcome list \<Rightarrow> 'a list outcome" where
  "collect [] = Ret []"
| "collect (x # xs) = bind_outcome x (\<lambda>y. bind_outcome (collect xs) (\<lambda>ys. Ret (y # ys)))"

lemma collect_eq_Ret: "collect xs = Ret ys \<Longrightarrow> xs = map Ret ys"
  by (induction xs arbitrary: ys) (auto simp: go_simps)

definition with_address ::
  "network_domain \<Rightarrow> (bytes \<Rightarrow> string) \<Rightarrow> bytes \<Rightarrow> (string \<times> json) list \<Rightarrow> (string \<times> json) outcome" where
  "with_address nd show_ip key extra =
     bind_outcome (AddrForKey nd key) (\<lambda>a. case a of None \<Rightarrow> Panic
       | Some a \<Rightarrow> Ret (hex_encode key, json_map ([(''address'', JString (show_ip a)), (''key'', JString (hex_encode key))] @ extra)))"

definition report ::
  "(json \<Rightarrow> string) \<Rightarrow> (string \<times> json) outcome list \<Rightarrow> request \<Rightarrow> response \<Rightarrow> response outcome" where
  "report tableprinter entries r w =
     bind_outcome (collect entries) (\<lambda>result. Ret (WriteJson tableprinter r (JArray (map snd (sort_key fst result))) w))"

definition getApiDhtHandler ::
  "(json \<Rightarrow> string) \<Rightarrow> network_domain \<Rightarrow> (bytes \<Rightarrow> string) \<Rightarrow> DHTEntryInfo list \<Rightarrow> request \<Rightarrow> response \<Rightarrow> response outcome" where
  "getApiDhtHandler tableprinter nd show_ip dht r w =
     report tableprinter (map (\<lambda>d. with_address nd show_ip (dht_Key d)
       [(''port'', JNat (dht_Port d)), (''rest'', JNat (dht_Rest d))]) dht) r w"

definition getApiPathsHandler ::
  "(json \<Rightarrow> string) \<Rightarrow> network_domain \<Rightarrow> (bytes \<Rightarrow> string) \<Rightarrow> PathEntryInfo list \<Rightarrow> request \<Rightarrow> response \<Rightarrow> response outcome" where
  "getApiPathsHandler tableprinter nd show_ip paths r w =
     report tableprinter (map (\<lambda>d. with_address nd show_ip (path_Key d)
       [(''path'', JArray (map JNat (path_Path d)))]) paths) r w"

text \<open>\<open>seconds\<close> is the JSON number of a duration in seconds.\<close>

definition getApiSessionsHandler ::
  "(json \<Rightarrow> string) \<Rightarrow> network_domain \<Rightarrow> (bytes \<Rightarrow> string) \<Rightarrow> (nat \<Rightarrow> json) \<Rightarrow> SessionInfo list \<Rightarrow> request \<Rightarrow> response
    \<Rightarrow> response outcome" where
  "getApiSessionsHandler tableprinter nd show_ip seconds sessions r w =
     report tableprinter (map (\<lambda>s. with_address nd show_ip (si_Key s)
       [(''bytes_recvd'', JNat (unat (si_RXBytes s))), (''bytes_sent'', JNat (unat (si_TXBytes s))),
        (''uptime'', seconds (si_Uptime s))]) sessions) r w"

text \<open>The interfaces come in the order in which Go's map is iterated.\<close>

definition getApiMulticastinterfacesHandler ::
  "(json \<Rightarrow> string) \<Rightarrow> string list option \<Rightarrow> request \<Rightarrow> response \<Rightarrow> response" where
  "getApiMulticastinterfacesHandler tableprinter names r w =
     (case names of None \<Rightarrow> http_Error (''Multicast module isn'' @ [CHR 0x27] @ ''t started'') 500 w
      | Some names \<Rightarrow> WriteJson tableprinter r (JArray (map JString names)) w)"

section \<open>Peers\<close>

record peer_entry =
  pr_Address :: string
  pr_Key :: string
  pr_Port :: nat
  pr_Priority :: nat
  pr_Coords :: "nat list"
  pr_Remote :: string
  pr_Remote_ip :: string
  pr_Bytes_recvd :: "64 word"
  pr_Bytes_sent :: "64 word"
  pr_Uptime :: nat
  pr_Multicast :: bool
  pr_Country_short :: string
  pr_Country_long :: string

definition ip2loc_not_supported :: string where
  "ip2loc_not_supported = ''This parameter is unavailable for selected data file. Please upgrade the data file.''"

definition ip2loc_invalid_ip_address :: string where
  "ip2loc_invalid_ip_address = ''Invalid IP address.''"

text \<open>The country database, if it was opened: its short and long names for an address, or an error.\<close>

definition getCountry :: "(string \<Rightarrow> (string \<times> string) option) option \<Rightarrow> string \<Rightarrow> string \<times> string" where
  "getCountry db ipaddr =
     (case db of None \<Rightarrow> ('''', '''')
      | Some get \<Rightarrow>
          (case get ipaddr of None \<Rightarrow> ('''', '''')
           | Some (short, long) \<Rightarrow>
               (if short \<noteq> ip2loc_not_supported \<and> short \<noteq> ip2loc_invalid_ip_address then short else '''',
                if long \<noteq> ip2loc_not_supported \<and> long \<noteq> ip2loc_invalid_ip_address then long else '''')))"

definition peer_entry_of ::
  "network_domain \<Rightarrow> (bytes \<Rightarrow> string) \<Rightarrow> (string \<Rightarrow> (string \<times> string) option) option \<Rightarrow> PeerInfo \<Rightarrow> peer_entry outcome" where
  "peer_entry_of nd show_ip db p =
     bind_outcome (AddrForKey nd (pi_Key p)) (\<lambda>a. case a of None \<Rightarrow> Panic
       | Some a \<Rightarrow> Ret \<lparr>pr_Address = show_ip a, pr_Key = hex_encode (pi_Key p), pr_Port = pi_Port p,
           pr_Priority = pi_Priority p, pr_Coords = pi_Coords p, pr_Remote = pi_Remote p,
           pr_Remote_ip = pi_RemoteIp p, pr_Bytes_recvd = pi_RXBytes p, pr_Bytes_sent = pi_TXBytes p,
           pr_Uptime = pi_Uptime p, pr_Multicast = Contains (pi_Remote p) ''[fe80::'',
           pr_Country_short = fst (getCountry db (pi_RemoteIp p)), pr_Country_long = snd (getCountry db (pi_RemoteIp p))\<rparr>)"

text \<open>The comparison that the list is sorted with.\<close>

definition peer_less :: "peer_entry \<Rightarrow> peer_entry \<Rightarrow> bool" where
  "peer_less a b =
     (if pr_Multicast a \<noteq> pr_Multicast b then \<not> pr_Multicast a \<and> pr_Multicast b
      else if pr_Priority a \<noteq> pr_Priority b then pr_Priority a < pr_Priority b
      else if pr_Address a \<noteq> pr_Address b then pr_Address a < pr_Address b
      else pr_Port a < pr_Port b)"

definition peer_key :: "peer_entry \<Rightarrow> bool \<times> nat \<times> string \<times> nat" where
  "peer_key p = (pr_Multicast p, pr_Priority p, pr_Address p, pr_Port p)"

text \<open>\<open>sort.Slice\<close> may leave entries that compare equal in any order; this is one of them.\<close>

definition prepareGetPeers ::
  "network_domain \<Rightarrow> (bytes \<Rightarrow> string) \<Rightarrow> (string \<Rightarrow> (string \<times> string) option) option \<Rightarrow> PeerInfo list
    \<Rightarrow> peer_entry list outcome" where
  "prepareGetPeers nd show_ip db peers =
     bind_outcome (collect (map (peer_entry_of nd show_ip db) peers)) (\<lambda>response. Ret (sort_key peer_key response))"

definition peer_json :: "(nat \<Rightarrow> json) \<Rightarrow> peer_entry \<Rightarrow> json" where
  "peer_json seconds p = JObject
     [(''address'', JString (pr_Address p)), (''key'', JString (pr_Key p)), (''port'', JNat (pr_Port p)),
      (''priority'', JNat (pr_Priority p)), (''coords'', JArray (map JNat (pr_Coords p))),
      (''remote'', JString (pr_Remote p)), (''remote_ip'', JString (pr_Remote_ip p)),
      (''bytes_recvd'', JNat (unat (pr_Bytes_recvd p))), (''bytes_sent'', JNat (unat (pr_Bytes_sent p))),
      (''uptime'', seconds (pr_Uptime p)), (''multicast'', JBool (pr_Multicast p)),
      (''country_short'', JString (pr_Country_short p)), (''country_long'', JString (pr_Country_long p))]"

definition getApiPeersHandler ::
  "(json \<Rightarrow> string) \<Rightarrow> network_domain \<Rightarrow> (bytes \<Rightarrow> string) \<Rightarrow> (string \<Rightarrow> (string \<times> string) option) option \<Rightarrow> (nat \<Rightarrow> json)
    \<Rightarrow> PeerInfo list \<Rightarrow> request \<Rightarrow> response \<Rightarrow> response outcome" where
  "getApiPeersHandler tableprinter nd show_ip db seconds peers r w =
     bind_outcome (prepareGetPeers nd show_ip db peers)
       (\<lambda>ps. Ret (WriteJson tableprinter r (JArray (map (peer_json seconds) ps)) w))"

definition getPeersRxTxBytes :: "PeerInfo list \<Rightarrow> 64 word \<times> 64 word" where
  "getPeersRxTxBytes peers =
     fold (\<lambda>p (rx, tx). (rx + pi_RXBytes p, tx + pi_TXBytes p)) peers (0, 0)"

section \<open>Changing the peers\<close>

text \<open>The node and its configuration file: \<open>st_file\<close> is what \<open>ReadConfig\<close> reads from the file, if it can;
  \<open>st_writable\<close> says whether \<open>WriteConfig\<close> succeeds.\<close>

record rest_state =
  st_core :: core
  st_ConfigFn :: string
  st_file :: "NodeConfig option"
  st_writable :: bool

definition saveConfig :: "(NodeConfig \<Rightarrow> NodeConfig) \<Rightarrow> request \<Rightarrow> rest_state \<Rightarrow> rest_state" where
  "saveConfig setConfigFields r st =
     (if length (st_ConfigFn st) > 0
      then (case rq_save r of [] \<Rightarrow> st
            | h # _ \<Rightarrow>
                if h = ''true''
                then (case st_file st of None \<Rightarrow> st
                      | Some cfg \<Rightarrow> if st_writable st then st\<lparr>st_file := Some (setConfigFields cfg)\<rparr> else st)
                else st)
      else st)"

definition peer_field :: "(string \<rightharpoonup> string) \<Rightarrow> string \<Rightarrow> string" where
  "peer_field peer k = (case peer k of None \<Rightarrow> '''' | Some v \<Rightarrow> v)"

definition save_peer :: "(string \<rightharpoonup> string) \<Rightarrow> NodeConfig \<Rightarrow> NodeConfig" where
  "save_peer peer cfg =
     (if peer_field peer ''interface'' = ''''
      then cfg\<lparr>cfg_Peers := cfg_Peers cfg @ [peer_field peer ''url'']\<rparr>
      else (let i = peer_field peer ''interface'';
                old = (case map_of (cfg_InterfacePeers cfg) i of None \<Rightarrow> [] | Some us \<Rightarrow> us)
            in cfg\<lparr>cfg_InterfacePeers := AList.update i (old @ [peer_field peer ''url'']) (cfg_InterfacePeers cfg)\<rparr>))"

definition savePeers :: "(string \<rightharpoonup> string) list \<Rightarrow> request \<Rightarrow> rest_state \<Rightarrow> rest_state" where
  "savePeers peers r st =
     saveConfig (\<lambda>cfg. fold save_peer peers (cfg\<lparr>cfg_Peers := [], cfg_InterfacePeers := []\<rparr>)) r st"

text \<open>How peers are added: the parser of URLs, the link table, the text of an error.\<close>

record 'l peer_env =
  en_isIP :: "string \<Rightarrow> bool"
  en_parse :: "string \<Rightarrow> url option"
  en_links :: "'l link_table"
  en_text :: "add_error \<Rightarrow> string"

fun post_loop :: "'l peer_env \<Rightarrow> (string \<rightharpoonup> string) list \<Rightarrow> core \<Rightarrow> add_error option \<times> core" where
  "post_loop en [] c = (None, c)"
| "post_loop en (peer # peers) c =
     (case AddPeer True (en_isIP en) (en_parse en) (en_links en) (peer_field peer ''url'') (peer_field peer ''interface'') c of
        (Some e, c) \<Rightarrow> (Some e, c)
      | (None, c) \<Rightarrow> post_loop en peers c)"

text \<open>\<open>doPostPeers\<close>: whether it failed, beside the peers of the body, which are in the request.\<close>

definition doPostPeers :: "'l peer_env \<Rightarrow> request \<Rightarrow> rest_state \<times> response \<Rightarrow> bool \<times> rest_state \<times> response" where
  "doPostPeers en r = (\<lambda>(st, w).
     case rq_decode_error r of Some e \<Rightarrow> (True, st, http_Error e 400 w)
     | None \<Rightarrow>
         (case post_loop en (rq_peers r) (st_core st) of
            (Some e, c) \<Rightarrow> (True, st\<lparr>st_core := c\<rparr>, http_Error (en_text en e) 400 w)
          | (None, c) \<Rightarrow> (False, st\<lparr>st_core := c\<rparr>, w)))"

text \<open>\<open>RemovePeers\<close> returns no error; \<open>sched\<close> is how the links actor is scheduled meanwhile.\<close>

definition doDeletePeers :: "nat list \<Rightarrow> rest_state \<Rightarrow> linkInfo outcome list \<times> rest_state" where
  "doDeletePeers sched st = (case RemovePeers sched (st_core st) of (closes, c) \<Rightarrow> (closes, st\<lparr>st_core := c\<rparr>))"

definition postApiPeersHandler :: "'l peer_env \<Rightarrow> request \<Rightarrow> rest_state \<times> response \<Rightarrow> rest_state \<times> response" where
  "postApiPeersHandler en r s =
     (case doPostPeers en r s of (err, st, w) \<Rightarrow>
        if err then (savePeers (rq_peers r) r st, w) else (st, w))"

definition putApiPeersHandler ::
  "'l peer_env \<Rightarrow> nat list \<Rightarrow> request \<Rightarrow> rest_state \<times> response \<Rightarrow> linkInfo outcome list \<times> rest_state \<times> response" where
  "putApiPeersHandler en sched r = (\<lambda>(st, w).
     case doDeletePeers sched st of (closes, st) \<Rightarrow>
       (closes, case doPostPeers en r (st, w) of (err, st, w) \<Rightarrow>
          if err then (st, w) else (savePeers (rq_peers r) r st, WriteHeader 204 w)))"

definition deleteApiPeersHandler ::
  "nat list \<Rightarrow> request \<Rightarrow> rest_state \<times> response \<Rightarrow> linkInfo outcome list \<times> rest_state \<times> response" where
  "deleteApiPeersHandler sched r = (\<lambda>(st, w).
     case doDeletePeers sched st of (closes, st) \<Rightarrow> (closes, savePeers [] r st, WriteHeader 204 w))"

end
