(* ===== verification/Mesh_Main.thy ===== *)
theory Mesh_Main
  imports Tun Multicast_Props Rest_Peers
begin

text \<open>
  The program src/cmd/mesh/main.go: what its flags ask for, how it builds the node of a configuration
  out of the core, multicast, the TUN adapter and the REST server, and how it ends.  What the
  modules need of the system is passed on to them; the regular expressions of the configuration,
  the text of IP addresses and the encoders of a configuration are parameters.
\<close>

section \<open>Flags\<close>

definition log_levels :: "string list" where
  "log_levels = [''error'', ''warn'', ''info'', ''debug'', ''trace'']"

fun enable_upto :: "string \<Rightarrow> string list \<Rightarrow> string list" where
  "enable_upto loglevel [] = []"
| "enable_upto loglevel (l # ls) = l # (if l = loglevel then [] else enable_upto loglevel ls)"

text \<open>\<open>setLogLevel\<close>: the levels it enables.\<close>

definition setLogLevel :: "string \<Rightarrow> string list" where
  "setLogLevel loglevel =
     (let loglevel = map lower loglevel;
          loglevel = (if \<not> list_ex (\<lambda>l. l = loglevel) log_levels then ''info'' else loglevel)
      in enable_upto loglevel log_levels)"

record rivArgs =
  ar_genconf :: bool
  ar_useconf :: bool
  ar_normaliseconf :: bool
  ar_confjson :: bool
  ar_autoconf :: bool
  ar_ver :: bool
  ar_getaddr :: bool
  ar_getsnet :: bool
  ar_useconffile :: string
  ar_logto :: string
  ar_loglevel :: string
  ar_httpaddress :: string
  ar_wwwroot :: string

text \<open>How \<open>run\<close> ends before it has a node: the version, a configuration printed as JSON or HJSON, the usage, with
  an error when an address was asked for.  A configuration that cannot be loaded or printed panics.\<close>

datatype run_end = PrintedVersion | PrintedConfig string | PrintedUsage bool

text \<open>\<open>generated\<close> is \<open>GenerateConfig\<close>, \<open>read\<close> is \<open>ReadConfig\<close>, whose empty name is standard input.\<close>

definition run_config ::
  "NodeConfig \<Rightarrow> (string \<Rightarrow> NodeConfig option) \<Rightarrow> (bool \<Rightarrow> NodeConfig \<Rightarrow> string option) \<Rightarrow> (bool \<Rightarrow> string) \<Rightarrow> rivArgs
    \<Rightarrow> (run_end + NodeConfig) outcome" where
  "run_config generated read marshal genconf args =
     (if ar_ver args then Ret (Inl PrintedVersion)
      else if ar_autoconf args then Ret (Inr generated)
      else if ar_useconffile args \<noteq> '''' \<or> ar_useconf args
      then (case read (ar_useconffile args) of None \<Rightarrow> Panic
            | Some cfg \<Rightarrow>
                if ar_normaliseconf args
                then (case marshal (ar_confjson args) cfg of None \<Rightarrow> Panic | Some bs \<Rightarrow> Ret (Inl (PrintedConfig bs)))
                else Ret (Inr cfg))
      else if ar_genconf args then Ret (Inl (PrintedConfig (genconf (ar_confjson args))))
      else Ret (Inl (PrintedUsage (ar_getaddr args \<or> ar_getsnet args))))"

section \<open>Asking for the address\<close>

text \<open>\<open>getNodeKey\<close>: the public half of the private key; slicing a key of less than 32 bytes panics.\<close>

definition getNodeKey :: "NodeConfig \<Rightarrow> bytes option outcome" where
  "getNodeKey cfg =
     (case hex_decode (cfg_PrivateKey cfg) of None \<Rightarrow> Ret None
      | Some sk \<Rightarrow> if length sk < 32 then Panic else Ret (Some (go_copy (replicate 32 0) (drop 32 sk))))"

text \<open>A method of a core that may be nil: its receiver is read only after the length of the key was checked.\<close>

definition nil_core :: "(network_domain \<Rightarrow> bytes \<Rightarrow> bytes option outcome) \<Rightarrow> core option \<Rightarrow> bytes \<Rightarrow> bytes option outcome" where
  "nil_core f c key =
     (if length key \<noteq> 32 then Ret None
      else case c of None \<Rightarrow> Panic | Some c \<Rightarrow> f (cc_networkdomain (co_config c)) key)"

text \<open>What \<open>-address\<close> and \<open>-subnet\<close> print, if anything; the node's core has not been made yet.\<close>

definition run_query :: "rivArgs \<Rightarrow> core option \<Rightarrow> NodeConfig \<Rightarrow> bytes option outcome option" where
  "run_query args c cfg =
     (if ar_getaddr args
      then Some (bind_outcome (getNodeKey cfg) (\<lambda>key. case key of None \<Rightarrow> Ret None
        | Some key \<Rightarrow> bind_outcome (deref (nil_core AddrForKey c key)) (\<lambda>addr. Ret (Some addr))))
      else if ar_getsnet args
      then Some (bind_outcome (getNodeKey cfg) (\<lambda>key. case key of None \<Rightarrow> Ret None
        | Some key \<Rightarrow> bind_outcome (deref (nil_core SubnetForKey c key)) (\<lambda>snet. Ret (Some (snet @ replicate 8 0)))))
      else None)"

section \<open>The node\<close>

text \<open>The options of the core, multicast and the TUN adapter.  An allowed key that is not hexadecimal and a
  regular expression that does not compile panic.\<close>

definition peer_options :: "NodeConfig \<Rightarrow> setup_option list" where
  "peer_options cfg =
     map (\<lambda>peer. OptPeer \<lparr>pe_URI = peer, pe_SourceInterface = ''''\<rparr>) (cfg_Peers cfg)
     @ concat (map (\<lambda>(intf, peers). map (\<lambda>peer. OptPeer \<lparr>pe_URI = peer, pe_SourceInterface = intf\<rparr>) peers)
         (cfg_InterfacePeers cfg))"

definition allowed_options :: "NodeConfig \<Rightarrow> setup_option list outcome" where
  "allowed_options cfg = collect (map (\<lambda>allowed.
     case hex_decode allowed of None \<Rightarrow> Panic | Some k \<Rightarrow> Ret (OptAllowedPublicKey k)) (cfg_AllowedPublicKeys cfg))"

definition general_options :: "NodeConfig \<Rightarrow> setup_option list" where
  "general_options cfg = [OptNodeInfo (cfg_NodeInfo cfg), OptNodeInfoPrivacy (cfg_NodeInfoPrivacy cfg),
     OptNetworkDomain (cfg_NetworkDomain cfg)]"

definition core_options :: "NodeConfig \<Rightarrow> setup_option list outcome" where
  "core_options cfg = bind_outcome (allowed_options cfg) (\<lambda>allowed.
     Ret (general_options cfg @ map OptListenAddress (cfg_Listen cfg) @ peer_options cfg @ allowed))"

text \<open>The functions that \<open>core.New\<close> is given, and whether its encryption layer could be set up.\<close>

record new_env =
  ne_marshal :: "(string \<rightharpoonup> json) \<Rightarrow> bytes option"
  ne_build :: "string \<Rightarrow> string"
  ne_parse :: "string \<Rightarrow> url option"
  ne_sctp :: bool
  ne_encryption :: bool
  ne_now :: nat

definition new_core :: "new_env \<Rightarrow> setup_option list outcome \<Rightarrow> NodeConfig \<Rightarrow> (core \<times> listener_start list) outcome" where
  "new_core ne options cfg =
     (case hex_decode (cfg_PrivateKey cfg) of None \<Rightarrow> Panic
      | Some sk \<Rightarrow> bind_outcome options (\<lambda>opts.
          case New (ne_marshal ne) (ne_build ne) (ne_parse ne) (ne_sctp ne) (ne_encryption ne) (ne_now ne) sk opts of
            Inl e \<Rightarrow> Panic | Inr c \<Rightarrow> Ret c))"

definition setup_core :: "new_env \<Rightarrow> NodeConfig \<Rightarrow> (core \<times> listener_start list) outcome" where
  "setup_core ne cfg = new_core ne (core_options cfg) cfg"

definition multicast_options :: "(string \<Rightarrow> (string \<Rightarrow> bool) option) \<Rightarrow> NodeConfig \<Rightarrow> multicast_option list outcome" where
  "multicast_options compile cfg = collect (map (\<lambda>intf.
     case compile (mic_Regex intf) of None \<Rightarrow> Panic
     | Some regex \<Rightarrow> Ret (OptInterface \<lparr>mi_Regex = regex, mi_Beacon = mic_Beacon intf, mi_Listen = mic_Listen intf,
         mi_Port = mic_Port intf, mi_Priority = mic_Priority intf mod 256\<rparr>)) (cfg_MulticastInterfaces cfg))"

definition tun_options :: "NodeConfig \<Rightarrow> tun_option list" where
  "tun_options cfg = [InterfaceName (cfg_IfName cfg), InterfaceMTU (of_nat (cfg_IfMTU cfg))]"

text \<open>\<open>strings.Replace\<close> of the first place.\<close>

fun replace_first :: "string \<Rightarrow> string \<Rightarrow> string \<Rightarrow> string" where
  "replace_first old new [] = (if old = [] then new else [])"
| "replace_first old new (c # s) =
     (if HasPrefix (c # s) old then new @ drop (length old) (c # s) else c # replace_first old new s)"

definition rest_config :: "(bytes \<Rightarrow> string) \<Rightarrow> rivArgs \<Rightarrow> bytes \<Rightarrow> NodeConfig \<Rightarrow> NodeConfig" where
  "rest_config show_ip args address cfg =
     (let cfg = (if length (cfg_HttpAddress cfg) = 0 then cfg\<lparr>cfg_HttpAddress := ar_httpaddress args\<rparr> else cfg);
          cfg = (if length (cfg_WwwRoot cfg) = 0 then cfg\<lparr>cfg_WwwRoot := ar_wwwroot args\<rparr> else cfg)
      in cfg\<lparr>cfg_HttpAddress := replace_first ''<tun>'' (''['' @ show_ip address @ '']'') (cfg_HttpAddress cfg)\<rparr>)"

record mesh_node =
  nd_core :: core
  nd_multicast :: multicast
  nd_tun :: tun_adapter
  nd_rest :: "rest_server option"

text \<open>The system: the group address and the socket of multicast, the TUN device, the largest MTU of a session and
  whether the session layer takes the out-of-band handler, the URL of the REST server and where its documents are.\<close>

record mesh_system =
  sy_compile :: "string \<Rightarrow> (string \<Rightarrow> bool) option"
  sy_resolve :: "string \<Rightarrow> bool"
  sy_socket :: bool
  sy_device :: tun_device
  sy_maxMTU :: "64 word"
  sy_oobSet :: bool
  sy_show_ip :: "bytes \<Rightarrow> string"
  sy_url_ok :: "string \<Rightarrow> bool"
  sy_docs :: "string \<Rightarrow> doc_fs"

text \<open>The REST server is served once it was made; without it the error is logged.\<close>

definition setup_rest :: "mesh_system \<Rightarrow> NodeConfig \<Rightarrow> rest_server option" where
  "setup_rest sy cfg =
     (case NewRestServer (sy_url_ok sy (cfg_HttpAddress cfg)) (sy_docs sy (cfg_WwwRoot cfg)) (cfg_HttpAddress cfg) of
        Inl _ \<Rightarrow> None | Inr a \<Rightarrow> Some (Serve a))"

text \<open>The node of a configuration; a multicast module that does not start is kept, a TUN adapter that does not
  start panics.\<close>

definition run_node :: "new_env \<Rightarrow> mesh_system \<Rightarrow> rivArgs \<Rightarrow> NodeConfig \<Rightarrow> mesh_node outcome" where
  "run_node ne sy args cfg =
     bind_outcome (setup_core ne cfg) (\<lambda>(c, _).
     bind_outcome (multicast_options (sy_compile sy) cfg) (\<lambda>opts.
     let m = snd (multicast_New (sy_resolve sy) (sy_socket sy) opts)
     in bind_outcome (tun_New (cc_networkdomain (co_config c)) (sy_oobSet sy) (sy_device sy) (sy_maxMTU sy) (co_public c)
             (tun_options cfg))
          (\<lambda>(r, t). if r \<noteq> TunStarted \<and> r \<noteq> TunDisabled then Panic
        else bind_outcome (core_Address c) (\<lambda>address.
             bind_outcome (core_Subnet c) (\<lambda>subnet.
               Ret \<lparr>nd_core = c, nd_multicast = m, nd_tun = t,
                    nd_rest = setup_rest sy (rest_config (sy_show_ip sy) args address cfg)\<rparr>)))))"

text \<open>The end, after the signal: the modules are stopped in this order; the method of a REST server that is nil
  dereferences it.  The result is the node and whether the last call panicked.\<close>

definition run_stop :: "mesh_node \<Rightarrow> mesh_node \<times> unit outcome" where
  "run_stop n =
     (let n = n\<lparr>nd_multicast := multicast_stop (nd_multicast n)\<rparr>;
          n = n\<lparr>nd_tun := tun_stop (nd_tun n)\<rparr>;
          n = n\<lparr>nd_core := core_close (nd_core n)\<rparr>
      in (n, case nd_rest n of None \<Rightarrow> Panic | Some a \<Rightarrow> Ret ()))"

end
