(* ===== verification/Mesh_Run.thy ===== *)
theory Mesh_Run
  imports Mesh_Main
begin

text \<open>
  The whole of \<open>run\<close> in src/cmd/mesh/main.go over the parts of Mesh_Main: the flags with their defaults, where
  it logs to, and how the process ends when something panics.  Also what is only built on request: the
  profiler of src/core/debug.go, and the loggers of contrib/mobile.
\<close>

section \<open>Flags and log\<close>

text \<open>The flags that were given, by name; the rest have defaults.\<close>

definition getArgs :: "(string \<Rightarrow> bool option) \<Rightarrow> (string \<Rightarrow> string option) \<Rightarrow> rivArgs" where
  "getArgs bools strings =
     (let bool = (\<lambda>name. case bools name of Some b \<Rightarrow> b | None \<Rightarrow> False);
          str = (\<lambda>name value. case strings name of Some s \<Rightarrow> s | None \<Rightarrow> value)
      in \<lparr>ar_genconf = bool ''genconf'', ar_useconf = bool ''useconf'', ar_normaliseconf = bool ''normaliseconf'',
          ar_confjson = bool ''json'', ar_autoconf = bool ''autoconf'', ar_ver = bool ''version'',
          ar_getaddr = bool ''address'', ar_getsnet = bool ''subnet'', ar_useconffile = str ''useconffile'' '''',
          ar_logto = str ''logto'' ''stdout'', ar_loglevel = str ''loglevel'' ''info'',
          ar_httpaddress = str ''httpaddress'' '''', ar_wwwroot = str ''wwwroot'' ''''\<rparr>)"

datatype log_target = LogStdout | LogSyslog | LogFile string

text \<open>Where the log goes, and whether there is a warning that it goes to stdout instead.\<close>

definition run_logger :: "bool \<Rightarrow> (string \<Rightarrow> bool) \<Rightarrow> string \<Rightarrow> log_target \<times> bool" where
  "run_logger syslog_ok open_ok logto =
     (let logger = (if logto = ''stdout'' then Some LogStdout
                    else if logto = ''syslog'' then (if syslog_ok then Some LogSyslog else None)
                    else if open_ok logto then Some (LogFile logto) else None)
      in case logger of Some l \<Rightarrow> (l, False) | None \<Rightarrow> (LogStdout, True))"

definition run_loglevel :: "rivArgs \<Rightarrow> string list" where
  "run_loglevel args = setLogLevel (if ar_normaliseconf args then ''error'' else ar_loglevel args)"

section \<open>The run\<close>

datatype run_result = RunEnded run_end | RunQueried "bytes option" | RunStopped mesh_node

text \<open>From the configuration to the end after the signal; the core of the node is nil when an address is asked for.\<close>

definition run_body ::
  "new_env \<Rightarrow> mesh_system \<Rightarrow> NodeConfig \<Rightarrow> (string \<Rightarrow> NodeConfig option) \<Rightarrow> (bool \<Rightarrow> NodeConfig \<Rightarrow> string option)
    \<Rightarrow> (bool \<Rightarrow> string) \<Rightarrow> rivArgs \<Rightarrow> run_result outcome" where
  "run_body ne sy generated read marshal genconf args =
     bind_outcome (run_config generated read marshal genconf args) (\<lambda>r.
       case r of Inl e \<Rightarrow> Ret (RunEnded e)
       | Inr cfg \<Rightarrow>
           (case run_query args None cfg of
              Some a \<Rightarrow> bind_outcome a (\<lambda>a. Ret (RunQueried a))
            | None \<Rightarrow> bind_outcome (run_node ne sy args cfg) (\<lambda>n.
                (case run_stop n of (n, out) \<Rightarrow> bind_outcome out (\<lambda>_. Ret (RunStopped n))))))"

text \<open>A panic is recovered, and logged, only when the log is a file; then the process ends like after a run
  without one.\<close>

datatype process_end = Exited run_result | FatalLogged | Crashed

definition run_recover :: "log_target \<Rightarrow> run_result outcome \<Rightarrow> process_end" where
  "run_recover l r = (case r of Ret x \<Rightarrow> Exited x
     | Panic \<Rightarrow> (case l of LogFile _ \<Rightarrow> FatalLogged | _ \<Rightarrow> Crashed))"

definition mesh_run ::
  "bool \<Rightarrow> (string \<Rightarrow> bool) \<Rightarrow> new_env \<Rightarrow> mesh_system \<Rightarrow> NodeConfig \<Rightarrow> (string \<Rightarrow> NodeConfig option)
    \<Rightarrow> (bool \<Rightarrow> NodeConfig \<Rightarrow> string option) \<Rightarrow> (bool \<Rightarrow> string) \<Rightarrow> rivArgs \<Rightarrow> process_end" where
  "mesh_run syslog_ok open_ok ne sy generated read marshal genconf args =
     run_recover (fst (run_logger syslog_ok open_ok (ar_logto args))) (run_body ne sy generated read marshal genconf args)"

text \<open>The exit status that the system sees.\<close>

definition exit_status :: "process_end \<Rightarrow> nat" where
  "exit_status e = (case e of Crashed \<Rightarrow> 2 | _ \<Rightarrow> 0)"

section \<open>The profiler\<close>

text \<open>What a debug build listens on when it starts, given \<open>PPROFLISTEN\<close>, and when it is asked to.\<close>

definition profiler_init :: "string \<Rightarrow> string option" where
  "profiler_init hostPort = (if hostPort = '''' then None else Some hostPort)"

definition StartProfiler :: "nat \<times> string" where
  "StartProfiler = (1, ''localhost:6060'')"

section \<open>Mobile loggers\<close>

text \<open>\<open>Write\<close>: the count it returns and what is logged.  On iOS the text becomes a C string, up to its first zero byte.\<close>

definition logger_Write_android :: "bytes \<Rightarrow> nat \<times> bytes" where
  "logger_Write_android p = (length p, p)"

definition logger_Write_ios :: "bytes \<Rightarrow> nat \<times> bytes" where
  "logger_Write_ios p = (let p = p @ [0] in (length p, takeWhile (\<lambda>b. b \<noteq> 0) p))"

definition logger_Write_other :: "bytes \<Rightarrow> nat \<times> bytes" where
  "logger_Write_other p = (length p, p)"

section \<open>How a run ends\<close>

text \<open>A writer returns the number of bytes it was given at most; the one of iOS always returns more.\<close>

lemma logger_counts:
  "fst (logger_Write_android p) = length p" "fst (logger_Write_other p) = length p" "fst (logger_Write_ios p) = length p + 1"
  by (simp_all add: logger_Write_android_def logger_Write_other_def logger_Write_ios_def Let_def)

lemma run_logger_file: "(\<exists>f. fst (run_logger syslog_ok open_ok logto) = LogFile f) \<longleftrightarrow>
    logto \<noteq> ''stdout'' \<and> logto \<noteq> ''syslog'' \<and> open_ok logto"
  by (auto simp: run_logger_def Let_def)

text \<open>With a log file a run never crashes: a fatal error ends it with the status of success.\<close>

lemma mesh_run_crashes_iff:
  "mesh_run syslog_ok open_ok ne sy generated read marshal genconf args = Crashed \<longleftrightarrow>
    run_body ne sy generated read marshal genconf args = Panic
    \<and> (ar_logto args = ''stdout'' \<or> ar_logto args = ''syslog'' \<or> \<not> open_ok (ar_logto args))"
  using run_logger_file [of syslog_ok open_ok "ar_logto args"]
  by (auto simp: mesh_run_def run_recover_def split: outcome.splits log_target.splits)

lemma file_log_hides_failure:
  assumes "ar_logto args \<noteq> ''stdout''" "ar_logto args \<noteq> ''syslog''" "open_ok (ar_logto args)"
  shows "exit_status (mesh_run syslog_ok open_ok ne sy generated read marshal genconf args) = 0"
  using mesh_run_crashes_iff [of syslog_ok open_ok ne sy generated read marshal genconf args] assms
  by (auto simp: exit_status_def split: process_end.splits)

text \<open>Without flags only the usage is printed, and the log goes to stdout.\<close>

lemma default_run: "mesh_run syslog_ok open_ok ne sy generated read marshal genconf (getArgs (\<lambda>_. None) (\<lambda>_. None)) =
    Exited (RunEnded (PrintedUsage False))"
  by (simp add: mesh_run_def run_body_def run_config_def getArgs_def run_recover_def Let_def)

end
