(* ===== verification/Rest_Events.thy ===== *)
theory Rest_Events
  imports Rest_Peers Systems Dialer
begin

text \<open>
  The rest of src/restapi/rest_server.go: questions to remote nodes, the public peer list, the node info,
  the health check, and the queue of server events that clients poll.  The answers of the network,
  the clock and the parsers are parameters.
\<close>

section \<open>Remote nodes\<close>

datatype remote_error = ErrTimeout | RemoteError string

definition applyKeyParameterized ::
  "(json \<Rightarrow> string) \<Rightarrow> (string \<Rightarrow> remote_error + json) \<Rightarrow> request \<Rightarrow> response \<Rightarrow> response" where
  "applyKeyParameterized tableprinter fn r w =
     (let cnt = Split (CHR ''/'') (rq_Path r)
      in if length cnt \<noteq> 5 \<or> cnt ! 4 = '''' then http_Error ''No remote public key supplied'' 400 w
         else (case fn (cnt ! 4) of
                 Inr result \<Rightarrow> WriteJson tableprinter r result w
               | Inl ErrTimeout \<Rightarrow> http_Error ''Node inaccessible'' 502 w
               | Inl (RemoteError e) \<Rightarrow> http_Error e 400 w))"

text \<open>The four handlers differ in the question.\<close>

record remote_calls =
  rc_GetNodeInfo :: "string \<Rightarrow> remote_error + json"
  rc_RemoteGetSelf :: "string \<Rightarrow> remote_error + json"
  rc_RemoteGetPeers :: "string \<Rightarrow> remote_error + json"
  rc_RemoteGetDHT :: "string \<Rightarrow> remote_error + json"

definition getApiRemoteNodeinfoHandler :: "(json \<Rightarrow> string) \<Rightarrow> remote_calls \<Rightarrow> request \<Rightarrow> response \<Rightarrow> response" where
  "getApiRemoteNodeinfoHandler tableprinter rc = applyKeyParameterized tableprinter (rc_GetNodeInfo rc)"

definition getApiRemoteSelfHandler :: "(json \<Rightarrow> string) \<Rightarrow> remote_calls \<Rightarrow> request \<Rightarrow> response \<Rightarrow> response" where
  "getApiRemoteSelfHandler tableprinter rc = applyKeyParameterized tableprinter (rc_RemoteGetSelf rc)"

definition getApiRemotePeersHandler :: "(json \<Rightarrow> string) \<Rightarrow> remote_calls \<Rightarrow> request \<Rightarrow> response \<Rightarrow> response" where
  "getApiRemotePeersHandler tableprinter rc = applyKeyParameterized tableprinter (rc_RemoteGetPeers rc)"

definition getApiRemoteDHTHandler :: "(json \<Rightarrow> string) \<Rightarrow> remote_calls \<Rightarrow> request \<Rightarrow> response \<Rightarrow> response" where
  "getApiRemoteDHTHandler tableprinter rc = applyKeyParameterized tableprinter (rc_RemoteGetDHT rc)"

section \<open>Public peers and node info\<close>

text \<open>What an HTTP request for the list comes to: an error, or a status and a body that may fail to read.\<close>

definition getApiPublicPeersHandler ::
  "(nat \<Rightarrow> string) \<Rightarrow> (string \<Rightarrow> (nat \<times> string option) option) \<Rightarrow> NodeConfig option \<Rightarrow> response \<Rightarrow> response" where
  "getApiPublicPeersHandler StatusText http_get config w =
     (case config of None \<Rightarrow> http_Error ''Error read public peers url'' 500 w
      | Some cfg \<Rightarrow>
          (case http_get (cfg_PublicPeersUrl cfg) of
             None \<Rightarrow> http_Error ''Error read public peers url'' 500 w
           | Some (code, body) \<Rightarrow>
               if code > 200 then WriteError StatusText code w
               else (case body of None \<Rightarrow> http_Error ''Error read public peers url'' 500 w
                     | Some result \<Rightarrow>
                         write_body result (header_Add ''Content-Type'' ''application/json; charset=utf-8'' w))))"

text \<open>The error of \<open>SetThisNodeInfo\<close> is dropped, and the configuration saved in any case.\<close>

definition putApiNodeinfoHandler ::
  "((string \<rightharpoonup> json) \<Rightarrow> bytes option) \<Rightarrow> (string \<Rightarrow> string) \<Rightarrow> request \<Rightarrow> rest_state \<times> response \<Rightarrow> rest_state \<times> response" where
  "putApiNodeinfoHandler marshal build r = (\<lambda>(st, w).
     case rq_decode_error r of Some e \<Rightarrow> (st, http_Error e 400 w)
     | None \<Rightarrow>
         (let st = st\<lparr>st_core := snd (SetThisNodeInfo marshal build (rq_info r) (st_core st))\<rparr>
          in (saveConfig (\<lambda>cfg. cfg\<lparr>cfg_NodeInfo := rq_info r\<rparr>) r st, WriteHeader 204 w)))"

section \<open>Health\<close>

text \<open>The check of one peer: parsing its URL, resolving its host, the country, and a connection in so many
  milliseconds or an error.  The port is used when it is a number.\<close>

record health_env =
  he_parse :: "string \<Rightarrow> string + string \<times> string"
  he_resolve :: "string \<Rightarrow> string + bytes"
  he_dial :: "string \<Rightarrow> string + nat"

definition Atoi_ok :: "string \<Rightarrow> bool" where
  "Atoi_ok s = (let digits = (if s \<noteq> [] \<and> (hd s = CHR ''-'' \<or> hd s = CHR ''+'') then tl s else s)
     in digits \<noteq> [] \<and> (case parse_digits 0 digits of None \<Rightarrow> False
        | Some n \<Rightarrow> if hd s = CHR ''-'' then n \<le> 2 ^ 63 else n < 2 ^ 63))"

definition testOneHealth ::
  "health_env \<Rightarrow> (bytes \<Rightarrow> string) \<Rightarrow> (string \<Rightarrow> (string \<times> string) option) option \<Rightarrow> string \<Rightarrow> (string \<times> json) list" where
  "testOneHealth he show_ip db peer =
     (let result = [(''peer'', JString peer)]
      in case he_parse he peer of Inl e \<Rightarrow> result @ [(''error'', JString e)]
         | Inr (host, port) \<Rightarrow>
             (case he_resolve he host of Inl e \<Rightarrow> result @ [(''error'', JString e)]
              | Inr ip \<Rightarrow>
                  (let address = show_ip ip;
                       result = result @ [(''remote_ip'', JString address),
                         (''country_short'', JString (fst (getCountry db address))),
                         (''country_long'', JString (snd (getCountry db address)))];
                       address = (if Atoi_ok port
                         then TCPAddr_String show_ip \<lparr>ta_IP = ip, ta_Port = nat (Atoi_value port), ta_Zone = ''''\<rparr>
                         else address)
                   in (case he_dial he address of Inl e \<Rightarrow> result @ [(''error'', JString e)]
                       | Inr ms \<Rightarrow> result @ [(''ping'', JNat ms)]))))"

definition postApiHealthHandler :: "request \<Rightarrow> string list \<Rightarrow> response \<Rightarrow> string list \<times> response" where
  "postApiHealthHandler r peer_list w =
     (case rq_decode_error r of Some e \<Rightarrow> ([], http_Error e 400 w) | None \<Rightarrow> (peer_list, WriteHeader 202 w))"

section \<open>Server events\<close>

text \<open>The channel holds ten events; a goroutine that sends to a full channel waits.  The timer is armed or
  has fired.\<close>

type_synonym event = "string \<times> string"

record sse_state =
  sv_events :: "event list"
  sv_waiting :: "event list"
  sv_nextId :: nat
  sv_timer :: "bool option"

definition sse_init :: sse_state where
  "sse_init = \<lparr>sv_events = [], sv_waiting = [], sv_nextId = 0, sv_timer = None\<rparr>"

text \<open>The signal that peers have changed gives up when the channel is full; the other senders wait.\<close>

definition sse_offer :: "event \<Rightarrow> sse_state \<Rightarrow> sse_state" where
  "sse_offer e s = (if length (sv_events s) < 10 then s\<lparr>sv_events := sv_events s @ [e]\<rparr> else s)"

definition sse_send :: "event \<Rightarrow> sse_state \<Rightarrow> sse_state" where
  "sse_send e s = (if length (sv_events s) < 10 then s\<lparr>sv_events := sv_events s @ [e]\<rparr>
     else s\<lparr>sv_waiting := sv_waiting s @ [e]\<rparr>)"

text \<open>The events that the other goroutines send.  Each check of a peer runs in a goroutine of its own, and sends one;
  \<open>sendSseUpdate\<close> sends the byte counts and then the coordinates.\<close>

definition testAllHealth ::
  "health_env \<Rightarrow> (bytes \<Rightarrow> string) \<Rightarrow> (string \<Rightarrow> (string \<times> string) option) option \<Rightarrow> string list \<Rightarrow> event list" where
  "testAllHealth he show_ip db peers =
     map (\<lambda>u. (''health'', json_text (json_map (testOneHealth he show_ip db u)))) peers"

definition sendSseUpdate :: "64 word \<times> 64 word \<Rightarrow> nat list \<Rightarrow> event list" where
  "sendSseUpdate rxtx coords =
     [(''rxtx'', ''[{'' @ json_string ''bytes_recvd'' @ '':'' @ show_nat (unat (fst rxtx))
        @ '','' @ json_string ''bytes_sent'' @ '':'' @ show_nat (unat (snd rxtx)) @ ''}]''),
      (''coord'', json_text (JArray (map JNat coords)))]"

text \<open>A receive takes the oldest event and lets the first waiting sender in.\<close>

definition sse_receive :: "sse_state \<Rightarrow> (event \<times> sse_state) option" where
  "sse_receive s = (case sv_events s of [] \<Rightarrow> None
     | e # es \<Rightarrow> Some (e, (case sv_waiting s of [] \<Rightarrow> s\<lparr>sv_events := es\<rparr>
         | x # xs \<Rightarrow> s\<lparr>sv_events := es @ [x], sv_waiting := xs\<rparr>)))"

definition event_text :: "nat \<Rightarrow> event \<Rightarrow> string" where
  "event_text i e = ''id: '' @ show_nat i @ [CHR 0x0A] @ ''event: '' @ fst e @ [CHR 0x0A]
     @ ''data: '' @ snd e @ [CHR 0x0A] @ [CHR 0x0A]"

text \<open>A poll of a client runs in a goroutine of the HTTP server, beside other polls, and nothing guards the next id
  and the timer that they share.  So a poll goes in steps, one for each access to what is shared: it takes an
  event off the channel, reads the next id and prints the event under it, reads the id again and stores its
  successor; when the channel is empty it looks at the timer, and makes one if it saw none.\<close>

datatype poll_pc = PollLoop | PollPrint event | PollAdd | PollStore nat | PollTimer | PollNewTimer | PollDone

record poll =
  po_pc :: poll_pc
  po_w :: response
  po_out :: "(nat \<times> event) list"
  po_update :: bool

text \<open>\<open>getApiSseHandler\<close>: its start, and its steps; \<open>po_out\<close> are the events it has printed with their ids, and
  \<open>po_update\<close> says whether it has started \<open>sendSseUpdate\<close>.\<close>

definition getApiSseHandler :: "response \<Rightarrow> poll" where
  "getApiSseHandler w =
     \<lparr>po_pc = PollLoop, po_w = header_Add ''Content-Type'' ''text/event-stream'' w, po_out = [], po_update = False\<rparr>"

definition poll_step :: "poll \<Rightarrow> sse_state \<Rightarrow> poll \<times> sse_state" where
  "poll_step p s =
     (case po_pc p of
        PollLoop \<Rightarrow> (case sse_receive s of None \<Rightarrow> (p\<lparr>po_pc := PollTimer\<rparr>, s)
                     | Some (v, s) \<Rightarrow> (p\<lparr>po_pc := PollPrint v\<rparr>, s))
      | PollPrint v \<Rightarrow>
          (p\<lparr>po_pc := PollAdd, po_w := write_body (event_text (sv_nextId s) v) (po_w p),
             po_out := po_out p @ [(sv_nextId s, v)]\<rparr>, s)
      | PollAdd \<Rightarrow> (p\<lparr>po_pc := PollStore (sv_nextId s)\<rparr>, s)
      | PollStore n \<Rightarrow> (p\<lparr>po_pc := PollLoop\<rparr>, s\<lparr>sv_nextId := n + 1\<rparr>)
      | PollTimer \<Rightarrow> (case sv_timer s of None \<Rightarrow> (p\<lparr>po_pc := PollNewTimer\<rparr>, s)
                      | Some fired \<Rightarrow>
                          if fired then (p\<lparr>po_pc := PollDone, po_update := True\<rparr>, s\<lparr>sv_timer := Some False\<rparr>)
                          else (p\<lparr>po_pc := PollDone\<rparr>, s))
      | PollNewTimer \<Rightarrow> (p\<lparr>po_pc := PollDone\<rparr>, s\<lparr>sv_timer := Some False\<rparr>)
      | PollDone \<Rightarrow> (p, s))"

end
