(* ===== verification/Rest_Props.thy ===== *)
theory Rest_Props
  imports Rest_Events "HOL-Library.Multiset"
begin

text \<open>
  What the handlers of the REST server keep: the order of the reports, the agreement of the node and its
  configuration file after a change, and the order of the events.
\<close>

section \<open>Saving peers\<close>

definition saves :: "request \<Rightarrow> rest_state \<Rightarrow> bool" where
  "saves r st \<longleftrightarrow> st_ConfigFn st \<noteq> '''' \<and> (\<exists>hs. rq_save r = ''true'' # hs) \<and> st_file st \<noteq> None \<and> st_writable st"

lemma saveConfig_eq:
  "saveConfig f r st = (if saves r st then st\<lparr>st_file := Some (f (the (st_file st)))\<rparr> else st)"
  by (auto simp: saveConfig_def saves_def split: list.splits option.splits)

text \<open>The peers of a list without an interface, and those with a given one.\<close>

definition urls_on :: "string \<Rightarrow> (string \<rightharpoonup> string) list \<Rightarrow> string list" where
  "urls_on i peers = map (\<lambda>p. peer_field p ''url'') (filter (\<lambda>p. peer_field p ''interface'' = i) peers)"

lemma urls_on_Cons:
  "urls_on i (p # peers) = (if peer_field p ''interface'' = i then [peer_field p ''url''] else []) @ urls_on i peers"
  by (simp add: urls_on_def)

lemma urls_on_Nil [simp]: "urls_on i [] = []"
  by (simp add: urls_on_def)

lemma save_peer_Peers:
  "cfg_Peers (save_peer p cfg) = cfg_Peers cfg @ (if peer_field p ''interface'' = '''' then [peer_field p ''url''] else [])"
  by (simp add: save_peer_def Let_def)

lemma save_peer_Interface:
  "i \<noteq> '''' \<Longrightarrow> map_of (cfg_InterfacePeers (save_peer p cfg)) i =
     (if peer_field p ''interface'' = i
      then Some ((case map_of (cfg_InterfacePeers cfg) i of None \<Rightarrow> [] | Some us \<Rightarrow> us) @ [peer_field p ''url''])
      else map_of (cfg_InterfacePeers cfg) i)"
  by (auto simp: save_peer_def Let_def update_conv')

lemma fold_save_peer:
  "cfg_Peers (fold save_peer peers cfg) = cfg_Peers cfg @ urls_on '''' peers"
  by (induction peers arbitrary: cfg) (simp_all add: save_peer_Peers urls_on_Cons)

lemma fold_save_interface:
  "i \<noteq> '''' \<Longrightarrow> map_of (cfg_InterfacePeers (fold save_peer peers cfg)) i =
     (case map_of (cfg_InterfacePeers cfg) i of
        None \<Rightarrow> if urls_on i peers = [] then None else Some (urls_on i peers)
      | Some us \<Rightarrow> Some (us @ urls_on i peers))"
proof (induction peers arbitrary: cfg)
  case (Cons p peers)
  show ?case
    by (simp add: Cons.IH [OF Cons.prems] save_peer_Interface [OF Cons.prems] urls_on_Cons split: option.splits)
qed (simp split: option.splits)

lemma file_fields: "cfg_Peers (cfg\<lparr>cfg_Peers := a, cfg_InterfacePeers := b\<rparr>) = a"
  "cfg_InterfacePeers (cfg\<lparr>cfg_Peers := a, cfg_InterfacePeers := b\<rparr>) = b" by simp_all

definition file_has :: "(string \<rightharpoonup> string) list \<Rightarrow> rest_state \<Rightarrow> bool" where
  "file_has peers st \<longleftrightarrow> (\<exists>cfg. st_file st = Some cfg \<and> cfg_Peers cfg = urls_on '''' peers
     \<and> (\<forall>i. i \<noteq> '''' \<longrightarrow> map_of (cfg_InterfacePeers cfg) i =
          (if urls_on i peers = [] then None else Some (urls_on i peers))))"

lemma savePeers_file: "saves r st \<Longrightarrow> file_has peers (savePeers peers r st)"
  by (simp add: savePeers_def saveConfig_eq file_has_def fold_save_peer fold_save_interface)

lemma savePeers_none: "\<not> saves r st \<Longrightarrow> savePeers peers r st = st"
  by (simp add: savePeers_def saveConfig_eq)

lemma saves_core [simp]: "saves r (st\<lparr>st_core := c\<rparr>) = saves r st"
  by (simp add: saves_def)

lemma savePeers_core [simp]: "st_core (savePeers peers r st) = st_core st"
  by (simp add: savePeers_def saveConfig_eq)

section \<open>Adding peers\<close>

definition peer_of :: "(string \<rightharpoonup> string) \<Rightarrow> Peer" where
  "peer_of p = \<lparr>pe_URI = peer_field p ''url'', pe_SourceInterface = peer_field p ''interface''\<rparr>"

lemma AddPeer_None:
  "AddPeer sctp isIP parse links uri sintf c = (None, c') \<Longrightarrow>
     map fst (cc_peers (co_config c')) = map fst (cc_peers (co_config c)) @ [\<lparr>pe_URI = uri, pe_SourceInterface = sintf\<rparr>]"
  by (auto simp: AddPeer_def Let_def update_fresh split: if_splits option.splits prod.splits call_result.splits)

lemma AddPeer_Some: "AddPeer sctp isIP parse links uri sintf c = (Some e, c') \<Longrightarrow> c' = c"
  by (auto simp: AddPeer_def Let_def split: if_splits option.splits prod.splits call_result.splits)

lemma post_loop_peers:
  "post_loop en peers c = (err, c') \<Longrightarrow>
     (\<exists>n. map fst (cc_peers (co_config c')) = map fst (cc_peers (co_config c)) @ map peer_of (take n peers)
        \<and> (err = None \<longrightarrow> n = length peers))"
proof (induction en peers c rule: post_loop.induct)
  case (2 en p peers c)
  obtain e1 c1 where a: "AddPeer True (en_isIP en) (en_parse en) (en_links en) (peer_field p ''url'')
      (peer_field p ''interface'') c = (e1, c1)" by fastforce
  show ?case
  proof (cases e1)
    case None
    with "2.prems" a have "post_loop en peers c1 = (err, c')" by simp
    from "2.IH" [OF a [symmetric] None this] obtain n where
      "map fst (cc_peers (co_config c')) = map fst (cc_peers (co_config c1)) @ map peer_of (take n peers)"
      "err = None \<longrightarrow> n = length peers" by blast
    then show ?thesis using AddPeer_None [OF a [unfolded None]]
      by (intro exI [of _ "Suc n"]) (simp add: peer_of_def)
  next
    case (Some e)
    then show ?thesis using "2.prems" a AddPeer_Some [OF a [unfolded Some]]
      by (intro exI [of _ 0]) auto
  qed
qed simp

text \<open>C13: what a PUT of peers leaves: if it succeeds (status 204) the node's peers are those of the request, in
  its order, and when saving was asked for and is possible the file lists the same peers, those
  without an interface and those of each interface; if it fails the node is left with a first part
  of them, its former peers are gone, and the file is as it was.\<close>

theorem put_peers:
  assumes "putApiPeersHandler en sched r (st, new_response) = (closes, st', w')"
  shows "(rw_status w' = Some 204 \<longrightarrow>
      map fst (cc_peers (co_config (st_core st'))) = map peer_of (rq_peers r)
      \<and> (if saves r st then file_has (rq_peers r) st' else st_file st' = st_file st))
    \<and> (rw_status w' \<noteq> Some 204 \<longrightarrow> rw_status w' = Some 400 \<and> st_file st' = st_file st
      \<and> (\<exists>n. map fst (cc_peers (co_config (st_core st'))) = map peer_of (take n (rq_peers r))))"
proof -
  define c0 where "c0 = (st_core st)\<lparr>co_config := (co_config (st_core st))\<lparr>cc_peers := []\<rparr>\<rparr>"
  have nil: "cc_peers (co_config c0) = []" by (simp add: c0_def)
  have st0: "snd (doDeletePeers sched st) = st\<lparr>st_core := c0\<rparr>"
    by (simp add: doDeletePeers_def RemovePeers_def c0_def)
  obtain err st1 w1 where p: "doPostPeers en r (st\<lparr>st_core := c0\<rparr>, new_response) = (err, st1, w1)"
    by (cases "doPostPeers en r (st\<lparr>st_core := c0\<rparr>, new_response)")
  have res: "(st', w') = (if err then (st1, w1) else (savePeers (rq_peers r) r st1, WriteHeader 204 w1))"
    using assms p st0 by (simp add: putApiPeersHandler_def case_prod_unfold split: if_splits)
  have unchanged: "st_file st1 = st_file st" "saves r st1 = saves r st"
    using p by (auto simp: doPostPeers_def split: option.splits prod.splits)
  have bad: "rw_status w1 = Some 400 \<and> (\<exists>n. map fst (cc_peers (co_config (st_core st1))) = map peer_of (take n (rq_peers r)))"
    if err
  proof (cases "rq_decode_error r")
    case (Some e)
    then show ?thesis using p nil
      by (auto simp: doPostPeers_def http_Error_def header_Set_def WriteHeader_def write_body_def new_response_def
          intro: exI [of _ 0])
  next
    case None
    obtain e c where l: "post_loop en (rq_peers r) c0 = (e, c)" by fastforce
    show ?thesis using p None l that post_loop_peers [OF l] nil
      by (auto simp: doPostPeers_def http_Error_def header_Set_def WriteHeader_def write_body_def new_response_def
          split: option.splits)
  qed
  have good: "w1 = new_response \<and> map fst (cc_peers (co_config (st_core st1))) = map peer_of (rq_peers r)"
    if "\<not> err"
  proof -
    have None: "rq_decode_error r = None" using p that by (auto simp: doPostPeers_def split: option.splits)
    obtain e c where l: "post_loop en (rq_peers r) c0 = (e, c)" by fastforce
    show ?thesis using p None l that post_loop_peers [OF l] nil
      by (auto simp: doPostPeers_def split: option.splits)
  qed
  show ?thesis
  proof (cases err)
    case True
    then show ?thesis using res bad unchanged by simp
  next
    case False
    then show ?thesis using res good unchanged savePeers_file [of r st1 "rq_peers r"] savePeers_none [of r st1 "rq_peers r"]
      by (auto simp: WriteHeader_def new_response_def)
  qed
qed

definition test_env :: "nat peer_env" where
  "test_env = \<lparr>en_isIP = (\<lambda>_. False), en_parse = (\<lambda>_. Some test_url), en_links = Map.empty, en_text = (\<lambda>_. '''')\<rparr>"

definition test_peer :: "string \<rightharpoonup> string" where
  "test_peer = [''url'' \<mapsto> ''tcp://h:1'']"

definition test_put :: request where
  "test_put = \<lparr>rq_Path = ''/api/peers'', rq_fmt = [], rq_save = [''true''], rq_decode_error = None,
     rq_peers = [test_peer], rq_info = Map.empty\<rparr>"

definition test_rest :: rest_state where
  "test_rest = \<lparr>st_core = test_empty, st_ConfigFn = ''mesh.conf'', st_file = Some zero_config, st_writable = True\<rparr>"

lemma test_post_loop: "fst (post_loop test_env [test_peer] test_empty) = None"
  by (simp add: test_env_def test_peer_def peer_field_def test_AddPeer)

lemma test_put_status:
  "rw_status (snd (snd (putApiPeersHandler test_env sched test_put (test_rest, new_response)))) = Some 204"
proof -
  have "st_core (snd (doDeletePeers sched test_rest)) = test_empty"
    by (simp add: doDeletePeers_def RemovePeers_def test_rest_def test_empty_def empty_config_def)
  then show ?thesis using test_post_loop
    by (simp add: putApiPeersHandler_def doPostPeers_def test_put_def case_prod_unfold WriteHeader_def new_response_def
        split: option.splits)
qed

theorem put_peers_witness:
  "file_has [test_peer] (fst (snd (putApiPeersHandler test_env [] test_put (test_rest, new_response))))"
proof -
  obtain closes st w where p: "putApiPeersHandler test_env [] test_put (test_rest, new_response) = (closes, st, w)"
    by (cases "putApiPeersHandler test_env [] test_put (test_rest, new_response)")
  have "rw_status w = Some 204" using test_put_status [of "[]"] p by simp
  then show ?thesis using put_peers [OF p] p by (simp add: saves_def test_put_def test_rest_def)
qed

text \<open>C40: a POST of peers saves the wrong way round: when it succeeds the file stays as it was, even if saving was
  asked for, and when it fails, also on a body that does not parse, the file's peers are replaced
  by those of the request.\<close>

theorem post_saves_failures:
  assumes "postApiPeersHandler en r (st, new_response) = (st', w')"
  shows "(rw_status w' = None \<longrightarrow> st_file st' = st_file st)
    \<and> (rw_status w' \<noteq> None \<longrightarrow> rw_status w' = Some 400 \<and> (saves r st \<longrightarrow> file_has (rq_peers r) st'))"
proof -
  obtain err st1 w1 where p: "doPostPeers en r (st, new_response) = (err, st1, w1)"
    by (cases "doPostPeers en r (st, new_response)")
  have s1: "st_file st1 = st_file st" "saves r st1 = saves r st" and "rw_status w1 = (if err then Some 400 else None)"
    using p by (auto simp: doPostPeers_def http_Error_def header_Set_def WriteHeader_def write_body_def new_response_def
        split: option.splits prod.splits)
  then show ?thesis using assms p savePeers_file [of r st1 "rq_peers r"]
    by (auto simp: postApiPeersHandler_def split: if_splits)
qed

definition test_bad :: request where
  "test_bad = test_put\<lparr>rq_decode_error := Some ''bad'', rq_peers := []\<rparr>"

theorem post_saves_failures_witness:
  "file_has [] (fst (postApiPeersHandler test_env test_bad (test_rest, new_response)))"
proof -
  obtain st w where p: "postApiPeersHandler test_env test_bad (test_rest, new_response) = (st, w)"
    by (cases "postApiPeersHandler test_env test_bad (test_rest, new_response)")
  then have "rw_status w = Some 400"
    by (auto simp: postApiPeersHandler_def doPostPeers_def test_bad_def http_Error_def header_Set_def WriteHeader_def
        write_body_def new_response_def)
  then show ?thesis using post_saves_failures [OF p] p by (simp add: saves_def test_bad_def test_put_def test_rest_def)
qed

section \<open>Sorted reports\<close>

lemma peer_less_key: "peer_less a b \<longleftrightarrow> peer_key a < peer_key b"
  by (auto simp: peer_less_def peer_key_def less_prod_def' less_bool_def)

text \<open>the peer report is the list of entries of all peers, sorted: no entry comes before one that the code's
  comparison puts first, and the sums of the traffic are those over all peers, modulo \<open>2 ^ 64\<close>.\<close>

theorem peer_report_sorted:
  assumes "prepareGetPeers nd show_ip db peers = Ret ps"
  shows "sorted_wrt (\<lambda>a b. \<not> peer_less b a) ps
    \<and> (\<exists>es. map (peer_entry_of nd show_ip db) peers = map Ret es \<and> mset ps = mset es)
    \<and> getPeersRxTxBytes peers = (\<Sum>p\<leftarrow>peers. pi_RXBytes p, \<Sum>p\<leftarrow>peers. pi_TXBytes p)"
proof -
  obtain es where es: "collect (map (peer_entry_of nd show_ip db) peers) = Ret es" and ps: "ps = sort_key peer_key es"
    using assms by (auto simp: prepareGetPeers_def go_simps)
  have "sorted_wrt (\<lambda>a b. peer_key a \<le> peer_key b) ps"
    using sorted_sort_key [of peer_key es] by (simp add: ps sorted_map)
  then have "sorted_wrt (\<lambda>a b. \<not> peer_less b a) ps"
    by (rule sorted_wrt_mono_rel [rotated]) (simp add: peer_less_key not_less)
  moreover have "fold (\<lambda>p (rx, tx). (rx + pi_RXBytes p, tx + pi_TXBytes p)) peers (a, b) =
      (a + (\<Sum>p\<leftarrow>peers. pi_RXBytes p), b + (\<Sum>p\<leftarrow>peers. pi_TXBytes p))" for a b
    by (induction peers arbitrary: a b) (simp_all add: ac_simps)
  ultimately show ?thesis using collect_eq_Ret [OF es]
    by (auto simp: ps getPeersRxTxBytes_def intro!: exI [of _ es])
qed

section \<open>Events\<close>

text \<open>Runs: the shared state and the polls, with what has happened: the events that were accepted, those that left the
  channel and the poll that took them, the ids in the order of printing, and whether a poll began before
  all earlier ones had ended.\<close>

record sse_run =
  sr_state :: sse_state
  sr_polls :: "nat \<Rightarrow> poll"
  sr_n :: nat
  sr_acc :: "event list"
  sr_recv :: "(nat \<times> event) list"
  sr_ids :: "nat list"
  sr_overlap :: bool

definition poll_takes :: "nat \<Rightarrow> poll \<Rightarrow> sse_state \<Rightarrow> (nat \<times> event) list" where
  "poll_takes i p s = (if po_pc p = PollLoop then map (Pair i) (take 1 (sv_events s)) else [])"

definition poll_prints :: "poll \<Rightarrow> sse_state \<Rightarrow> nat list" where
  "poll_prints p s = (case po_pc p of PollPrint _ \<Rightarrow> [sv_nextId s] | _ \<Rightarrow> [])"

inductive sse_step :: "sse_run \<Rightarrow> sse_run \<Rightarrow> bool" where
  step_offer: "length (sv_events (sr_state x)) < 10
     \<Longrightarrow> sse_step x (x\<lparr>sr_state := sse_offer e (sr_state x), sr_acc := sr_acc x @ [e]\<rparr>)"
| step_dropped: "\<not> length (sv_events (sr_state x)) < 10 \<Longrightarrow> sse_step x (x\<lparr>sr_state := sse_offer e (sr_state x)\<rparr>)"
| step_send: "sse_step x (x\<lparr>sr_state := sse_send e (sr_state x), sr_acc := sr_acc x @ [e]\<rparr>)"
| step_fire: "sv_timer (sr_state x) = Some False \<Longrightarrow> sse_step x (x\<lparr>sr_state := (sr_state x)\<lparr>sv_timer := Some True\<rparr>\<rparr>)"
| step_request: "sse_step x (x\<lparr>sr_polls := (sr_polls x)(sr_n x := getApiSseHandler w), sr_n := sr_n x + 1,
     sr_overlap := (sr_overlap x \<or> (\<exists>i < sr_n x. po_pc (sr_polls x i) \<noteq> PollDone))\<rparr>)"
| step_poll: "i < sr_n x \<Longrightarrow> poll_step (sr_polls x i) (sr_state x) = (p, s)
     \<Longrightarrow> sse_step x (x\<lparr>sr_state := s, sr_polls := (sr_polls x)(i := p),
           sr_recv := sr_recv x @ poll_takes i (sr_polls x i) (sr_state x),
           sr_ids := sr_ids x @ poll_prints (sr_polls x i) (sr_state x)\<rparr>)"

definition sse_start :: "sse_run \<Rightarrow> bool" where
  "sse_start x \<longleftrightarrow> x = \<lparr>sr_state = sse_init, sr_polls = (\<lambda>_. getApiSseHandler new_response), sr_n = 0, sr_acc = [],
     sr_recv = [], sr_ids = [], sr_overlap = False\<rparr>"

text \<open>The event that a poll has taken and not printed, and the ids that the next id is behind.\<close>

definition in_hand :: "poll \<Rightarrow> event list" where
  "in_hand p = (case po_pc p of PollPrint v \<Rightarrow> [v] | _ \<Rightarrow> [])"

definition taken_by :: "nat \<Rightarrow> (nat \<times> event) list \<Rightarrow> event list" where
  "taken_by i recv = map snd (filter (\<lambda>r. fst r = i) recv)"

definition ids_behind :: "poll \<Rightarrow> sse_state \<Rightarrow> nat list \<Rightarrow> bool" where
  "ids_behind p s ids \<longleftrightarrow> ids = [0..<length ids] \<and>
     (case po_pc p of PollAdd \<Rightarrow> length ids = sv_nextId s + 1
      | PollStore n \<Rightarrow> length ids = n + 1 \<and> sv_nextId s = n
      | _ \<Rightarrow> length ids = sv_nextId s)"

definition queue_inv :: "sse_run \<Rightarrow> bool" where
  "queue_inv x \<longleftrightarrow> map snd (sr_recv x) @ sv_events (sr_state x) @ sv_waiting (sr_state x) = sr_acc x
     \<and> length (sv_events (sr_state x)) \<le> 10
     \<and> (sv_waiting (sr_state x) \<noteq> [] \<longrightarrow> length (sv_events (sr_state x)) = 10)"

definition polls_inv :: "sse_run \<Rightarrow> bool" where
  "polls_inv x \<longleftrightarrow> (\<forall>i. map snd (po_out (sr_polls x i)) @ in_hand (sr_polls x i) = taken_by i (sr_recv x))
     \<and> (\<forall>i \<ge> sr_n x. sr_polls x i = getApiSseHandler new_response)"

definition ids_inv :: "sse_run \<Rightarrow> bool" where
  "ids_inv x \<longleftrightarrow> sr_overlap x \<or> ((\<forall>i. i + 1 < sr_n x \<longrightarrow> po_pc (sr_polls x i) = PollDone)
     \<and> ids_behind (sr_polls x (sr_n x - 1)) (sr_state x) (sr_ids x))"

lemma poll_step_takes:
  assumes "poll_step p s = (p', s')"
  shows "map snd (poll_takes i p s) @ sv_events s' @ sv_waiting s' = sv_events s @ sv_waiting s"
    and "map snd (po_out p') @ in_hand p' = map snd (po_out p) @ in_hand p @ map snd (poll_takes i p s)"
    and "length (sv_events s) \<le> 10 \<Longrightarrow> (sv_waiting s \<noteq> [] \<longrightarrow> length (sv_events s) = 10) \<Longrightarrow>
       length (sv_events s') \<le> 10 \<and> (sv_waiting s' \<noteq> [] \<longrightarrow> length (sv_events s') = 10)"
    and "po_pc p = PollDone \<Longrightarrow> p' = p \<and> s' = s"
  using assms by (auto simp: poll_step_def poll_takes_def in_hand_def sse_receive_def
      split: poll_pc.splits option.splits list.splits if_splits)

lemma poll_step_ids:
  "poll_step p s = (p', s') \<Longrightarrow> ids_behind p s ids \<Longrightarrow> ids_behind p' s' (ids @ poll_prints p s)"
  by (auto simp: poll_step_def poll_prints_def ids_behind_def sse_receive_def
      split: poll_pc.splits option.splits list.splits if_splits)

lemma queue_inv_step: "sse_step x y \<Longrightarrow> queue_inv x \<Longrightarrow> queue_inv y"
proof (induction rule: sse_step.induct)
  case (step_poll i x p s)
  from poll_step_takes(1,3) [OF step_poll(2)] step_poll(3) show ?case
    by (simp add: queue_inv_def)
qed (auto simp: queue_inv_def sse_offer_def sse_send_def)

lemma polls_inv_step: "sse_step x y \<Longrightarrow> polls_inv x \<Longrightarrow> polls_inv y"
proof (induction rule: sse_step.induct)
  case (step_request x w)
  then have "taken_by (sr_n x) (sr_recv x) = []" by (auto simp: polls_inv_def getApiSseHandler_def in_hand_def dest!: spec [of _ "sr_n x"])
  with step_request show ?case by (auto simp: polls_inv_def getApiSseHandler_def in_hand_def)
next
  case (step_poll i x p s)
  have "taken_by j (poll_takes i q t) = (if i = j then map snd (poll_takes i q t) else [])" for j q t
    by (auto simp: taken_by_def poll_takes_def filter_map comp_def)
  then have "taken_by j (sr_recv x @ poll_takes i (sr_polls x i) (sr_state x)) = taken_by j (sr_recv x)
      @ (if i = j then map snd (poll_takes i (sr_polls x i) (sr_state x)) else [])" for j
    by (simp add: taken_by_def)
  with poll_step_takes(2) [OF step_poll(2), of i] step_poll(1,3) show ?case
    by (auto simp: polls_inv_def)
qed (auto simp: polls_inv_def)

lemma ids_inv_step: "sse_step x y \<Longrightarrow> polls_inv x \<Longrightarrow> ids_inv x \<Longrightarrow> ids_inv y"
proof (induction rule: sse_step.induct)
  case (step_request x w)
  show ?case
  proof (cases "sr_overlap x \<or> (\<exists>i < sr_n x. po_pc (sr_polls x i) \<noteq> PollDone)")
    case False
    then have "ids_behind (getApiSseHandler w) (sr_state x) (sr_ids x)"
      using step_request by (cases "sr_n x") (auto simp: ids_inv_def ids_behind_def polls_inv_def getApiSseHandler_def)
    with False show ?thesis by (auto simp: ids_inv_def)
  qed (auto simp: ids_inv_def)
next
  case (step_poll i x p s)
  show ?case
  proof (cases "sr_overlap x")
    case False
    show ?thesis
    proof (cases "i + 1 = sr_n x")
      case True
      then have "sr_n x - 1 = i" by simp
      with True False step_poll(4) poll_step_ids [OF step_poll(2)] show ?thesis
        by (auto simp: ids_inv_def)
    next
      case other: False
      then have "po_pc (sr_polls x i) = PollDone" using False step_poll(1,4) by (auto simp: ids_inv_def)
      then have "p = sr_polls x i" "s = sr_state x" "poll_prints (sr_polls x i) (sr_state x) = []"
        using poll_step_takes(4) [OF step_poll(2)] by (auto simp: poll_prints_def)
      then show ?thesis using step_poll(4) by (simp add: ids_inv_def)
    qed
  qed (simp add: ids_inv_def)
qed (auto simp: ids_inv_def ids_behind_def sse_offer_def sse_send_def split: poll_pc.splits)

interpretation sse_runs: invariant_system sse_start sse_step "\<lambda>x. queue_inv x \<and> polls_inv x \<and> ids_inv x"
proof unfold_locales
  fix x assume "sse_start x"
  then show "queue_inv x \<and> polls_inv x \<and> ids_inv x"
    by (simp add: sse_start_def queue_inv_def polls_inv_def ids_inv_def ids_behind_def sse_init_def getApiSseHandler_def
        in_hand_def taken_by_def)
qed (use queue_inv_step polls_inv_step ids_inv_step in blast)

text \<open>C14: no accepted event is lost, repeated or out of order, however the steps of any number of polls, the senders and the
  timer interleave: the events that left the channel, followed by those in it and those whose senders wait,
  are the accepted events in the order of acceptance; each poll has printed those it took, in that order, but
  for the one in its hand; a sender waits only at a full channel, and a poll leaves its loop only when
  every accepted event has been taken.  The ids count from zero without a gap as long as no poll began before all earlier
  ones had ended; without that two events can get one id, as \<open>polls_share_id\<close> below shows.\<close>

theorem events_in_order:
  assumes "reach sse_start sse_step x"
  shows "map snd (sr_recv x) @ sv_events (sr_state x) @ sv_waiting (sr_state x) = sr_acc x
    \<and> (\<forall>i. map snd (po_out (sr_polls x i)) @ in_hand (sr_polls x i) = taken_by i (sr_recv x))
    \<and> (sv_waiting (sr_state x) \<noteq> [] \<longrightarrow> length (sv_events (sr_state x)) = 10)
    \<and> (\<forall>i. po_pc (sr_polls x i) = PollLoop \<and> po_pc (fst (poll_step (sr_polls x i) (sr_state x))) = PollTimer
         \<longrightarrow> map snd (sr_recv x) = sr_acc x)
    \<and> (\<not> sr_overlap x \<longrightarrow> sr_ids x = [0..<length (sr_ids x)])"
proof -
  have inv: "queue_inv x" "polls_inv x" "ids_inv x" using sse_runs.reach_inv [OF assms] by simp_all
  have "map snd (sr_recv x) = sr_acc x"
    if "po_pc (sr_polls x i) = PollLoop" "po_pc (fst (poll_step (sr_polls x i) (sr_state x))) = PollTimer" for i
  proof -
    have "sv_events (sr_state x) = []"
      using that by (auto simp: poll_step_def sse_receive_def split: option.splits list.splits)
    then show ?thesis using inv(1) by (auto simp: queue_inv_def)
  qed
  with inv show ?thesis by (auto simp: queue_inv_def polls_inv_def ids_inv_def ids_behind_def)
qed

text \<open>Runs for the examples, step by step.\<close>

definition sse_first :: sse_run where
  "sse_first = \<lparr>sr_state = sse_init, sr_polls = (\<lambda>_. getApiSseHandler new_response), sr_n = 0, sr_acc = [],
     sr_recv = [], sr_ids = [], sr_overlap = False\<rparr>"

definition sse_post :: "event \<Rightarrow> sse_run \<Rightarrow> sse_run" where
  "sse_post e x = x\<lparr>sr_state := sse_send e (sr_state x), sr_acc := sr_acc x @ [e]\<rparr>"

definition sse_request :: "sse_run \<Rightarrow> sse_run" where
  "sse_request x = x\<lparr>sr_polls := (sr_polls x)(sr_n x := getApiSseHandler new_response), sr_n := sr_n x + 1,
     sr_overlap := (sr_overlap x \<or> (\<exists>i < sr_n x. po_pc (sr_polls x i) \<noteq> PollDone))\<rparr>"

definition sse_poll :: "nat \<Rightarrow> sse_run \<Rightarrow> sse_run" where
  "sse_poll i x = x\<lparr>sr_state := snd (poll_step (sr_polls x i) (sr_state x)),
     sr_polls := (sr_polls x)(i := fst (poll_step (sr_polls x i) (sr_state x))),
     sr_recv := sr_recv x @ poll_takes i (sr_polls x i) (sr_state x),
     sr_ids := sr_ids x @ poll_prints (sr_polls x i) (sr_state x)\<rparr>"

lemma sse_reach:
  "reach sse_start sse_step sse_first"
  "reach sse_start sse_step x \<Longrightarrow> reach sse_start sse_step (sse_post e x)"
  "reach sse_start sse_step x \<Longrightarrow> reach sse_start sse_step (sse_request x)"
  "reach sse_start sse_step x \<Longrightarrow> i < sr_n x \<Longrightarrow> reach sse_start sse_step (sse_poll i x)"
  unfolding sse_post_def sse_request_def sse_poll_def
  by (rule reach_init, simp add: sse_start_def sse_first_def)
    (erule reach_step, rule step_send step_request step_poll; simp)+

lemmas sse_run_simps = sse_first_def sse_post_def sse_request_def sse_poll_def sse_init_def sse_send_def sse_receive_def
  getApiSseHandler_def poll_step_def poll_takes_def poll_prints_def

text \<open>Two polls that overlap print two events under one id.\<close>

lemma polls_share_id:
  "\<exists>x. reach sse_start sse_step x \<and> sr_recv x = [(0, a), (1, b)] \<and> sr_ids x = [0, 0]"
proof (intro exI conjI)
  let ?x = "sse_poll 1 (sse_poll 0 (sse_poll 1 (sse_poll 0 (sse_request (sse_request (sse_post b (sse_post a sse_first)))))))"
  show "reach sse_start sse_step ?x" by (intro sse_reach) (simp_all add: sse_post_def sse_request_def sse_poll_def)
  show "sr_recv ?x = [(0, a), (1, b)]" "sr_ids ?x = [0, 0]" by (simp_all add: sse_run_simps)
qed

theorem events_in_order_witness:
  "\<exists>x. reach sse_start sse_step x \<and> map snd (sr_recv x) @ sv_events (sr_state x) = [(''a'', ''x''), (''b'', ''y'')] \<and> length (sr_ids x) = 2
     \<and> sr_ids x = [0, 1]"
proof -
  let ?x = "sse_poll 0 (sse_poll 0 (sse_poll 0 (sse_poll 0 (sse_poll 0 (sse_poll 0
      (sse_request (sse_post (''b'', ''y'') (sse_post (''a'', ''x'') sse_first))))))))"
  have r: "reach sse_start sse_step ?x"
    by (intro sse_reach) (simp_all add: sse_post_def sse_request_def sse_poll_def)
  have acc: "sr_acc ?x = [(''a'', ''x''), (''b'', ''y'')]" and w: "sv_waiting (sr_state ?x) = []" and o: "\<not> sr_overlap ?x"
    and l: "length (sr_ids ?x) = 2"
    by (simp_all add: sse_run_simps)
  have "[0..<2] = [0, 1 :: nat]" by code_simp
  then show ?thesis using events_in_order [OF r] r acc w o l by (intro exI [of _ ?x]) (metis append_Nil2)
qed

end
