(* ===== verification/Key_Store_Safety.thy ===== *)
theory Key_Store_Safety
  imports Key_Store
begin

text \<open>
  The key store as a transition system: its methods and timers in any order, with everything it has
  sent as a log.  Its invariant says what the tables, the buffers and the timers have to do with
  each other, and it is kept by each operation; the safety properties of the store follow from it.
\<close>

section \<open>The invariant\<close>

definition info_core :: "key_store \<Rightarrow> nat \<Rightarrow> (bytes \<times> bytes \<times> bytes) option" where
  "info_core s p = map_option (\<lambda>i. (ki_key i, ki_address i, ki_subnet i)) (ks_infos s p)"

definition buf_dst :: "key_store \<Rightarrow> nat \<Rightarrow> bytes option" where
  "buf_dst s b = map_option (\<lambda>buf. pkt_dst (pb_packet buf)) (ks_buffers s b)"

definition derived :: "network_domain \<Rightarrow> bytes \<times> bytes \<times> bytes \<Rightarrow> bool" where
  "derived nd = (\<lambda>(k, a, n). AddrForKey nd k = Ret (Some a) \<and> SubnetForKey nd k = Ret (Some n))"

text \<open>Every entry of the three tables points to an object with the entry's key, address or subnet, and
  the address and subnet of each object are those of its key.\<close>

definition tables_ok :: "network_domain \<Rightarrow> key_store \<Rightarrow> bool" where
  "tables_ok nd s \<longleftrightarrow>
     (\<forall>k p. ks_keyToInfo s k = Some p \<longrightarrow> (\<exists>a n. info_core s p = Some (k, a, n)))
   \<and> (\<forall>a p. ks_addrToInfo s a = Some p \<longrightarrow> (\<exists>k n. info_core s p = Some (k, a, n)))
   \<and> (\<forall>n p. ks_subnetToInfo s n = Some p \<longrightarrow> (\<exists>k a. info_core s p = Some (k, a, n)))
   \<and> (\<forall>p c. info_core s p = Some c \<longrightarrow> p < ks_next s \<and> derived nd c)"

text \<open>A buffered packet is filed under its own destination, and no buffer is in both tables.\<close>

definition buffers_ok :: "key_store \<Rightarrow> bool" where
  "buffers_ok s \<longleftrightarrow>
     (\<forall>a b. ks_addrBuffer s a = Some b \<longrightarrow> buf_dst s b = Some a)
   \<and> (\<forall>n b. ks_subnetBuffer s n = Some b \<longrightarrow> (\<exists>d. buf_dst s b = Some d \<and> take 8 d = n))
   \<and> (\<forall>a n b. ks_addrBuffer s a = Some b \<longrightarrow> ks_subnetBuffer s n \<noteq> Some b)
   \<and> (\<forall>b d. buf_dst s b = Some d \<longrightarrow> b < ks_next s)"

text \<open>A function is pending when a timer is armed with it or when it waits for the mutex.\<close>

definition pending :: "key_store \<Rightarrow> timer_fun \<Rightarrow> bool" where
  "pending s f \<longleftrightarrow> (\<exists>t. ks_timers s t = Some f) \<or> f \<in> set (ks_fired s)"

definition buffer_fun :: "nat \<Rightarrow> timer_fun \<Rightarrow> bool" where
  "buffer_fun b f \<longleftrightarrow> (\<exists>a. f = ExpireAddrBuffer a b) \<or> (\<exists>n. f = ExpireSubnetBuffer n b)"

text \<open>A timer that an object holds is one for that object, and every entry of every table has a
  pending function that removes it.\<close>

definition timers_ok :: "key_store \<Rightarrow> bool" where
  "timers_ok s \<longleftrightarrow>
     (\<forall>p i t. ks_infos s p = Some i \<longrightarrow> ki_timeout i = Some t \<longrightarrow>
        t < ks_next s \<and> (\<forall>f. ks_timers s t = Some f \<longrightarrow> f = ExpireInfo p))
   \<and> (\<forall>b buf t. ks_buffers s b = Some buf \<longrightarrow> pb_timeout buf = Some t \<longrightarrow>
        t < ks_next s \<and> (\<forall>f. ks_timers s t = Some f \<longrightarrow> buffer_fun b f))
   \<and> (\<forall>t f. ks_timers s t = Some f \<longrightarrow> t < ks_next s)"

definition entries_pending :: "key_store \<Rightarrow> bool" where
  "entries_pending s \<longleftrightarrow>
     (\<forall>k p. ks_keyToInfo s k = Some p \<longrightarrow> pending s (ExpireInfo p))
   \<and> (\<forall>a p. ks_addrToInfo s a = Some p \<longrightarrow> pending s (ExpireInfo p))
   \<and> (\<forall>n p. ks_subnetToInfo s n = Some p \<longrightarrow> pending s (ExpireInfo p))
   \<and> (\<forall>a b. ks_addrBuffer s a = Some b \<longrightarrow> pending s (ExpireAddrBuffer a b))
   \<and> (\<forall>n b. ks_subnetBuffer s n = Some b \<longrightarrow> pending s (ExpireSubnetBuffer n b))"

definition ks_inv :: "network_domain \<Rightarrow> key_store \<Rightarrow> bool" where
  "ks_inv nd s \<longleftrightarrow> tables_ok nd s \<and> buffers_ok s \<and> timers_ok s \<and> entries_pending s"

lemmas ks_inv_defs = ks_inv_def tables_ok_def buffers_ok_def timers_ok_def entries_pending_def

section \<open>Operations keep the invariant\<close>

text \<open>Restarting a timer: the one step behind \<open>resetTimeout\<close> and \<open>fill_buffer\<close>.\<close>

definition disarm :: "nat option \<Rightarrow> (nat \<rightharpoonup> timer_fun) \<Rightarrow> (nat \<rightharpoonup> timer_fun)" where
  "disarm tm T = (case tm of None \<Rightarrow> T | Some t \<Rightarrow> T(t := None))"

lemma disarm_simps [simp]: "disarm None T = T" "disarm (Some t) T = T(t := None)"
  by (simp_all add: disarm_def)

lemma disarm_SomeD: "disarm tm T t = Some f \<Longrightarrow> T t = Some f"
  by (cases tm) (auto split: if_splits)

lemma resetTimeout_eq:
  "resetTimeout p s = (case ks_infos s p of None \<Rightarrow> s
     | Some i \<Rightarrow> s\<lparr>ks_timers := (disarm (ki_timeout i) (ks_timers s))(ks_next s \<mapsto> ExpireInfo p),
         ks_next := ks_next s + 1,
         ks_infos := (ks_infos s)(p := Some (i\<lparr>ki_timeout := Some (ks_next s)\<rparr>))\<rparr>)"
  by (auto simp: resetTimeout_def stop_timer_def after_func_def Let_def split: option.splits)

lemma fill_buffer_eq:
  "fill_buffer b f bs s = (case ks_buffers s b of None \<Rightarrow> s
     | Some buf \<Rightarrow> s\<lparr>ks_timers := (disarm (pb_timeout buf) (ks_timers s))(ks_next s \<mapsto> f),
         ks_next := ks_next s + 1,
         ks_buffers := (ks_buffers s)(b := Some \<lparr>pb_packet = bs, pb_timeout = Some (ks_next s)\<rparr>)\<rparr>)"
  by (auto simp: fill_buffer_def stop_timer_def after_func_def Let_def split: option.splits)

lemma info_core_reset [simp]: "info_core (resetTimeout p s) = info_core s"
  by (rule ext) (auto simp: info_core_def resetTimeout_eq split: option.splits)

lemma resetTimeout_fields [simp]:
  "ks_keyToInfo (resetTimeout p s) = ks_keyToInfo s"
  "ks_addrToInfo (resetTimeout p s) = ks_addrToInfo s"
  "ks_subnetToInfo (resetTimeout p s) = ks_subnetToInfo s"
  "ks_addrBuffer (resetTimeout p s) = ks_addrBuffer s"
  "ks_subnetBuffer (resetTimeout p s) = ks_subnetBuffer s"
  "ks_buffers (resetTimeout p s) = ks_buffers s"
  "ks_fired (resetTimeout p s) = ks_fired s"
  "ks_mtu (resetTimeout p s) = ks_mtu s"
  "ks_address (resetTimeout p s) = ks_address s"
  "ks_subnet (resetTimeout p s) = ks_subnet s"
  "ks_next s \<le> ks_next (resetTimeout p s)"
  by (simp_all add: resetTimeout_eq split: option.splits)

lemma buf_dst_reset [simp]: "buf_dst (resetTimeout p s) = buf_dst s"
  by (rule ext) (simp add: buf_dst_def)

lemma tables_ok_reset: "tables_ok nd s \<Longrightarrow> tables_ok nd (resetTimeout p s)"
  unfolding tables_ok_def by simp (meson less_le_trans resetTimeout_fields(11))

lemma buffers_ok_reset: "buffers_ok s \<Longrightarrow> buffers_ok (resetTimeout p s)"
  unfolding buffers_ok_def by simp (meson less_le_trans resetTimeout_fields(11))

lemma pending_reset:
  assumes "timers_ok s" and "pending s f"
  shows "pending (resetTimeout p s) f"
proof (cases "ks_infos s p")
  case (Some i)
  show ?thesis
  proof (cases "f = ExpireInfo p")
    case True
    then show ?thesis using Some by (auto simp: pending_def resetTimeout_eq)
  next
    case False
    have "ks_timers (resetTimeout p s) t = Some f" if "ks_timers s t = Some f" for t
    proof -
      have "t < ks_next s" using assms(1) that by (auto simp: timers_ok_def)
      moreover have "ki_timeout i \<noteq> Some t"
        using assms(1) Some that False unfolding timers_ok_def by blast
      ultimately show ?thesis using that Some by (cases "ki_timeout i") (auto simp: resetTimeout_eq)
    qed
    then show ?thesis using assms(2) unfolding pending_def resetTimeout_fields(7) by blast
  qed
qed (use assms in \<open>simp add: resetTimeout_eq\<close>)

lemma pending_after_reset: "ks_infos s p = Some i \<Longrightarrow> pending (resetTimeout p s) (ExpireInfo p)"
  by (auto simp: pending_def resetTimeout_eq)

lemma timers_ok_reset:
  assumes "timers_ok s"
  shows "timers_ok (resetTimeout p s)"
proof (cases "ks_infos s p")
  case (Some i)
  show ?thesis
    unfolding timers_ok_def
  proof (intro conjI allI impI)
    fix q j t assume q: "ks_infos (resetTimeout p s) q = Some j" "ki_timeout j = Some t"
    have "t < ks_next s + 1 \<and> (\<forall>f. ((disarm (ki_timeout i) (ks_timers s))(ks_next s \<mapsto> ExpireInfo p)) t = Some f
        \<longrightarrow> f = ExpireInfo q)"
    proof (cases "q = p")
      case True
      then show ?thesis using q Some by (auto simp: resetTimeout_eq)
    next
      case False
      then have "t < ks_next s" "\<And>f. ks_timers s t = Some f \<Longrightarrow> f = ExpireInfo q"
        using q Some assms by (auto simp: resetTimeout_eq timers_ok_def)
      then show ?thesis by (auto dest: disarm_SomeD)
    qed
    then show "t < ks_next (resetTimeout p s)" and
      "ks_timers (resetTimeout p s) t = Some f \<Longrightarrow> f = ExpireInfo q" for f
      using Some by (simp_all add: resetTimeout_eq)
  next
    fix b buf t assume "ks_buffers (resetTimeout p s) b = Some buf" "pb_timeout buf = Some t"
    then have "t < ks_next s" "\<And>f. ks_timers s t = Some f \<Longrightarrow> buffer_fun b f"
      using assms by (auto simp: timers_ok_def)
    then show "t < ks_next (resetTimeout p s)"
      and "ks_timers (resetTimeout p s) t = Some f \<Longrightarrow> buffer_fun b f" for f
      using Some by (auto simp: resetTimeout_eq dest: disarm_SomeD)
  next
    fix t f assume "ks_timers (resetTimeout p s) t = Some f"
    then show "t < ks_next (resetTimeout p s)"
      using assms Some by (auto simp: resetTimeout_eq timers_ok_def less_Suc_eq
          dest!: disarm_SomeD split: if_splits)
  qed
qed (use assms in \<open>simp add: resetTimeout_eq\<close>)

lemma ks_inv_reset: "ks_inv nd s \<Longrightarrow> ks_inv nd (resetTimeout p s)"
  by (auto simp: ks_inv_def entries_pending_def
      intro: tables_ok_reset buffers_ok_reset timers_ok_reset pending_reset)


text \<open>A buffer object in use, or a fresh one, with the timer it holds.\<close>

definition buffer_slot :: "key_store \<Rightarrow> nat \<Rightarrow> nat option \<Rightarrow> bool" where
  "buffer_slot s b tm \<longleftrightarrow>
     (case ks_buffers s b of None \<Rightarrow> tm = None \<and> ks_next s \<le> b | Some buf \<Rightarrow> tm = pb_timeout buf)"

definition put_buffer ::
  "nat \<Rightarrow> nat option \<Rightarrow> nat \<Rightarrow> nat \<Rightarrow> timer_fun \<Rightarrow> bytes \<Rightarrow> key_store \<Rightarrow> key_store" where
  "put_buffer b tm t n f bs s =
     s\<lparr>ks_buffers := (ks_buffers s)(b \<mapsto> \<lparr>pb_packet = bs, pb_timeout = Some t\<rparr>),
       ks_timers := (disarm tm (ks_timers s))(t \<mapsto> f), ks_next := n\<rparr>"

lemma put_buffer_fields [simp]:
  "ks_keyToInfo (put_buffer b tm t n f bs s) = ks_keyToInfo s"
  "ks_addrToInfo (put_buffer b tm t n f bs s) = ks_addrToInfo s"
  "ks_subnetToInfo (put_buffer b tm t n f bs s) = ks_subnetToInfo s"
  "ks_addrBuffer (put_buffer b tm t n f bs s) = ks_addrBuffer s"
  "ks_subnetBuffer (put_buffer b tm t n f bs s) = ks_subnetBuffer s"
  "ks_infos (put_buffer b tm t n f bs s) = ks_infos s"
  "ks_fired (put_buffer b tm t n f bs s) = ks_fired s"
  "ks_next (put_buffer b tm t n f bs s) = n"
  "ks_address (put_buffer b tm t n f bs s) = ks_address s"
  "ks_subnet (put_buffer b tm t n f bs s) = ks_subnet s"
  "ks_mtu (put_buffer b tm t n f bs s) = ks_mtu s"
  by (simp_all add: put_buffer_def)

lemma info_core_put [simp]: "info_core (put_buffer b tm t n f bs s) = info_core s"
  by (rule ext) (simp add: info_core_def)

lemma buf_dst_put [simp]:
  "buf_dst (put_buffer b tm t n f bs s) b' = (if b' = b then Some (pkt_dst bs) else buf_dst s b')"
  by (simp add: buf_dst_def put_buffer_def)

lemma tables_ok_put: "tables_ok nd s \<Longrightarrow> ks_next s \<le> n \<Longrightarrow> tables_ok nd (put_buffer b tm t n f bs s)"
  unfolding tables_ok_def by simp (meson less_le_trans)

lemma timers_ok_put:
  assumes "timers_ok s" and "buffer_fun b f" and "ks_next s \<le> t" and "t < n"
  shows "timers_ok (put_buffer b tm t n f bs s)"
proof -
  have old: "ks_timers (put_buffer b tm t n f bs s) t' = Some g \<Longrightarrow> ks_timers s t' = Some g"
    if "t' < ks_next s" for t' g
    using that assms(3) by (auto simp: put_buffer_def dest: disarm_SomeD)
  show ?thesis
    unfolding timers_ok_def
  proof (intro conjI allI impI)
    fix p i t' assume "ks_infos (put_buffer b tm t n f bs s) p = Some i" "ki_timeout i = Some t'"
    then have *: "t' < ks_next s" "\<And>g. ks_timers s t' = Some g \<Longrightarrow> g = ExpireInfo p"
      using assms(1) by (auto simp: timers_ok_def)
    then show "t' < ks_next (put_buffer b tm t n f bs s)" using assms(3,4) by simp
    show "g = ExpireInfo p" if "ks_timers (put_buffer b tm t n f bs s) t' = Some g" for g
      using * old that by blast
  next
    fix b' buf t' assume b': "ks_buffers (put_buffer b tm t n f bs s) b' = Some buf" "pb_timeout buf = Some t'"
    have "t' < n \<and> (\<forall>g. ks_timers (put_buffer b tm t n f bs s) t' = Some g \<longrightarrow> buffer_fun b' g)"
    proof (cases "b' = b")
      case True
      then show ?thesis using b' assms(2,4) by (auto simp: put_buffer_def)
    next
      case False
      then have "ks_buffers s b' = Some buf" using b' by (simp add: put_buffer_def)
      then have "t' < ks_next s" "\<And>g. ks_timers s t' = Some g \<Longrightarrow> buffer_fun b' g"
        using assms(1) b'(2) by (auto simp: timers_ok_def)
      then show ?thesis using old assms(3,4) by (meson less_le_trans less_trans)
    qed
    then show "t' < ks_next (put_buffer b tm t n f bs s)"
      and "ks_timers (put_buffer b tm t n f bs s) t' = Some g \<Longrightarrow> buffer_fun b' g" for g by simp_all
  next
    fix t' g assume "ks_timers (put_buffer b tm t n f bs s) t' = Some g"
    then have "t' = t \<or> t' < ks_next s"
      using assms(1) by (auto simp: put_buffer_def timers_ok_def dest: disarm_SomeD split: if_splits)
    then show "t' < ks_next (put_buffer b tm t n f bs s)" using assms(3,4) by auto
  qed
qed

lemma pending_put:
  assumes "timers_ok s" and "buffer_slot s b tm" and "ks_next s \<le> t"
    and "pending s g" and "\<not> buffer_fun b g"
  shows "pending (put_buffer b tm t n f bs s) g"
proof -
  have "ks_timers (put_buffer b tm t n f bs s) t' = Some g" if t': "ks_timers s t' = Some g" for t'
  proof -
    have "t' < ks_next s" using assms(1) t' by (auto simp: timers_ok_def)
    moreover have "tm \<noteq> Some t'"
      using assms(1,2,5) t' unfolding timers_ok_def buffer_slot_def
      by (cases "ks_buffers s b") auto
    ultimately show ?thesis using assms(3) t' by (cases tm) (auto simp: put_buffer_def)
  qed
  then show ?thesis using assms(4) unfolding pending_def put_buffer_fields(7) by blast
qed

lemma pending_put_new: "pending (put_buffer b tm t n f bs s) f"
  by (auto simp: pending_def put_buffer_def)

lemma not_buffer_fun [simp]:
  "\<not> buffer_fun b (ExpireInfo p)"
  "buffer_fun b (ExpireAddrBuffer a b') \<longleftrightarrow> b' = b"
  "buffer_fun b (ExpireSubnetBuffer n b') \<longleftrightarrow> b' = b"
  by (auto simp: buffer_fun_def)


text \<open>Filing a packet: what \<open>sendToAddress\<close> and \<open>sendToSubnet\<close> do to the store when the owner is not
  known.  The slot is the buffer of the entry, or a new one.\<close>

definition file_addr :: "bytes \<Rightarrow> bytes \<Rightarrow> key_store \<Rightarrow> key_store" where
  "file_addr addr bs s =
     (case ks_addrBuffer s addr of
        Some b \<Rightarrow> fill_buffer b (ExpireAddrBuffer addr b) bs s
      | None \<Rightarrow> (case new_buffer s of (b, s) \<Rightarrow>
          fill_buffer b (ExpireAddrBuffer addr b) bs (s\<lparr>ks_addrBuffer := (ks_addrBuffer s)(addr \<mapsto> b)\<rparr>)))"

definition file_subnet :: "bytes \<Rightarrow> bytes \<Rightarrow> key_store \<Rightarrow> key_store" where
  "file_subnet subnet bs s =
     (case ks_subnetBuffer s subnet of
        Some b \<Rightarrow> fill_buffer b (ExpireSubnetBuffer subnet b) bs s
      | None \<Rightarrow> (case new_buffer s of (b, s) \<Rightarrow>
          fill_buffer b (ExpireSubnetBuffer subnet b) bs (s\<lparr>ks_subnetBuffer := (ks_subnetBuffer s)(subnet \<mapsto> b)\<rparr>)))"

lemma sendToAddress_eq:
  "sendToAddress nd sign addr bs s =
     (case ks_addrToInfo s addr of
        Some p \<Rightarrow> Ret (resetTimeout p s, [SendPacket bs (info_key s p)])
      | None \<Rightarrow> bind_outcome (GetAddressKey nd addr)
                 (\<lambda>partial. Ret (file_addr addr bs s, [sendKeyLookup sign partial])))"
  by (auto simp: sendToAddress_def file_addr_def new_buffer_def info_key_def resetTimeout_eq Let_def
      split: option.splits)

lemma sendToSubnet_eq:
  "sendToSubnet nd sign subnet bs s =
     (case ks_subnetToInfo s subnet of
        Some p \<Rightarrow> Ret (resetTimeout p s, [SendPacket bs (info_key s p)])
      | None \<Rightarrow> bind_outcome (GetSubnetKey nd subnet)
                 (\<lambda>partial. Ret (file_subnet subnet bs s, [sendKeyLookup sign partial])))"
  by (auto simp: sendToSubnet_def file_subnet_def new_buffer_def info_key_def resetTimeout_eq Let_def
      split: option.splits)

lemma buf_dst_Some: "buf_dst s b = Some d \<Longrightarrow> \<exists>buf. ks_buffers s b = Some buf \<and> pkt_dst (pb_packet buf) = d"
  by (auto simp: buf_dst_def)

lemma fresh_buffer: "buffers_ok s \<Longrightarrow> ks_buffers s (ks_next s) = None"
  by (cases "ks_buffers s (ks_next s)") (auto simp: buffers_ok_def buf_dst_def)

lemma file_addr_shape:
  assumes "buffers_ok s"
  obtains b tm t n where "file_addr addr bs s =
      (put_buffer b tm t n (ExpireAddrBuffer addr b) bs s)\<lparr>ks_addrBuffer := (ks_addrBuffer s)(addr \<mapsto> b)\<rparr>"
    and "buffer_slot s b tm" and "ks_next s \<le> t" and "t < n" and "b < n"
    and "ks_addrBuffer s addr = Some b \<or> ks_next s \<le> b"
proof (cases "ks_addrBuffer s addr")
  case None
  have "file_addr addr bs s =
      (put_buffer (ks_next s) None (ks_next s + 1) (ks_next s + 2) (ExpireAddrBuffer addr (ks_next s)) bs s)
        \<lparr>ks_addrBuffer := (ks_addrBuffer s)(addr \<mapsto> ks_next s)\<rparr>"
    by (simp add: file_addr_def None new_buffer_def fill_buffer_eq put_buffer_def)
  then show ?thesis
    using that fresh_buffer [OF assms] by (auto simp: buffer_slot_def)
next
  case (Some b)
  then obtain buf where buf: "ks_buffers s b = Some buf" "b < ks_next s"
    using assms unfolding buffers_ok_def by (meson buf_dst_Some)
  have "file_addr addr bs s =
      (put_buffer b (pb_timeout buf) (ks_next s) (ks_next s + 1) (ExpireAddrBuffer addr b) bs s)
        \<lparr>ks_addrBuffer := (ks_addrBuffer s)(addr \<mapsto> b)\<rparr>"
    using Some by (simp add: file_addr_def buf(1) fill_buffer_eq put_buffer_def fun_upd_idem)
  then show ?thesis
    using that Some buf by (auto simp: buffer_slot_def)
qed

lemma file_subnet_shape:
  assumes "buffers_ok s"
  obtains b tm t n where "file_subnet subnet bs s =
      (put_buffer b tm t n (ExpireSubnetBuffer subnet b) bs s)\<lparr>ks_subnetBuffer := (ks_subnetBuffer s)(subnet \<mapsto> b)\<rparr>"
    and "buffer_slot s b tm" and "ks_next s \<le> t" and "t < n" and "b < n"
    and "ks_subnetBuffer s subnet = Some b \<or> ks_next s \<le> b"
proof (cases "ks_subnetBuffer s subnet")
  case None
  have "file_subnet subnet bs s =
      (put_buffer (ks_next s) None (ks_next s + 1) (ks_next s + 2) (ExpireSubnetBuffer subnet (ks_next s)) bs s)
        \<lparr>ks_subnetBuffer := (ks_subnetBuffer s)(subnet \<mapsto> ks_next s)\<rparr>"
    by (simp add: file_subnet_def None new_buffer_def fill_buffer_eq put_buffer_def)
  then show ?thesis
    using that fresh_buffer [OF assms] by (auto simp: buffer_slot_def)
next
  case (Some b)
  then obtain d where "buf_dst s b = Some d" "b < ks_next s"
    using assms unfolding buffers_ok_def by meson
  then obtain buf where buf: "ks_buffers s b = Some buf" "b < ks_next s" by (meson buf_dst_Some)
  have "file_subnet subnet bs s =
      (put_buffer b (pb_timeout buf) (ks_next s) (ks_next s + 1) (ExpireSubnetBuffer subnet b) bs s)
        \<lparr>ks_subnetBuffer := (ks_subnetBuffer s)(subnet \<mapsto> b)\<rparr>"
    using Some by (simp add: file_subnet_def buf(1) fill_buffer_eq put_buffer_def fun_upd_idem)
  then show ?thesis
    using that Some buf by (auto simp: buffer_slot_def)
qed

lemma inv_parts_table [simp]:
  "tables_ok nd (s\<lparr>ks_addrBuffer := A\<rparr>) = tables_ok nd s"
  "tables_ok nd (s\<lparr>ks_subnetBuffer := B\<rparr>) = tables_ok nd s"
  "timers_ok (s\<lparr>ks_addrBuffer := A\<rparr>) = timers_ok s"
  "timers_ok (s\<lparr>ks_subnetBuffer := B\<rparr>) = timers_ok s"
  "buf_dst (s\<lparr>ks_addrBuffer := A\<rparr>) = buf_dst s"
  "buf_dst (s\<lparr>ks_subnetBuffer := B\<rparr>) = buf_dst s"
  "pending (s\<lparr>ks_addrBuffer := A\<rparr>) = pending s"
  "pending (s\<lparr>ks_subnetBuffer := B\<rparr>) = pending s"
  by (simp_all add: tables_ok_def timers_ok_def buf_dst_def pending_def info_core_def fun_eq_iff)

lemma ks_inv_file_addr:
  assumes "ks_inv nd s" and "pkt_dst bs = addr"
  shows "ks_inv nd (file_addr addr bs s)"
proof -
  have ok: "tables_ok nd s" "buffers_ok s" "timers_ok s" "entries_pending s"
    using assms(1) by (simp_all add: ks_inv_def)
  obtain b tm t n where eq: "file_addr addr bs s =
      (put_buffer b tm t n (ExpireAddrBuffer addr b) bs s)\<lparr>ks_addrBuffer := (ks_addrBuffer s)(addr \<mapsto> b)\<rparr>"
    and slot: "buffer_slot s b tm" "ks_next s \<le> t" "t < n" "b < n"
    and b: "ks_addrBuffer s addr = Some b \<or> ks_next s \<le> b"
    using file_addr_shape [OF ok(2)] by blast
  have own: "a = addr" if "ks_addrBuffer s a = Some b" for a
    using that b ok(2) unfolding buffers_ok_def by (metis not_less option.inject)
  have no_subnet: "ks_subnetBuffer s m \<noteq> Some b" for m
    using b ok(2) unfolding buffers_ok_def by (metis not_less)
  have "buffers_ok (file_addr addr bs s)"
    using ok(2) own no_subnet slot assms(2) unfolding eq buffers_ok_def by simp (metis less_le_trans less_trans)
  moreover have "entries_pending (file_addr addr bs s)"
    using ok(4) no_subnet unfolding eq entries_pending_def
    by (auto simp: pending_put_new intro!: pending_put [OF ok(3) slot(1,2)] dest: own)
  ultimately show ?thesis
    using tables_ok_put [OF ok(1)] timers_ok_put [OF ok(3) _ slot(2,3)] slot(2,3)
    unfolding ks_inv_def eq by simp
qed

lemma ks_inv_file_subnet:
  assumes "ks_inv nd s" and "take 8 (pkt_dst bs) = subnet"
  shows "ks_inv nd (file_subnet subnet bs s)"
proof -
  have ok: "tables_ok nd s" "buffers_ok s" "timers_ok s" "entries_pending s"
    using assms(1) by (simp_all add: ks_inv_def)
  obtain b tm t n where eq: "file_subnet subnet bs s =
      (put_buffer b tm t n (ExpireSubnetBuffer subnet b) bs s)\<lparr>ks_subnetBuffer := (ks_subnetBuffer s)(subnet \<mapsto> b)\<rparr>"
    and slot: "buffer_slot s b tm" "ks_next s \<le> t" "t < n" "b < n"
    and b: "ks_subnetBuffer s subnet = Some b \<or> ks_next s \<le> b"
    using file_subnet_shape [OF ok(2)] by blast
  have own: "m = subnet" if "ks_subnetBuffer s m = Some b" for m
    using that b ok(2) unfolding buffers_ok_def by (metis not_less option.inject)
  have no_addr: "ks_addrBuffer s a \<noteq> Some b" for a
    using b ok(2) unfolding buffers_ok_def by (metis not_less)
  have "buffers_ok (file_subnet subnet bs s)"
    using ok(2) own no_addr slot assms(2) unfolding eq buffers_ok_def by simp (metis less_le_trans less_trans)
  moreover have "entries_pending (file_subnet subnet bs s)"
    using ok(4) no_addr unfolding eq entries_pending_def
    by (auto simp: pending_put_new intro!: pending_put [OF ok(3) slot(1,2)] dest: own)
  ultimately show ?thesis
    using tables_ok_put [OF ok(1)] timers_ok_put [OF ok(3) _ slot(2,3)] slot(2,3)
    unfolding ks_inv_def eq by simp
qed


section \<open>What is sent\<close>

text \<open>A node owns the destination of a packet when its key derives the destination's address, or the
  subnet the destination lies in.\<close>

definition owner :: "network_domain \<Rightarrow> bytes \<Rightarrow> bytes \<Rightarrow> bool" where
  "owner nd key dst \<longleftrightarrow>
     AddrForKey nd key = Ret (Some dst) \<or> SubnetForKey nd key = Ret (Some (take 8 dst))"

definition sent_ok :: "network_domain \<Rightarrow> ks_out \<Rightarrow> bool" where
  "sent_ok nd out = (case out of SendPacket pkt key \<Rightarrow> owner nd key (pkt_dst pkt) | SendOutOfBand _ _ \<Rightarrow> True)"

lemma sent_ok_simps [simp]:
  "sent_ok nd (SendPacket pkt key) = owner nd key (pkt_dst pkt)"
  "sent_ok nd (SendOutOfBand data key)"
  "sent_ok nd (sendKeyLookup sign partial)"
  "sent_ok nd (sendKeyResponse sign dest)"
  by (simp_all add: sent_ok_def sendKeyLookup_def sendKeyResponse_def)

lemma addr_entry:
  assumes "ks_inv nd s" and "ks_addrToInfo s a = Some p"
  shows "AddrForKey nd (info_key s p) = Ret (Some a)"
proof -
  obtain k n where c: "info_core s p = Some (k, a, n)"
    using assms unfolding ks_inv_def tables_ok_def by blast
  then have "derived nd (k, a, n)" using assms unfolding ks_inv_def tables_ok_def by blast
  then show ?thesis using c by (auto simp: derived_def info_core_def info_key_def)
qed

lemma subnet_entry:
  assumes "ks_inv nd s" and "ks_subnetToInfo s n = Some p"
  shows "SubnetForKey nd (info_key s p) = Ret (Some n)"
proof -
  obtain k a where c: "info_core s p = Some (k, a, n)"
    using assms unfolding ks_inv_def tables_ok_def by blast
  then have "derived nd (k, a, n)" using assms unfolding ks_inv_def tables_ok_def by blast
  then show ?thesis using c by (auto simp: derived_def info_core_def info_key_def)
qed

lemma sendToAddress_ok:
  assumes "ks_inv nd s" and "pkt_dst bs = addr" and "sendToAddress nd sign addr bs s = Ret (s', outs)"
  shows "ks_inv nd s' \<and> list_all (sent_ok nd) outs"
  using assms addr_entry [OF assms(1)] ks_inv_reset [OF assms(1)] ks_inv_file_addr [OF assms(1,2)]
  by (auto simp: sendToAddress_eq owner_def go_simps split: option.splits)

lemma sendToSubnet_ok:
  assumes "ks_inv nd s" and "take 8 (pkt_dst bs) = subnet" and "sendToSubnet nd sign subnet bs s = Ret (s', outs)"
  shows "ks_inv nd s' \<and> list_all (sent_ok nd) outs"
  using assms subnet_entry [OF assms(1)] ks_inv_reset [OF assms(1)] ks_inv_file_subnet [OF assms(1,2)]
  by (auto simp: sendToSubnet_eq owner_def go_simps split: option.splits)

section \<open>Learning a key\<close>

definition learn :: "bytes \<Rightarrow> bytes \<Rightarrow> bytes \<Rightarrow> key_store \<Rightarrow> key_store" where
  "learn k a n s =
     s\<lparr>ks_infos := (ks_infos s)(ks_next s \<mapsto> \<lparr>ki_key = k, ki_address = a, ki_subnet = n, ki_timeout = None\<rparr>),
       ks_next := ks_next s + 1,
       ks_keyToInfo := (ks_keyToInfo s)(k \<mapsto> ks_next s),
       ks_addrToInfo := (ks_addrToInfo s)(a \<mapsto> ks_next s),
       ks_subnetToInfo := (ks_subnetToInfo s)(n \<mapsto> ks_next s),
       ks_addrBuffer := (ks_addrBuffer s)(a := None),
       ks_subnetBuffer := (ks_subnetBuffer s)(n := None)\<rparr>"

definition waiting :: "key_store \<Rightarrow> nat option \<Rightarrow> bytes list" where
  "waiting s slot = (case slot of None \<Rightarrow> []
     | Some b \<Rightarrow> (case ks_buffers s b of None \<Rightarrow> [] | Some buf \<Rightarrow> [pb_packet buf]))"

lemma update_eq:
  "update nd key s =
     (let k = go_copy (replicate 32 0) key in
      case ks_keyToInfo s k of
        Some p \<Rightarrow> Ret (p, resetTimeout p s, [])
      | None \<Rightarrow> bind_outcome (deref (AddrForKey nd k)) (\<lambda>a. bind_outcome (deref (SubnetForKey nd k)) (\<lambda>n.
          Ret (ks_next s, resetTimeout (ks_next s) (learn k a n s),
               map (\<lambda>packet. SendPacket packet k)
                 (waiting s (ks_addrBuffer s a) @ waiting s (ks_subnetBuffer s n))))))"
proof -
  have step: "(let (p, s) = new_info \<lparr>ki_key = k, ki_address = a, ki_subnet = n, ki_timeout = None\<rparr> s;
               s = s\<lparr>ks_keyToInfo := (ks_keyToInfo s)(k \<mapsto> p)\<rparr>;
               s = s\<lparr>ks_addrToInfo := (ks_addrToInfo s)(a \<mapsto> p)\<rparr>;
               s = s\<lparr>ks_subnetToInfo := (ks_subnetToInfo s)(n \<mapsto> p)\<rparr>;
               (packets1, s) = take_addrBuffer a s;
               (packets2, s) = take_subnetBuffer n s;
               s = resetTimeout p s
           in Ret (p, s, map (\<lambda>packet. SendPacket packet k) (packets1 @ packets2)))
      = Ret (ks_next s, resetTimeout (ks_next s) (learn k a n s),
             map (\<lambda>packet. SendPacket packet k)
               (waiting s (ks_addrBuffer s a) @ waiting s (ks_subnetBuffer s n)))" for k a n
    by (cases "ks_addrBuffer s a"; cases "ks_subnetBuffer s n")
      (simp_all add: learn_def waiting_def new_info_def take_addrBuffer_def take_subnetBuffer_def
        Let_def fun_upd_idem)
  show ?thesis
    unfolding update_def Let_def [of "go_copy (replicate 32 0) key"] step ..
qed

lemma deref_Ret [simp]: "deref r = Ret x \<longleftrightarrow> r = Ret (Some x)"
  by (auto simp: deref_def go_simps split: option.splits)

lemma learn_fields [simp]:
  "ks_next (learn k a n s) = ks_next s + 1"
  "ks_keyToInfo (learn k a n s) = (ks_keyToInfo s)(k \<mapsto> ks_next s)"
  "ks_addrToInfo (learn k a n s) = (ks_addrToInfo s)(a \<mapsto> ks_next s)"
  "ks_subnetToInfo (learn k a n s) = (ks_subnetToInfo s)(n \<mapsto> ks_next s)"
  "ks_addrBuffer (learn k a n s) = (ks_addrBuffer s)(a := None)"
  "ks_subnetBuffer (learn k a n s) = (ks_subnetBuffer s)(n := None)"
  "ks_buffers (learn k a n s) = ks_buffers s"
  "ks_timers (learn k a n s) = ks_timers s"
  "ks_fired (learn k a n s) = ks_fired s"
  "ks_address (learn k a n s) = ks_address s"
  "ks_subnet (learn k a n s) = ks_subnet s"
  "ks_mtu (learn k a n s) = ks_mtu s"
  "buf_dst (learn k a n s) = buf_dst s"
  "pending (learn k a n s) = pending s"
  by (simp_all add: learn_def buf_dst_def pending_def fun_eq_iff)

lemma info_core_learn [simp]:
  "info_core (learn k a n s) p = (if p = ks_next s then Some (k, a, n) else info_core s p)"
  by (simp add: info_core_def learn_def)

lemma ks_inv_learn:
  assumes "ks_inv nd s" and "derived nd (k, a, n)"
  shows "ks_inv nd (resetTimeout (ks_next s) (learn k a n s))"
proof -
  have ok: "tables_ok nd s" "buffers_ok s" "timers_ok s" "entries_pending s"
    using assms(1) by (simp_all add: ks_inv_def)
  have "info_core s p = Some c \<Longrightarrow> p \<noteq> ks_next s" for p c
    using ok(1) unfolding tables_ok_def by blast
  then have old: "ks_keyToInfo s k' \<noteq> Some (ks_next s)" "ks_addrToInfo s a' \<noteq> Some (ks_next s)"
    "ks_subnetToInfo s n' \<noteq> Some (ks_next s)" for k' a' n'
    using ok(1) unfolding tables_ok_def by blast+
  have t: "tables_ok nd (learn k a n s)"
    using ok(1) assms(2) old unfolding tables_ok_def by (auto simp: less_Suc_eq)
  have b: "buffers_ok (learn k a n s)"
    using ok(2) unfolding buffers_ok_def by (auto simp: less_Suc_eq)
  have m: "timers_ok (learn k a n s)"
    using ok(3) unfolding timers_ok_def by (auto simp: learn_def less_Suc_eq split: if_splits)
  obtain i where "ks_infos (learn k a n s) (ks_next s) = Some i" by (simp add: learn_def)
  then have "pending (resetTimeout (ks_next s) (learn k a n s)) (ExpireInfo (ks_next s))"
    by (rule pending_after_reset)
  then have "entries_pending (resetTimeout (ks_next s) (learn k a n s))"
    using ok(4) unfolding entries_pending_def by (auto intro!: pending_reset [OF m])
  then show ?thesis
    by (simp add: ks_inv_def tables_ok_reset [OF t] buffers_ok_reset [OF b] timers_ok_reset [OF m])
qed

lemma waiting_dst:
  assumes "ks_inv nd s" and "packet \<in> set (waiting s (ks_addrBuffer s a) @ waiting s (ks_subnetBuffer s n))"
  shows "pkt_dst packet = a \<or> take 8 (pkt_dst packet) = n"
proof -
  have "ks_addrBuffer s a = Some b \<Longrightarrow> buf_dst s b = Some a" for b
    using assms(1) by (simp add: ks_inv_def buffers_ok_def)
  moreover have "ks_subnetBuffer s n = Some b \<Longrightarrow> \<exists>d. buf_dst s b = Some d \<and> take 8 d = n" for b
    using assms(1) by (simp add: ks_inv_def buffers_ok_def)
  ultimately show ?thesis
    using assms(2) by (cases "ks_addrBuffer s a"; cases "ks_subnetBuffer s n")
      (auto simp: waiting_def buf_dst_def split: option.splits)
qed

lemma update_ok:
  assumes "ks_inv nd s" and "update nd key s = Ret (p, s', outs)"
  shows "ks_inv nd s' \<and> list_all (sent_ok nd) outs"
proof (cases "ks_keyToInfo s (go_copy (replicate 32 0) key)")
  case None
  then obtain a n where an: "AddrForKey nd (go_copy (replicate 32 0) key) = Ret (Some a)"
      "SubnetForKey nd (go_copy (replicate 32 0) key) = Ret (Some n)"
    and s': "s' = resetTimeout (ks_next s) (learn (go_copy (replicate 32 0) key) a n s)"
    and outs: "outs = map (\<lambda>packet. SendPacket packet (go_copy (replicate 32 0) key))
       (waiting s (ks_addrBuffer s a) @ waiting s (ks_subnetBuffer s n))"
    using assms(2) by (auto simp: update_eq Let_def go_simps)
  have "ks_inv nd s'"
    unfolding s' by (rule ks_inv_learn [OF assms(1)]) (simp add: derived_def an)
  then show ?thesis
    using an by (auto simp: outs list_all_iff owner_def simp del: set_append map_append
        dest: waiting_dst [OF assms(1)])
qed (use assms in \<open>auto simp: update_eq Let_def intro: ks_inv_reset\<close>)

end
