(* ===== verification/Key_Store_Runs.thy ===== *)
theory Key_Store_Runs
  imports Key_Store_Safety
begin

text \<open>
  Runs of the key store: packets from the local side (\<open>writePC\<close>), packets and out-of-band messages
  from the network, changes of the MTU, and timers that fire, in any order.  The invariant of
  Key_Store_Safety holds in every reachable state, and with it the properties of the store.
\<close>

section \<open>The entry points keep the invariant\<close>

lemma take_8_pkt_dst: "40 \<le> length bs \<Longrightarrow> take 8 (pkt_dst bs) = go_copy (replicate 8 0) (drop 24 bs)"
  by (simp add: pkt_dst_def go_copy_def)

lemma pkt_fields:
  "40 \<le> length bs \<Longrightarrow> go_copy (replicate 16 0) (drop 8 bs) = pkt_src bs"
  "40 \<le> length bs \<Longrightarrow> go_copy (replicate 16 0) (drop 24 bs) = pkt_dst bs"
  "40 \<le> length bs \<Longrightarrow> go_copy (replicate 8 0) (drop 8 bs) = take 8 (pkt_src bs)"
  "40 \<le> length bs \<Longrightarrow> go_copy (replicate 8 0) (drop 24 bs) = take 8 (pkt_dst bs)"
  by (simp_all add: pkt_src_def pkt_dst_def go_copy_def)

text \<open>\<open>writePC\<close> with its copies read as the address fields of the packet.\<close>

definition well_formed :: "bytes \<Rightarrow> bool" where
  "well_formed bs \<longleftrightarrow> 40 \<le> length bs \<and> bs ! 0 AND 0xf0 = 0x60"

definition local_end :: "key_store \<Rightarrow> bytes \<Rightarrow> bool" where
  "local_end s a \<longleftrightarrow> a = ks_address s \<or> take 8 a = ks_subnet s"

lemma well_formed_nonempty [simp]: "well_formed bs \<Longrightarrow> bs \<noteq> []"
  by (auto simp: well_formed_def)

lemma writePC_sends:
  assumes "well_formed bs" and "local_end s (pkt_src bs)"
  shows "writePC nd sign bs s =
     bind_outcome (IsValidAddress nd (pkt_dst bs)) (\<lambda>a.
       if a then bind_outcome (sendToAddress nd sign (pkt_dst bs) bs s) (\<lambda>(s, outs). Ret (Written (length bs), s, outs))
       else bind_outcome (IsValidSubnet nd (take 8 (pkt_dst bs))) (\<lambda>n.
         if n then bind_outcome (sendToSubnet nd sign (take 8 (pkt_dst bs)) bs s) (\<lambda>(s, outs). Ret (Written (length bs), s, outs))
         else Ret (InvalidDestination, s, [])))"
proof -
  have "40 \<le> length bs" using assms(1) by (simp add: well_formed_def)
  note F = pkt_fields [OF this]
  show ?thesis
    using assms unfolding writePC_def Let_def F well_formed_def local_end_def by auto
qed

lemma writePC_refuses:
  assumes "\<not> (well_formed bs \<and> local_end s (pkt_src bs))" and "writePC nd sign bs s = Ret (r, s', outs)"
  shows "s' = s \<and> outs = [] \<and> (\<forall>n. r \<noteq> Written n)"
  using assms unfolding writePC_def Let_def well_formed_def local_end_def
  by (auto simp: pkt_fields split: if_splits)

lemma writePC_ok:
  assumes "ks_inv nd s" and "writePC nd sign bs s = Ret (r, s', outs)"
  shows "ks_inv nd s' \<and> list_all (sent_ok nd) outs"
proof (cases "well_formed bs \<and> local_end s (pkt_src bs)")
  case True
  then show ?thesis
    using assms(2) sendToAddress_ok [OF assms(1) refl] sendToSubnet_ok [OF assms(1) refl] assms(1)
    by (auto simp: writePC_sends go_simps split: if_splits)
next
  case False
  then show ?thesis using writePC_refuses [OF False assms(2)] assms(1) by simp
qed

lemma readPC_packet_ok:
  assumes "ks_inv nd s" and "readPC_packet nd sign marshal src bs s = Ret (r, s', outs)"
  shows "ks_inv nd s' \<and> list_all (sent_ok nd) outs"
  using assms(2) assms(1) unfolding readPC_packet_def Let_def
  by (auto simp: go_simps split: if_splits option.splits
      dest: writePC_ok [OF assms(1)] update_ok [OF assms(1)])

lemma readPC_ok:
  "ks_inv nd s \<Longrightarrow> readPC nd sign marshal p es s = Ret (r, s', outs) \<Longrightarrow> ks_inv nd s' \<and> list_all (sent_ok nd) outs"
proof (induction nd sign marshal p es s arbitrary: r s' outs rule: readPC.induct)
  case (3 nd sign marshal p src bs rest s)
  obtain x where "readPC_packet nd sign marshal src bs s = Ret x"
    using "3.prems"(2) by (cases "readPC_packet nd sign marshal src bs s") simp_all
  then obtain r1 s1 outs1 where one: "readPC_packet nd sign marshal src bs s = Ret (r1, s1, outs1)"
    by (cases x) blast
  then have ok: "ks_inv nd s1" "list_all (sent_ok nd) outs1"
    using readPC_packet_ok [OF "3.prems"(1)] by blast+
  show ?case
  proof (cases r1)
    case None
    then obtain outs2 where "readPC nd sign marshal p rest s1 = Ret (r, s', outs2)" "outs = outs1 @ outs2"
      using "3.prems"(2) one by (auto simp: go_simps)
    then show ?thesis using "3.IH" [OF refl ok(1)] ok(2) by auto
  next
    case (Some x)
    then show ?thesis using "3.prems"(2) one ok by auto
  qed
qed auto

lemma oobHandler_ok:
  assumes "ks_inv nd s" and "oobHandler nd sign verify fromKey toKey data s = Ret (s', outs)"
  shows "ks_inv nd s' \<and> list_all (sent_ok nd) outs"
  using assms(2) assms(1) unfolding oobHandler_def ed25519_Verify_def Let_def
  by (auto simp: go_simps split: if_splits dest: update_ok [OF assms(1)])

lemma ks_inv_mtu: "ks_inv nd s \<Longrightarrow> ks_inv nd (s\<lparr>ks_mtu := m\<rparr>)"
  by (simp add: ks_inv_defs info_core_def buf_dst_def pending_def)

section \<open>Timers\<close>

text \<open>A timer that fires becomes a function that waits for the mutex; one that waits runs.\<close>

definition fire :: "nat \<Rightarrow> key_store \<Rightarrow> key_store" where
  "fire t s = (case ks_timers s t of None \<Rightarrow> s
     | Some f \<Rightarrow> s\<lparr>ks_timers := (ks_timers s)(t := None), ks_fired := ks_fired s @ [f]\<rparr>)"

definition run_fired :: "nat \<Rightarrow> key_store \<Rightarrow> key_store" where
  "run_fired i s =
     (if i < length (ks_fired s)
      then run_timer (ks_fired s ! i) (s\<lparr>ks_fired := take i (ks_fired s) @ drop (Suc i) (ks_fired s)\<rparr>)
      else s)"

lemma ks_inv_fire:
  assumes "ks_inv nd s"
  shows "ks_inv nd (fire t s)"
proof (cases "ks_timers s t")
  case (Some f)
  have "pending (fire t s) = pending s"
  proof
    show "pending (fire t s) g = pending s g" for g
      using Some by (cases "g = f") (auto simp: fire_def pending_def, metis option.inject)
  qed
  then show ?thesis
    using assms Some by (auto simp: ks_inv_defs fire_def info_core_def buf_dst_def)
qed (use assms in \<open>simp add: fire_def\<close>)


interpretation addr_buffers: expiring_table ks_addrBuffer expire_addrBuffer
  by unfold_locales (auto simp: expire_addrBuffer_def)

interpretation subnet_buffers: expiring_table ks_subnetBuffer expire_subnetBuffer
  by unfold_locales (auto simp: expire_subnetBuffer_def)

lemma expire_info_fields [simp]:
  "ks_addrBuffer (expire_info p s) = ks_addrBuffer s"
  "ks_subnetBuffer (expire_info p s) = ks_subnetBuffer s"
  "ks_infos (expire_info p s) = ks_infos s"
  "ks_buffers (expire_info p s) = ks_buffers s"
  "ks_timers (expire_info p s) = ks_timers s"
  "ks_fired (expire_info p s) = ks_fired s"
  "ks_next (expire_info p s) = ks_next s"
  by (simp_all add: expire_info_def Let_def split: option.splits)

lemma expire_info_sub:
  "ks_keyToInfo (expire_info p s) k = Some q \<Longrightarrow> ks_keyToInfo s k = Some q"
  "ks_addrToInfo (expire_info p s) a = Some q \<Longrightarrow> ks_addrToInfo s a = Some q"
  "ks_subnetToInfo (expire_info p s) n = Some q \<Longrightarrow> ks_subnetToInfo s n = Some q"
  by (auto simp: expire_info_def Let_def split: option.splits if_splits)

lemma expire_info_gone:
  assumes "tables_ok nd s"
  shows "ks_keyToInfo (expire_info p s) k \<noteq> Some p"
    and "ks_addrToInfo (expire_info p s) a \<noteq> Some p"
    and "ks_subnetToInfo (expire_info p s) n \<noteq> Some p"
proof -
  have "ks_keyToInfo s k = Some p \<Longrightarrow> \<exists>i. ks_infos s p = Some i \<and> ki_key i = k"
    and "ks_addrToInfo s a = Some p \<Longrightarrow> \<exists>i. ks_infos s p = Some i \<and> ki_address i = a"
    and "ks_subnetToInfo s n = Some p \<Longrightarrow> \<exists>i. ks_infos s p = Some i \<and> ki_subnet i = n"
    using assms by (fastforce simp: tables_ok_def info_core_def)+
  then show "ks_keyToInfo (expire_info p s) k \<noteq> Some p"
    and "ks_addrToInfo (expire_info p s) a \<noteq> Some p"
    and "ks_subnetToInfo (expire_info p s) n \<noteq> Some p"
    by (auto simp: expire_info_def Let_def split: option.splits)
qed

lemma run_timer_fields [simp]:
  "ks_infos (run_timer f s) = ks_infos s"
  "ks_buffers (run_timer f s) = ks_buffers s"
  "ks_timers (run_timer f s) = ks_timers s"
  "ks_fired (run_timer f s) = ks_fired s"
  "ks_next (run_timer f s) = ks_next s"
  by (cases f; simp add: expire_addrBuffer_def expire_subnetBuffer_def)+

lemma run_timer_sub:
  "ks_keyToInfo (run_timer f s) k = Some q \<Longrightarrow> ks_keyToInfo s k = Some q"
  "ks_addrToInfo (run_timer f s) a = Some q \<Longrightarrow> ks_addrToInfo s a = Some q"
  "ks_subnetToInfo (run_timer f s) n = Some q \<Longrightarrow> ks_subnetToInfo s n = Some q"
  "ks_addrBuffer (run_timer f s) a = Some q \<Longrightarrow> ks_addrBuffer s a = Some q"
  "ks_subnetBuffer (run_timer f s) n = Some q \<Longrightarrow> ks_subnetBuffer s n = Some q"
  by (cases f; auto dest: expire_info_sub
      simp: expire_addrBuffer_def expire_subnetBuffer_def split: if_splits)+

text \<open>An entry belongs to a timer function when the function removes it.\<close>

definition entry_of :: "key_store \<Rightarrow> timer_fun \<Rightarrow> bool" where
  "entry_of s f = (case f of
       ExpireInfo p \<Rightarrow> (\<exists>k. ks_keyToInfo s k = Some p) \<or> (\<exists>a. ks_addrToInfo s a = Some p)
                      \<or> (\<exists>n. ks_subnetToInfo s n = Some p)
     | ExpireAddrBuffer a b \<Rightarrow> ks_addrBuffer s a = Some b
     | ExpireSubnetBuffer n b \<Rightarrow> ks_subnetBuffer s n = Some b)"

lemma entries_pending_iff: "entries_pending s \<longleftrightarrow> (\<forall>f. entry_of s f \<longrightarrow> pending s f)"
proof
  assume "entries_pending s"
  then show "\<forall>f. entry_of s f \<longrightarrow> pending s f"
    by (auto simp: entries_pending_def entry_of_def split: timer_fun.splits)
next
  assume *: "\<forall>f. entry_of s f \<longrightarrow> pending s f"
  show "entries_pending s"
    using *[rule_format, of "ExpireInfo p" for p] *[rule_format, of "ExpireAddrBuffer a b" for a b]
      *[rule_format, of "ExpireSubnetBuffer n b" for n b]
    unfolding entries_pending_def by (auto simp: entry_of_def)
qed

lemma run_timer_entry: "entry_of (run_timer f s) g \<Longrightarrow> entry_of s g"
  by (auto simp: entry_of_def dest: run_timer_sub split: timer_fun.splits)

lemma run_timer_gone: "tables_ok nd s \<Longrightarrow> \<not> entry_of (run_timer f s) f"
  by (cases f) (simp_all add: entry_of_def expire_info_gone addr_buffers.expire_gone
      subnet_buffers.expire_gone)

lemma tables_ok_run: "tables_ok nd s \<Longrightarrow> tables_ok nd (run_timer f s)"
  unfolding tables_ok_def info_core_def by (simp, meson run_timer_sub)

lemma buffers_ok_run: "buffers_ok s \<Longrightarrow> buffers_ok (run_timer f s)"
  unfolding buffers_ok_def buf_dst_def by (simp, meson run_timer_sub)

lemma timers_ok_run: "timers_ok s \<Longrightarrow> timers_ok (run_timer f s)"
  by (simp add: timers_ok_def)

lemma ks_inv_run_fired:
  assumes "ks_inv nd s"
  shows "ks_inv nd (run_fired i s)"
proof (cases "i < length (ks_fired s)")
  case True
  define f where "f = ks_fired s ! i"
  define s0 where "s0 = s\<lparr>ks_fired := take i (ks_fired s) @ drop (Suc i) (ks_fired s)\<rparr>"
  have run: "run_fired i s = run_timer f s0"
    using True by (simp add: run_fired_def f_def s0_def)
  have ok: "tables_ok nd s0" "buffers_ok s0" "timers_ok s0"
    using assms by (simp_all add: ks_inv_def tables_ok_def buffers_ok_def timers_ok_def s0_def
        info_core_def buf_dst_def)
  have "set (ks_fired s) = insert f (set (ks_fired s0))"
    using id_take_nth_drop [OF True] by (simp add: s0_def f_def) (metis set_append list.set(2) Un_insert_right)
  then have pend: "pending s g \<Longrightarrow> g \<noteq> f \<Longrightarrow> pending s0 g" for g
    by (auto simp: pending_def s0_def)
  have "pending (run_timer f s0) g" if g: "entry_of (run_timer f s0) g" for g
  proof -
    have "g \<noteq> f" using g run_timer_gone [OF ok(1)] by blast
    moreover have "entry_of s g"
      using run_timer_entry [OF g] by (simp add: entry_of_def s0_def split: timer_fun.splits)
    ultimately show ?thesis
      using assms pend by (simp add: ks_inv_def entries_pending_iff pending_def)
  qed
  then show ?thesis
    unfolding run ks_inv_def entries_pending_iff
    using ok tables_ok_run buffers_ok_run timers_ok_run by blast
qed (use assms in \<open>simp add: run_fired_def\<close>)


section \<open>The transition system\<close>

text \<open>What the store is given: the network, this node's signature, the verification of signatures, the
  marshaller of ICMPv6 messages and the largest MTU.  The calls that can happen from outside.\<close>

record ks_env =
  ke_nd :: network_domain
  ke_sign :: "bytes \<Rightarrow> bytes"
  ke_verify :: "bytes \<Rightarrow> bytes \<Rightarrow> bytes \<Rightarrow> bool"
  ke_marshal :: ptb_marshal
  ke_maxMTU :: "64 word"

datatype ks_event = LocalWrite bytes | NetRead bytes bytes | OobMessage bytes bytes bytes | MtuSet "64 word"

fun ks_apply :: "ks_env \<Rightarrow> ks_event \<Rightarrow> key_store \<Rightarrow> (key_store \<times> ks_out list) outcome" where
  "ks_apply env (LocalWrite bs) s =
     bind_outcome (writePC (ke_nd env) (ke_sign env) bs s) (\<lambda>(r, s, outs). Ret (s, outs))"
| "ks_apply env (NetRead src bs) s =
     bind_outcome (readPC_packet (ke_nd env) (ke_sign env) (ke_marshal env) src bs s)
       (\<lambda>(r, s, outs). Ret (s, outs))"
| "ks_apply env (OobMessage fromKey toKey data) s =
     oobHandler (ke_nd env) (ke_sign env) (ke_verify env) fromKey toKey data s"
| "ks_apply env (MtuSet mtu) s = Ret (SetMTU (ke_maxMTU env) mtu s, [])"

type_synonym ks_state = "key_store \<times> ks_out list"

inductive ks_step :: "ks_env \<Rightarrow> ks_state \<Rightarrow> ks_state \<Rightarrow> bool" for env where
  step_call: "ks_apply env e s = Ret (s', outs) \<Longrightarrow> ks_step env (s, log) (s', log @ outs)"
| step_fire: "ks_step env (s, log) (fire t s, log)"
| step_run: "ks_step env (s, log) (run_fired i s, log)"

text \<open>A run starts with a store that \<open>init\<close> returned, so the session layer took its handler.\<close>

definition ks_start :: "ks_env \<Rightarrow> bytes \<Rightarrow> ks_state \<Rightarrow> bool" where
  "ks_start env public st \<longleftrightarrow> (\<exists>oobSet. ks_init (ke_nd env) oobSet public = Ret (fst st)) \<and> snd st = []"

lemma ks_init_set: "ks_init nd oobSet public = Ret s \<Longrightarrow> oobSet"
  by (auto simp: ks_init_def go_simps split: if_splits)

definition ks_ok :: "ks_env \<Rightarrow> ks_state \<Rightarrow> bool" where
  "ks_ok env st \<longleftrightarrow> ks_inv (ke_nd env) (fst st) \<and> list_all (sent_ok (ke_nd env)) (snd st)"

lemma ks_apply_ok:
  assumes "ks_inv (ke_nd env) s" and "ks_apply env e s = Ret (s', outs)"
  shows "ks_inv (ke_nd env) s' \<and> list_all (sent_ok (ke_nd env)) outs"
proof (cases e)
  case (LocalWrite bs)
  then show ?thesis using assms by (auto simp: go_simps dest: writePC_ok)
next
  case (NetRead src bs)
  then show ?thesis using assms by (auto simp: go_simps dest: readPC_packet_ok)
next
  case (OobMessage fromKey toKey data)
  then show ?thesis using assms by (auto dest: oobHandler_ok)
next
  case (MtuSet mtu)
  then show ?thesis using assms by (auto simp: SetMTU_def Let_def ks_inv_mtu)
qed

lemma ks_inv_init: "ks_init nd oobSet public = Ret s \<Longrightarrow> ks_inv nd s"
  by (frule ks_init_set) (auto simp: ks_init_def go_simps ks_inv_defs info_core_def buf_dst_def)

interpretation key_store_runs: invariant_system "ks_start env public" "ks_step env" "ks_ok env"
  for env public
proof unfold_locales
  fix st assume "ks_start env public st"
  then show "ks_ok env st" by (cases st) (auto simp: ks_start_def ks_ok_def intro: ks_inv_init)
next
  fix st st' assume st: "ks_ok env st"
  assume "ks_step env st st'"
  then show "ks_ok env st'"
    using st by (cases rule: ks_step.cases)
      (auto simp: ks_ok_def ks_inv_fire ks_inv_run_fired dest: ks_apply_ok)
qed


section \<open>Looking a key up\<close>

lemma waiting_file_addr:
  assumes "buffers_ok s"
  shows "waiting (file_addr a bs s) (ks_addrBuffer (file_addr a bs s) a) = [bs]"
    and "ks_addrToInfo (file_addr a bs s) = ks_addrToInfo s"
    and "ks_keyToInfo (file_addr a bs s) = ks_keyToInfo s"
    and "ks_subnetBuffer (file_addr a bs s) = ks_subnetBuffer s"
proof -
  obtain b tm t n where eq: "file_addr a bs s =
      (put_buffer b tm t n (ExpireAddrBuffer a b) bs s)\<lparr>ks_addrBuffer := (ks_addrBuffer s)(a \<mapsto> b)\<rparr>"
    by (rule file_addr_shape [OF assms, of a bs])
  show "waiting (file_addr a bs s) (ks_addrBuffer (file_addr a bs s) a) = [bs]"
    and "ks_addrToInfo (file_addr a bs s) = ks_addrToInfo s"
    and "ks_keyToInfo (file_addr a bs s) = ks_keyToInfo s"
    and "ks_subnetBuffer (file_addr a bs s) = ks_subnetBuffer s"
    unfolding eq by (simp_all add: waiting_def put_buffer_def)
qed

lemma addr_in_range: "AddrForKey nd key = Ret (Some a) \<Longrightarrow> IsValidAddress nd a = Ret True"
  by (auto dest!: AddrForKey_SomeD simp: IsValidAddress_def addr_of_bits_def)

text \<open>A packet to an address whose owner is not known: it is filed, and the lookup goes to a key that
  lies in the owner's subnet.\<close>

lemma write_unknown:
  assumes "well_formed bs" and "local_end s (pkt_src bs)" and "ks_addrToInfo s (pkt_dst bs) = None"
    and "AddrForKey nd key = Ret (Some (pkt_dst bs))"
  obtains partial n where "writePC nd sign bs s =
      Ret (Written (length bs), file_addr (pkt_dst bs) bs s, [sendKeyLookup sign partial])"
    and "SubnetForKey nd partial = Ret (Some n)" and "SubnetForKey nd key = Ret (Some n)"
proof -
  obtain partial n where k: "GetAddressKey nd (pkt_dst bs) = Ret partial"
      "SubnetForKey nd partial = Ret (Some n)" "SubnetForKey nd key = Ret (Some n)"
    by (rule overlay.lookup_by_addr [OF assms(4)])
  then have "writePC nd sign bs s =
      Ret (Written (length bs), file_addr (pkt_dst bs) bs s, [sendKeyLookup sign partial])"
    unfolding writePC_sends [OF assms(1,2)] addr_in_range [OF assms(4)]
    by (simp add: sendToAddress_eq assms(3))
  then show ?thesis using that k by blast
qed

text \<open>The owner answers a lookup for a key of its own subnet.\<close>

lemma lookup_answered:
  assumes "length sig = 64" and "ed25519_Verify verify fromKey toKey sig = Ret True"
    and "SubnetForKey nd toKey = Ret (Some (ks_subnet s))"
  shows "oobHandler nd sign verify fromKey toKey (typeKeyLookup # sig) s =
     Ret (s, [sendKeyResponse sign fromKey])"
  using assms by (simp add: oobHandler_def deref_def)

text \<open>A verified response teaches the key, and releases what waits for it.\<close>

lemma response_learnt:
  assumes "length sig = 64" and "ed25519_Verify verify key toKey sig = Ret True" and "length key = 32"
    and "ks_keyToInfo s key = None"
    and "AddrForKey nd key = Ret (Some a)" and "SubnetForKey nd key = Ret (Some n)"
  shows "oobHandler nd sign verify key toKey (typeKeyResponse # sig) s =
     Ret (resetTimeout (ks_next s) (learn key a n s),
          map (\<lambda>packet. SendPacket packet key) (waiting s (ks_addrBuffer s a) @ waiting s (ks_subnetBuffer s n)))"
  using assms by (simp add: oobHandler_def key_types update_eq deref_def)

lemma info_key_learn: "info_key (resetTimeout (ks_next s) (learn k a n s)) (ks_next s) = k"
proof -
  have "info_core (resetTimeout (ks_next s) (learn k a n s)) (ks_next s) = Some (k, a, n)" by simp
  then show ?thesis unfolding info_core_def info_key_def by (auto split: option.splits)
qed

section \<open>A concrete node for the examples\<close>

definition own_key :: bytes where "own_key = replicate 32 9"

definition test_env :: ks_env where
  "test_env = \<lparr>ke_nd = test_domain, ke_sign = (\<lambda>m. replicate 64 7),
     ke_verify = (\<lambda>k m sig. sig = replicate 64 7), ke_marshal = (\<lambda>src dst m. None), ke_maxMTU = 65535\<rparr>"

definition test_addr :: bytes where
  "test_addr = [0xfc, 0, 132, 138, 96, 79, 187, 126, 67, 132, 101, 219, 141, 182, 104, 149]"

definition test_packet :: bytes where
  "test_packet = 0x60 # replicate 7 0 @ (252 # 4 # replicate 14 222) @ test_addr @ [1, 2, 3]"

lemma own_AddrForKey: "AddrForKey test_domain own_key = Ret (Some (252 # 4 # replicate 14 222))"
  by code_simp

lemma own_SubnetForKey: "SubnetForKey test_domain own_key = Ret (Some (253 # 4 # replicate 6 222))"
  by code_simp

lemma test_packet_facts:
  "well_formed test_packet" "pkt_src test_packet = 252 # 4 # replicate 14 222"
  "pkt_dst test_packet = test_addr" "length test_key = 32"
  by code_simp+

definition test_store :: key_store where
  "test_store = \<lparr>ks_address = 252 # 4 # replicate 14 222, ks_subnet = 253 # 4 # replicate 6 222,
     ks_keyToInfo = Map.empty, ks_addrToInfo = Map.empty, ks_addrBuffer = Map.empty,
     ks_subnetToInfo = Map.empty, ks_subnetBuffer = Map.empty, ks_mtu = 1280, ks_infos = Map.empty,
     ks_buffers = Map.empty, ks_timers = Map.empty, ks_fired = [], ks_next = 0\<rparr>"

lemma test_store_init: "ks_init test_domain True own_key = Ret test_store"
  by (simp add: ks_init_def own_AddrForKey own_SubnetForKey deref_def test_store_def)

lemma test_store_inv: "ks_inv test_domain test_store"
  by (rule ks_inv_init [OF test_store_init])

lemma test_store_start: "ks_start test_env own_key (test_store, [])"
  using test_store_init by (auto simp: ks_start_def test_env_def)

lemma test_start_reach: "reach (ks_start test_env own_key) (ks_step test_env) (test_store, [])"
  by (rule reach_init) (rule test_store_start)

text \<open>The node writes a packet, the lookup is answered, and the packet goes out.\<close>

lemma test_run:
  obtains s1 l s2 where "ks_apply test_env (LocalWrite test_packet) test_store = Ret (s1, [l])"
    and "s1 = file_addr test_addr test_packet test_store"
    and "ks_apply test_env (OobMessage test_key own_key (typeKeyResponse # replicate 64 7)) s1 =
           Ret (s2, [SendPacket test_packet test_key])"
proof -
  have inv: "ks_inv test_domain test_store" by (rule test_store_inv)
  have "test_packet \<noteq> []" using test_packet_facts(1) by simp
  obtain partial where w: "writePC test_domain (ke_sign test_env) test_packet test_store =
      Ret (Written (length test_packet), file_addr test_addr test_packet test_store, [sendKeyLookup (ke_sign test_env) partial])"
    using write_unknown [OF test_packet_facts(1), of test_store test_domain test_key "ke_sign test_env"]
    by (auto simp: test_packet_facts local_end_def test_store_def test_AddrForKey test_addr_def)
  have b: "buffers_ok test_store" using inv by (simp add: ks_inv_def)
  note f = waiting_file_addr [OF b, of test_addr test_packet]
  have "oobHandler test_domain (ke_sign test_env) (ke_verify test_env) test_key own_key
      (typeKeyResponse # replicate 64 7) (file_addr test_addr test_packet test_store) =
    Ret (resetTimeout (ks_next (file_addr test_addr test_packet test_store))
          (learn test_key test_addr [0xfd, 0, 132, 138, 96, 79, 187, 126] (file_addr test_addr test_packet test_store)),
      [SendPacket test_packet test_key])"
    by (subst response_learnt [OF _ _ test_packet_facts(4) _ test_AddrForKey [folded test_addr_def] test_SubnetForKey])
      (simp_all add: f test_env_def ed25519_Verify_def test_packet_facts(4), simp_all add: test_store_def waiting_def)
  then show ?thesis using that w by (auto simp: test_env_def)
qed

lemma test_run_reach:
  obtains s l where "reach (ks_start test_env own_key) (ks_step test_env) (s, [l, SendPacket test_packet test_key])"
  using test_run test_start_reach by (metis append_Cons append_Nil reach_step step_call)

section \<open>Properties\<close>

text \<open>C2: no packet goes to the wrong node.  In every run of the key store, whatever packets, lookup
  messages and timers it sees and in whatever order, a packet is only ever sent to a key that
  derives the packet's destination address, or the subnet its destination lies in.\<close>

theorem packets_to_owner:
  assumes "reach (ks_start env public) (ks_step env) (s, log)" and "SendPacket pkt key \<in> set log"
  shows "owner (ke_nd env) key (pkt_dst pkt)"
  using key_store_runs.reach_inv [OF assms(1)] assms(2) by (auto simp: ks_ok_def list_all_iff)

theorem packets_to_owner_witness:
  "\<exists>s log. SendPacket test_packet test_key \<in> set log
     \<and> reach (ks_start test_env own_key) (ks_step test_env) (s, log)
     \<and> owner test_domain test_key (pkt_dst test_packet)"
proof -
  obtain s l where r: "reach (ks_start test_env own_key) (ks_step test_env) (s, [l, SendPacket test_packet test_key])"
    using test_run_reach .
  have "owner (ke_nd test_env) test_key (pkt_dst test_packet)"
    by (rule packets_to_owner [OF r]) simp
  with r show ?thesis by (auto simp: test_env_def intro!: exI[of _ s] exI[of _ "[l, SendPacket test_packet test_key]"])
qed

end
