(* ===== verification/Key_Store_Props.thy ===== *)
theory Key_Store_Props
  imports Key_Store_Runs
begin

text \<open>
  Properties of the key store over its runs and its single operations: who may teach it a key, what it
  passes on to the local side, what it refuses, and that it forgets everything in time.
\<close>

section \<open>Forgetting\<close>

lemma entry_of_fold: "entry_of (fold run_timer fs s) g \<Longrightarrow> entry_of s g"
  by (induction fs arbitrary: s) (auto dest: run_timer_entry)

lemma fold_run_gone: "tables_ok nd s \<Longrightarrow> f \<in> set fs \<Longrightarrow> \<not> entry_of (fold run_timer fs s) f"
proof (induction fs arbitrary: s)
  case (Cons g fs)
  then show ?case
    using entry_of_fold [of fs "run_timer g s" f] run_timer_gone [OF Cons.prems(1)]
    by (auto simp: tables_ok_run)
qed simp

lemma no_entries:
  assumes "\<And>f. \<not> entry_of s f"
  shows "ks_keyToInfo s k = None" "ks_addrToInfo s a = None" "ks_subnetToInfo s n = None"
    "ks_addrBuffer s a = None" "ks_subnetBuffer s n = None"
proof -
  note e = assms [unfolded entry_of_def]
  show "ks_keyToInfo s k = None" "ks_addrToInfo s a = None" "ks_subnetToInfo s n = None"
    using e [of "ExpireInfo p" for p] unfolding not_Some_eq [symmetric] by auto
  show "ks_addrBuffer s a = None" using e [of "ExpireAddrBuffer a b" for b] by auto
  show "ks_subnetBuffer s n = None" using e [of "ExpireSubnetBuffer n b" for b] by auto
qed

text \<open>C8: nothing is kept for ever.  In every run, once the expiry functions that are pending (armed or
  waiting for the mutex) have all run, in any order, every table of the store is empty: no entry
  and no buffered packet is without a timer that removes it.\<close>

theorem tables_drain:
  assumes "reach (ks_start env public) (ks_step env) (s, log)"
    and "\<And>f. pending s f \<Longrightarrow> f \<in> set fs"
  shows "(ks_keyToInfo (fold run_timer fs s), ks_addrToInfo (fold run_timer fs s),
          ks_subnetToInfo (fold run_timer fs s), ks_addrBuffer (fold run_timer fs s),
          ks_subnetBuffer (fold run_timer fs s)) = (Map.empty, Map.empty, Map.empty, Map.empty, Map.empty)"
proof -
  have inv: "tables_ok (ke_nd env) s" "entries_pending s"
    using key_store_runs.reach_inv [OF assms(1)] by (simp_all add: ks_ok_def ks_inv_def)
  have "\<not> entry_of (fold run_timer fs s) f" for f
    using entry_of_fold fold_run_gone [OF inv(1)] inv(2) assms(2) entries_pending_iff by metis
  from no_entries [OF this] show ?thesis by auto
qed

lemma test_filed:
  "file_addr test_addr test_packet test_store =
     test_store\<lparr>ks_addrBuffer := [test_addr \<mapsto> 0], ks_buffers := [0 \<mapsto> \<lparr>pb_packet = test_packet, pb_timeout = Some 1\<rparr>],
       ks_timers := [1 \<mapsto> ExpireAddrBuffer test_addr 0], ks_next := 2\<rparr>"
  by (simp add: file_addr_def test_store_def new_buffer_def fill_buffer_eq)

theorem tables_drain_witness:
  "\<exists>s log. reach (ks_start test_env own_key) (ks_step test_env) (s, log)
     \<and> ks_addrBuffer s test_addr \<noteq> None
     \<and> ks_addrBuffer (fold run_timer [ExpireAddrBuffer test_addr 0] s) = Map.empty"
proof -
  define s where "s = file_addr test_addr test_packet test_store"
  obtain l where "ks_apply test_env (LocalWrite test_packet) test_store = Ret (s, [l])"
    using test_run s_def by metis
  from reach_step [OF test_start_reach step_call [OF this]]
  have r: "reach (ks_start test_env own_key) (ks_step test_env) (s, [] @ [l])" .
  have "pending s f \<Longrightarrow> f \<in> set [ExpireAddrBuffer test_addr 0]" for f
    unfolding s_def test_filed by (auto simp: pending_def test_store_def split: if_splits)
  from tables_drain [OF r this] have "ks_addrBuffer (fold run_timer [ExpireAddrBuffer test_addr 0] s) = Map.empty"
    by simp
  moreover have "ks_addrBuffer s test_addr \<noteq> None" unfolding s_def test_filed by simp
  ultimately show ?thesis using r by blast
qed

section \<open>Lookups\<close>

text \<open>C7: a lookup succeeds.  A node has a packet for an address it knows nothing about; it files the
  packet and sends a lookup out of band.  Whatever partial key the lookup names, the owner of the
  address recognises it, answers, and the answer makes the first node send the very packet to
  the owner's key, whose address it knows from then on.  The network delivers the two messages;
  \<open>ed25519.Verify\<close> takes the signatures of the two nodes, under keys of 32 bytes.\<close>

theorem lookup_delivers:
  assumes "ks_inv nd s" and "well_formed bs" and "local_end s (pkt_src bs)"
    and "ks_addrToInfo s (pkt_dst bs) = None" and "ks_keyToInfo s ownerKey = None"
    and "length ownerKey = 32" and "AddrForKey nd ownerKey = Ret (Some (pkt_dst bs))"
    and "SubnetForKey nd ownerKey = Ret (Some (ks_subnet s'))"
    and "\<And>m. length (sign m) = 64 \<and> ed25519_Verify verify key m (sign m) = Ret True"
    and "\<And>m. length (sign' m) = 64 \<and> ed25519_Verify verify ownerKey m (sign' m) = Ret True"
  shows "\<exists>s1 partial msg resp s2 outs p.
      writePC nd sign bs s = Ret (Written (length bs), s1, [SendOutOfBand msg partial])
    \<and> oobHandler nd sign' verify key partial msg s' = Ret (s', [SendOutOfBand resp key])
    \<and> oobHandler nd sign verify ownerKey key resp s1 = Ret (s2, SendPacket bs ownerKey # outs)
    \<and> ks_addrToInfo s2 (pkt_dst bs) = Some p \<and> info_key s2 p = ownerKey"
proof -
  obtain partial n where w: "writePC nd sign bs s =
        Ret (Written (length bs), file_addr (pkt_dst bs) bs s, [sendKeyLookup sign partial])"
      and n: "SubnetForKey nd partial = Ret (Some n)" "SubnetForKey nd ownerKey = Ret (Some n)"
    using write_unknown [OF assms(2-4,7)] .
  define s1 where "s1 = file_addr (pkt_dst bs) bs s"
  define s2 where "s2 = resetTimeout (ks_next s1) (learn ownerKey (pkt_dst bs) n s1)"
  have "buffers_ok s" using assms(1) by (simp add: ks_inv_def)
  note f = waiting_file_addr [OF this, of "pkt_dst bs" bs, folded s1_def]
  have lookup: "oobHandler nd sign' verify key partial (typeKeyLookup # sign partial) s' =
      Ret (s', [sendKeyResponse sign' key])"
    by (rule lookup_answered) (use assms(8,9) n in auto)
  have "oobHandler nd sign verify ownerKey key (typeKeyResponse # sign' key) s1 =
      Ret (s2, map (\<lambda>packet. SendPacket packet ownerKey)
        (waiting s1 (ks_addrBuffer s1 (pkt_dst bs)) @ waiting s1 (ks_subnetBuffer s1 n)))"
    unfolding s2_def by (rule response_learnt) (use assms f n in auto)
  then have "oobHandler nd sign verify ownerKey key (typeKeyResponse # sign' key) s1 =
      Ret (s2, SendPacket bs ownerKey # map (\<lambda>packet. SendPacket packet ownerKey) (waiting s1 (ks_subnetBuffer s1 n)))"
    using f(1) by simp
  moreover have "ks_addrToInfo s2 (pkt_dst bs) = Some (ks_next s1)" "info_key s2 (ks_next s1) = ownerKey"
    unfolding s2_def info_key_learn by simp_all
  ultimately show ?thesis
    using w lookup unfolding sendKeyLookup_def sendKeyResponse_def s1_def by fastforce
qed

theorem lookup_delivers_witness:
  "\<exists>s1 partial msg resp s2 outs p.
      writePC test_domain (\<lambda>m. replicate 64 7) test_packet test_store =
        Ret (Written (length test_packet), s1, [SendOutOfBand msg partial])
    \<and> oobHandler test_domain (\<lambda>m. replicate 64 7) (\<lambda>k m sig. sig = replicate 64 7) own_key partial msg
        (test_store\<lparr>ks_subnet := [0xfd, 0, 132, 138, 96, 79, 187, 126]\<rparr>) =
        Ret (test_store\<lparr>ks_subnet := [0xfd, 0, 132, 138, 96, 79, 187, 126]\<rparr>, [SendOutOfBand resp own_key])
    \<and> oobHandler test_domain (\<lambda>m. replicate 64 7) (\<lambda>k m sig. sig = replicate 64 7) test_key own_key resp s1 =
        Ret (s2, SendPacket test_packet test_key # outs)
    \<and> ks_addrToInfo s2 (pkt_dst test_packet) = Some p \<and> info_key s2 p = test_key"
proof (rule lookup_delivers)
  show "ks_inv test_domain test_store" by (rule test_store_inv)
  show "well_formed test_packet" by (rule test_packet_facts)
  show "length test_key = 32" by (rule test_packet_facts)
  show "AddrForKey test_domain test_key = Ret (Some (pkt_dst test_packet))"
    by (simp add: test_AddrForKey test_packet_facts test_addr_def)
  show "SubnetForKey test_domain test_key =
      Ret (Some (ks_subnet (test_store\<lparr>ks_subnet := [0xfd, 0, 132, 138, 96, 79, 187, 126]\<rparr>)))"
    by (simp add: test_SubnetForKey)
qed (simp_all add: test_packet_facts local_end_def ed25519_Verify_def, simp_all add: test_store_def own_key_def)


section \<open>Who teaches the store a key\<close>

lemma file_keys [simp]:
  "ks_keyToInfo (file_addr a bs s) = ks_keyToInfo s"
  "ks_keyToInfo (file_subnet n bs s) = ks_keyToInfo s"
  "ks_mtu (file_addr a bs s) = ks_mtu s"
  "ks_mtu (file_subnet n bs s) = ks_mtu s"
  by (simp_all add: file_addr_def file_subnet_def new_buffer_def fill_buffer_eq split: option.splits)

lemma writePC_keys:
  assumes "writePC nd sign bs s = Ret (r, s', outs)"
  shows "ks_keyToInfo s' = ks_keyToInfo s \<and> ks_mtu s' = ks_mtu s"
proof (cases "well_formed bs \<and> local_end s (pkt_src bs)")
  case True
  then show ?thesis
    using assms by (auto simp: writePC_sends sendToAddress_eq sendToSubnet_eq go_simps
        split: if_splits option.splits)
qed (use writePC_refuses assms in blast)

lemma update_keys:
  assumes "update nd key s = Ret (p, s', outs)"
  shows "(ks_keyToInfo s' k = ks_keyToInfo s k \<or> k = go_copy (replicate 32 0) key) \<and> ks_mtu s' = ks_mtu s"
  using assms by (auto simp: update_eq Let_def go_simps split: option.splits)

section \<open>Reading in terms of the address fields\<close>

definition too_big :: "key_store \<Rightarrow> bytes \<Rightarrow> packet_too_big" where
  "too_big s bs = \<lparr>ptb_MTU = sint (ks_mtu s), ptb_Data = take 512 bs\<rparr>"

lemma quoted_fields:
  assumes "40 \<le> length bs"
  shows "take 16 (drop 8 (go_copy (replicate 512 0) bs)) = pkt_src bs"
    and "take 16 (drop 24 (go_copy (replicate 512 0) bs)) = pkt_dst bs"
    and "take (min 512 (length bs)) (go_copy (replicate 512 0) bs) = take 512 bs"
  using assms by (auto simp: go_copy_def pkt_src_def pkt_dst_def drop_take min_def)

lemma readPC_packet_eq:
  "readPC_packet nd sign marshal src bs s =
     (if \<not> well_formed bs then Ret (None, s, [])
      else if int (length bs) > sint (ks_mtu s)
      then (case CreateICMPv6 marshal (pkt_src bs) (pkt_dst bs) 2 0 (too_big s bs) of
              None \<Rightarrow> Ret (None, s, [])
            | Some packet \<Rightarrow> bind_outcome (writePC nd sign packet s) (\<lambda>(r, s, outs). Ret (None, s, outs)))
      else if \<not> local_end s (pkt_dst bs) then Ret (None, s, [])
      else bind_outcome (update nd src s) (\<lambda>(p, s, outs).
             case ks_infos s p of None \<Rightarrow> Panic
             | Some info \<Rightarrow>
                 if pkt_src bs \<noteq> ki_address info \<and> take 8 (pkt_src bs) \<noteq> ki_subnet info
                 then Ret (None, s, outs) else Ret (Some bs, s, outs)))"
proof (cases "well_formed bs")
  case True
  then have "40 \<le> length bs" by (simp add: well_formed_def)
  note F = pkt_fields [OF this] quoted_fields [OF this]
  show ?thesis
    using True unfolding readPC_packet_def Let_def F
    by (simp add: too_big_def well_formed_def local_end_def)
next
  case False
  then show ?thesis by (auto simp: readPC_packet_def well_formed_def)
qed

text \<open>What a read can do: drop the packet, answer that it is too big, or look its sender up.\<close>

lemma readPC_packet_cases:
  assumes "readPC_packet nd sign marshal src bs s = Ret (r, s', outs)"
  obtains (dropped) "r = None" "s' = s" "outs = []"
    | (too_big) packet w where "r = None" "well_formed bs" "sint (ks_mtu s) < int (length bs)"
        "CreateICMPv6 marshal (pkt_src bs) (pkt_dst bs) 2 0 (too_big s bs) = Some packet"
        "writePC nd sign packet s = Ret (w, s', outs)"
    | (looked_up) p info where "well_formed bs" "int (length bs) \<le> sint (ks_mtu s)" "local_end s (pkt_dst bs)"
        "update nd src s = Ret (p, s', outs)" "ks_infos s' p = Some info"
        "r = (if pkt_src bs = ki_address info \<or> take 8 (pkt_src bs) = ki_subnet info then Some bs else None)"
proof -
  consider "\<not> well_formed bs" | "well_formed bs" "sint (ks_mtu s) < int (length bs)"
    | "well_formed bs" "int (length bs) \<le> sint (ks_mtu s)" "\<not> local_end s (pkt_dst bs)"
    | "well_formed bs" "int (length bs) \<le> sint (ks_mtu s)" "local_end s (pkt_dst bs)"
    by linarith
  then show ?thesis
  proof cases
    case 2
    then show ?thesis
      using assms dropped too_big by (auto simp: readPC_packet_eq go_simps split: option.splits)
  next
    case 4
    then obtain p s1 o1 where u: "update nd src s = Ret (p, s1, o1)"
      using assms by (auto simp: readPC_packet_eq go_simps)
    then obtain info where "ks_infos s1 p = Some info"
      using assms 4 by (auto simp: readPC_packet_eq split: option.splits)
    with u 4 show ?thesis
      using assms looked_up [of p info] by (auto simp: readPC_packet_eq split: if_splits)
  qed (use assms dropped in \<open>auto simp: readPC_packet_eq\<close>)
qed

definition taught_by :: "ks_env \<Rightarrow> ks_event \<Rightarrow> bytes \<Rightarrow> bool" where
  "taught_by env e k = (case e of
       NetRead src bs \<Rightarrow> k = go_copy (replicate 32 0) src
     | OobMessage fromKey toKey data \<Rightarrow> k = go_copy (replicate 32 0) fromKey \<and> length data = 65
         \<and> hd data = typeKeyResponse \<and> ke_verify env fromKey toKey (tl data)
     | _ \<Rightarrow> False)"

text \<open>C6: a key is learnt in two ways only.  If a call enters a new key into the store, then the call
  is a packet that the session layer delivered as one from that very key, or an out-of-band
  response whose signature by that key verifies; writing packets and setting the MTU never do.\<close>

theorem key_learnt_from_owner:
  assumes "ks_apply env e s = Ret (s', outs)" and "ks_keyToInfo s k = None" and "ks_keyToInfo s' k \<noteq> None"
  shows "taught_by env e k"
proof (cases e)
  case (LocalWrite bs)
  then show ?thesis using assms by (auto simp: go_simps dest: writePC_keys)
next
  case (NetRead src bs)
  then obtain r where r: "readPC_packet (ke_nd env) (ke_sign env) (ke_marshal env) src bs s = Ret (r, s', outs)"
    using assms(1) by (auto simp: go_simps)
  show ?thesis
  proof (rule readPC_packet_cases [OF r])
    fix packet w assume "writePC (ke_nd env) (ke_sign env) packet s = Ret (w, s', outs)"
    from writePC_keys [OF this] show ?thesis using assms(2,3) by simp
  next
    fix p assume "update (ke_nd env) src s = Ret (p, s', outs)"
    from update_keys [OF this, of k] show ?thesis using assms(2,3) NetRead by (auto simp: taught_by_def)
  qed (use assms in simp_all)
next
  case (OobMessage fromKey toKey data)
  then show ?thesis
    using assms unfolding oobHandler_def ed25519_Verify_def Let_def taught_by_def
    by (auto simp: go_simps oobHandler_def ed25519_Verify_def Let_def split: if_splits dest: update_keys [where k = k])
next
  case (MtuSet mtu)
  then show ?thesis using assms by (auto simp: SetMTU_def Let_def)
qed

theorem key_learnt_from_owner_witness:
  "\<exists>s s' outs. ks_apply test_env (OobMessage test_key own_key (typeKeyResponse # replicate 64 7)) s = Ret (s', outs)
     \<and> ks_keyToInfo s' test_key \<noteq> None
     \<and> taught_by test_env (OobMessage test_key own_key (typeKeyResponse # replicate 64 7)) test_key"
proof -
  define s' where "s' = resetTimeout 0 (learn test_key test_addr [0xfd, 0, 132, 138, 96, 79, 187, 126] test_store)"
  have "oobHandler test_domain (ke_sign test_env) (ke_verify test_env) test_key own_key
      (typeKeyResponse # replicate 64 7) test_store = Ret (s', [])"
    unfolding s'_def
    by (subst response_learnt [OF _ _ test_packet_facts(4) _ test_AddrForKey [folded test_addr_def] test_SubnetForKey])
      (simp_all add: test_env_def test_store_def waiting_def ed25519_Verify_def test_packet_facts(4))
  then have a: "ks_apply test_env (OobMessage test_key own_key (typeKeyResponse # replicate 64 7)) test_store = Ret (s', [])"
    by (simp add: test_env_def)
  have k: "ks_keyToInfo s' test_key \<noteq> None" by (simp add: s'_def)
  have "taught_by test_env (OobMessage test_key own_key (typeKeyResponse # replicate 64 7)) test_key"
    by (rule key_learnt_from_owner [OF a _ k]) (simp add: test_store_def)
  then show ?thesis using a k by blast
qed


section \<open>Packets from the network\<close>

lemma keys_total:
  assumes "GetPrefix nd = Ret pre" and "length key = 32"
  obtains a n where "AddrForKey nd key = Ret (Some a)" "SubnetForKey nd key = Ret (Some n)"
  using assms by (auto simp: AddrForKey_eq SubnetForKey_eq dest: GetPrefix_RetD)

text \<open>After \<open>update\<close> the returned entry is the sender's: its key, with the address and the subnet of it.\<close>

lemma update_info:
  assumes "ks_inv nd s" and "update nd key s = Ret (p, s', outs)"
  obtains info where "ks_infos s' p = Some info" "ki_key info = go_copy (replicate 32 0) key"
    "AddrForKey nd (ki_key info) = Ret (Some (ki_address info))"
    "SubnetForKey nd (ki_key info) = Ret (Some (ki_subnet info))"
proof -
  have inv: "tables_ok nd s'" using update_ok [OF assms] by (simp add: ks_inv_def)
  have "ks_keyToInfo s' (go_copy (replicate 32 0) key) = Some p"
    using assms(2) by (auto simp: update_eq Let_def go_simps split: option.splits)
  then obtain a n where c: "info_core s' p = Some (go_copy (replicate 32 0) key, a, n)"
    using inv unfolding tables_ok_def by blast
  then have "derived nd (go_copy (replicate 32 0) key, a, n)"
    using inv unfolding tables_ok_def by blast
  with c show ?thesis using that by (auto simp: info_core_def derived_def)
qed

lemma update_total:
  assumes "ks_inv nd s" and "GetPrefix nd = Ret pre"
  obtains p s' outs where "update nd key s = Ret (p, s', outs)"
proof -
  obtain a n where "AddrForKey nd (go_copy (replicate 32 0) key) = Ret (Some a)"
      "SubnetForKey nd (go_copy (replicate 32 0) key) = Ret (Some n)"
    by (rule keys_total [OF assms(2), of "go_copy (replicate 32 0) key"]) simp_all
  then show ?thesis
    using that by (cases "ks_keyToInfo s (go_copy (replicate 32 0) key)") (auto simp: update_eq Let_def deref_def)
qed

lemma readPC_delivers:
  assumes "ks_inv nd s" and "GetPrefix nd = Ret pre" and "length src = 32"
    and "well_formed bs" and "int (length bs) \<le> sint (ks_mtu s)" and "local_end s (pkt_dst bs)"
    and "owner nd src (pkt_src bs)"
  shows "\<exists>s' outs. readPC_packet nd sign marshal src bs s = Ret (Some bs, s', outs)"
proof -
  obtain p s' outs where u: "update nd src s = Ret (p, s', outs)" using update_total [OF assms(1,2)] .
  obtain info where "ks_infos s' p = Some info" "ki_key info = src"
    "AddrForKey nd (ki_key info) = Ret (Some (ki_address info))"
    "SubnetForKey nd (ki_key info) = Ret (Some (ki_subnet info))"
    by (rule update_info [OF assms(1) u]) (simp add: assms(3))
  then show ?thesis using assms(4-7) u by (auto simp: readPC_packet_eq owner_def)
qed

text \<open>C3: what a node passes to its local side.  A packet from the node with the key \<open>src\<close> is delivered
  exactly when it is an IPv6 packet within the MTU, its destination is this node's address or
  subnet, and its source is the address or in the subnet that belongs to \<open>src\<close>: nobody can send in
  another's name, and nothing that meets the conditions is held back.\<close>

theorem delivered_iff_checked:
  assumes "ks_inv nd s" and "GetPrefix nd = Ret pre" and "length src = 32"
  shows "(\<exists>s' outs. readPC_packet nd sign marshal src bs s = Ret (Some bs, s', outs)) \<longleftrightarrow>
     well_formed bs \<and> int (length bs) \<le> sint (ks_mtu s) \<and> local_end s (pkt_dst bs) \<and> owner nd src (pkt_src bs)"
proof
  assume "\<exists>s' outs. readPC_packet nd sign marshal src bs s = Ret (Some bs, s', outs)"
  then obtain s' outs where "readPC_packet nd sign marshal src bs s = Ret (Some bs, s', outs)" by blast
  then show "well_formed bs \<and> int (length bs) \<le> sint (ks_mtu s) \<and> local_end s (pkt_dst bs) \<and> owner nd src (pkt_src bs)"
  proof (rule readPC_packet_cases)
    fix p info assume *: "update nd src s = Ret (p, s', outs)" "ks_infos s' p = Some info"
      "Some bs = (if pkt_src bs = ki_address info \<or> take 8 (pkt_src bs) = ki_subnet info then Some bs else None)"
      and **: "well_formed bs" "int (length bs) \<le> sint (ks_mtu s)" "local_end s (pkt_dst bs)"
    obtain info' where "ks_infos s' p = Some info'" "ki_key info' = src"
      "AddrForKey nd (ki_key info') = Ret (Some (ki_address info'))"
      "SubnetForKey nd (ki_key info') = Ret (Some (ki_subnet info'))"
      by (rule update_info [OF assms(1) *(1)]) (simp add: assms(3))
    then have "owner nd src (pkt_src bs)"
      using *(2,3) by (auto simp: owner_def split: if_splits)
    with ** show ?thesis by blast
  qed simp_all
next
  assume r: "well_formed bs \<and> int (length bs) \<le> sint (ks_mtu s) \<and> local_end s (pkt_dst bs) \<and> owner nd src (pkt_src bs)"
  then show "\<exists>s' outs. readPC_packet nd sign marshal src bs s = Ret (Some bs, s', outs)"
    by (intro readPC_delivers [OF assms]) auto
qed

lemma test_prefix: "GetPrefix test_domain = Ret [0xfc]"
  by code_simp

definition test_reply :: bytes where
  "test_reply = 0x60 # replicate 7 0 @ test_addr @ (252 # 4 # replicate 14 222) @ [5]"

theorem delivered_iff_checked_witness:
  "(\<exists>s' outs. readPC_packet test_domain (ke_sign test_env) (ke_marshal test_env) test_key test_reply test_store
      = Ret (Some test_reply, s', outs))
   \<and> \<not> (\<exists>s' outs. readPC_packet test_domain (ke_sign test_env) (ke_marshal test_env) own_key test_reply test_store
      = Ret (Some test_reply, s', outs))"
proof -
  have f: "well_formed test_reply" "pkt_src test_reply = test_addr" "length own_key = 32"
    "pkt_dst test_reply = 252 # 4 # replicate 14 222" "length test_reply = 41"
    by code_simp+
  have mtu: "sint (ks_mtu test_store) = 1280" by (simp add: test_store_def)
  have "local_end test_store (pkt_dst test_reply)" by (simp add: f local_end_def test_store_def)
  moreover have "owner test_domain test_key (pkt_src test_reply)"
    by (simp add: f owner_def test_AddrForKey test_addr_def)
  moreover have "\<not> owner test_domain own_key (pkt_src test_reply)"
    by (simp add: f owner_def own_AddrForKey own_SubnetForKey test_addr_def)
  ultimately show ?thesis
    unfolding delivered_iff_checked [OF test_store_inv test_prefix test_packet_facts(4)]
      delivered_iff_checked [OF test_store_inv test_prefix f(3)]
    using f(1,5) mtu by simp
qed

section \<open>The MTU\<close>

lemma readPC_packet_mtu: "readPC_packet nd sign marshal src bs s = Ret (r, s', outs) \<Longrightarrow> ks_mtu s' = ks_mtu s"
  by (erule readPC_packet_cases) (auto dest: writePC_keys update_keys)

lemma oobHandler_mtu: "oobHandler nd sign verify k t data s = Ret (s', outs) \<Longrightarrow> ks_mtu s' = ks_mtu s"
  by (auto simp: oobHandler_def ed25519_Verify_def Let_def go_simps split: if_splits dest: update_keys)

definition mtu_ok :: "ks_env \<Rightarrow> ks_state \<Rightarrow> bool" where
  "mtu_ok env st \<longleftrightarrow> 1280 \<le> ks_mtu (fst st) \<and> ks_mtu (fst st) \<le> max 1280 (ke_maxMTU env)"

lemma run_timer_mtu [simp]: "ks_mtu (run_timer f s) = ks_mtu s"
  by (cases f) (simp_all add: expire_info_def expire_addrBuffer_def expire_subnetBuffer_def Let_def split: option.splits)

interpretation mtu_runs: invariant_system "ks_start env public" "ks_step env" "mtu_ok env" for env public
proof unfold_locales
  fix st assume "ks_start env public st"
  then have "ks_mtu (fst st) = 1280" by (cases st) (auto simp: ks_start_def ks_init_def go_simps split: if_splits)
  then show "mtu_ok env st" by (simp add: mtu_ok_def)
next
  fix st st' assume st: "mtu_ok env st"
  assume "ks_step env st st'"
  then show "mtu_ok env st'"
  proof (cases rule: ks_step.cases)
    case (step_call e s s' outs log)
    then show ?thesis
    proof (cases e)
      case (MtuSet mtu)
      then show ?thesis using step_call by (auto simp: mtu_ok_def SetMTU_def Let_def max_def)
    next
      case (OobMessage fromKey toKey data)
      then show ?thesis using step_call st by (auto simp: mtu_ok_def dest!: oobHandler_mtu)
    qed (use st in \<open>auto simp: mtu_ok_def go_simps dest!: writePC_keys readPC_packet_mtu\<close>)
  qed (use st in \<open>auto simp: mtu_ok_def fire_def run_fired_def split: option.splits\<close>)
qed

lemma sint_small:
  assumes "unat (m :: 64 word) < 2 ^ 63"
  shows "sint m = int (unat m)"
proof -
  have "int (unat m) < int (2 ^ 63)" using assms by (simp only: of_nat_less_iff)
  then have u: "uint m < 2 ^ 63" by simp
  have "- (2 ^ 63) \<le> uint m" by (rule order.trans [OF _ uint_ge_0]) simp
  from signed_take_bit_int_eq_self [OF this u] show ?thesis by (simp add: sint_uint)
qed

text \<open>the MTU is safe in every run: it starts at 1280, and no request makes it smaller than that or
  larger than the session layer can carry (unless that itself is below 1280); so a packet of at
  most 1280 bytes, which every IPv6 link must carry, is never answered with Packet Too Big.\<close>

theorem mtu_in_range:
  assumes "reach (ks_start env public) (ks_step env) (s, log)" and "unat (ke_maxMTU env) < 2 ^ 63"
  shows "1280 \<le> unat (ks_mtu s) \<and> unat (ks_mtu s) \<le> max 1280 (unat (ke_maxMTU env))
     \<and> sint (ks_mtu s) = int (unat (ks_mtu s))"
proof -
  have m: "1280 \<le> ks_mtu s" "ks_mtu s \<le> max 1280 (ke_maxMTU env)"
    using mtu_runs.reach_inv [OF assms(1)] by (simp_all add: mtu_ok_def)
  then have u: "1280 \<le> unat (ks_mtu s)" "unat (ks_mtu s) \<le> max 1280 (unat (ke_maxMTU env))"
    by (auto simp: word_le_nat_alt max_def split: if_splits)
  with assms(2) have "unat (ks_mtu s) < 2 ^ 63" by simp
  then have "sint (ks_mtu s) = int (unat (ks_mtu s))" by (rule sint_small)
  with u show ?thesis by blast
qed

theorem mtu_in_range_witness:
  "\<exists>s log. reach (ks_start test_env own_key) (ks_step test_env) (s, log)
     \<and> ks_mtu s = 65535 \<and> 1280 \<le> unat (ks_mtu s) \<and> unat (ks_mtu s) \<le> 65535"
proof -
  have "ks_apply test_env (MtuSet 100000) test_store = Ret (test_store\<lparr>ks_mtu := 65535\<rparr>, [])"
    by (simp add: SetMTU_def test_env_def)
  from reach_step [OF test_start_reach step_call [OF this]]
  have r: "reach (ks_start test_env own_key) (ks_step test_env) (test_store\<lparr>ks_mtu := 65535\<rparr>, [] @ [])" .
  have "unat (ke_maxMTU test_env) < 2 ^ 63" by (simp add: test_env_def)
  from mtu_in_range [OF r this] r show ?thesis by (auto simp: test_env_def)
qed

section \<open>Packets from the local side\<close>

text \<open>Where a packet that was accepted is: on its way to a key, or filed until the key is known.\<close>

definition filed :: "key_store \<Rightarrow> bytes \<Rightarrow> bool" where
  "filed s bs \<longleftrightarrow> waiting s (ks_addrBuffer s (pkt_dst bs)) = [bs]
     \<or> waiting s (ks_subnetBuffer s (take 8 (pkt_dst bs))) = [bs]"

lemma waiting_file_subnet:
  assumes "buffers_ok s"
  shows "waiting (file_subnet n bs s) (ks_subnetBuffer (file_subnet n bs s) n) = [bs]"
proof -
  obtain b tm t m where eq: "file_subnet n bs s =
      (put_buffer b tm t m (ExpireSubnetBuffer n b) bs s)\<lparr>ks_subnetBuffer := (ks_subnetBuffer s)(n \<mapsto> b)\<rparr>"
    by (rule file_subnet_shape [OF assms, of n bs])
  show ?thesis unfolding eq by (simp add: waiting_def put_buffer_def)
qed

text \<open>no packet from the local side is lost without an error.  \<open>writePC\<close> either reports the length of
  the packet, and the packet is then sent at once, or filed (in place of an older one for the
  same destination) with one lookup sent; or it reports an error, and then the store is
  unchanged and nothing is sent.\<close>

theorem write_sends_or_files:
  assumes "ks_inv nd s" and "writePC nd sign bs s = Ret (r, s', outs)"
  shows "(r = Written (length bs) \<and>
            ((\<exists>key. outs = [SendPacket bs key]) \<or> (\<exists>m k. outs = [SendOutOfBand m k]) \<and> filed s' bs))
     \<or> ((\<forall>n. r \<noteq> Written n) \<and> s' = s \<and> outs = [])"
proof (cases "well_formed bs \<and> local_end s (pkt_src bs)")
  case True
  have b: "buffers_ok s" using assms(1) by (simp add: ks_inv_def)
  show ?thesis
    using True assms(2) waiting_file_addr(1) [OF b] waiting_file_subnet [OF b]
    by (auto simp: writePC_sends sendToAddress_eq sendToSubnet_eq filed_def sendKeyLookup_def go_simps
        split: if_splits option.splits)
qed (use writePC_refuses [OF _ assms(2)] in blast)

theorem write_sends_or_files_witness:
  "\<exists>s' outs m k. writePC test_domain (ke_sign test_env) test_packet test_store =
      Ret (Written (length test_packet), s', outs) \<and> outs = [SendOutOfBand m k] \<and> filed s' test_packet"
proof -
  obtain partial where w: "writePC test_domain (ke_sign test_env) test_packet test_store =
      Ret (Written (length test_packet), file_addr (pkt_dst test_packet) test_packet test_store,
           [sendKeyLookup (ke_sign test_env) partial])"
    by (rule write_unknown [OF test_packet_facts(1), of test_store test_domain test_key "ke_sign test_env"])
      (simp_all add: test_packet_facts local_end_def test_store_def test_AddrForKey test_addr_def)
  from write_sends_or_files [OF test_store_inv w] w show ?thesis
    by (auto simp: sendKeyLookup_def)
qed

section \<open>Packets that are too big\<close>








text \<open>only the newest packet waits.  Of two packets written in a row to one unknown address the
  second replaces the first, in the same buffer; when the owner's key arrives, exactly the second
  is sent, and the address is known.\<close>

theorem newest_packet_sent:
  assumes "ks_inv nd s" and "ks_addrToInfo s a = None" and "ks_keyToInfo s key = None" and "length key = 32"
    and "pkt_dst bs1 = a" and "pkt_dst bs2 = a"
    and "sendToAddress nd sign a bs1 s = Ret (s1, outs1)" and "sendToAddress nd sign a bs2 s1 = Ret (s2, outs2)"
    and "AddrForKey nd key = Ret (Some a)" and "SubnetForKey nd key = Ret (Some n)" and "ks_subnetBuffer s n = None"
  shows "\<exists>p s3. update nd key s2 = Ret (p, s3, [SendPacket bs2 key])
     \<and> ks_addrToInfo s3 a = Some p \<and> ks_addrBuffer s3 a = None"
proof -
  have s1: "s1 = file_addr a bs1 s"
    using assms(2,7) by (auto simp: sendToAddress_eq go_simps)
  have "ks_inv nd s1" unfolding s1 by (rule ks_inv_file_addr [OF assms(1,5)])
  then have b: "buffers_ok s" "buffers_ok s1" using assms(1) by (simp_all add: ks_inv_def)
  have s2: "s2 = file_addr a bs2 s1"
    using assms(2,8) waiting_file_addr(2) [OF b(1)] by (auto simp: sendToAddress_eq go_simps s1)
  note f = waiting_file_addr [OF b(1), of a bs1, folded s1] waiting_file_addr [OF b(2), of a bs2, folded s2]
  have "update nd key s2 = Ret (ks_next s2, resetTimeout (ks_next s2) (learn key a n s2), [SendPacket bs2 key])"
    using assms(3,4,9-11) f by (simp add: update_eq deref_def waiting_def)
  then show ?thesis by fastforce
qed


theorem newest_packet_sent_witness:
  "\<exists>s1 outs1 s2 outs2 p s3.
      sendToAddress test_domain (\<lambda>m. []) test_addr test_packet test_store = Ret (s1, outs1)
    \<and> sendToAddress test_domain (\<lambda>m. []) test_addr (test_packet @ [4]) s1 = Ret (s2, outs2)
    \<and> update test_domain test_key s2 = Ret (p, s3, [SendPacket (test_packet @ [4]) test_key])"
proof -
  have k: "\<exists>k. GetAddressKey test_domain test_addr = Ret k"
    using test_GetAddressKey by (auto simp: test_addr_def)
  have b: "buffers_ok test_store" using test_store_inv by (simp add: ks_inv_def)
  have d: "pkt_dst (test_packet @ [4]) = test_addr" by code_simp
  have none: "ks_addrToInfo test_store test_addr = None" by (simp add: test_store_def)
  obtain s1 o1 where 1: "sendToAddress test_domain (\<lambda>m. []) test_addr test_packet test_store = Ret (s1, o1)"
      and s1: "s1 = file_addr test_addr test_packet test_store"
    using k none by (auto simp: sendToAddress_eq)
  obtain s2 o2 where 2: "sendToAddress test_domain (\<lambda>m. []) test_addr (test_packet @ [4]) s1 = Ret (s2, o2)"
    using k waiting_file_addr(2) [OF b, of test_addr test_packet] none by (auto simp: sendToAddress_eq s1)
  have "\<exists>p s3. update test_domain test_key s2 = Ret (p, s3, [SendPacket (test_packet @ [4]) test_key])
      \<and> ks_addrToInfo s3 test_addr = Some p \<and> ks_addrBuffer s3 test_addr = None"
    by (rule newest_packet_sent [OF test_store_inv none _ test_packet_facts(4) test_packet_facts(3) d 1 2
        test_AddrForKey [folded test_addr_def] test_SubnetForKey]) (simp_all add: test_store_def)
  with 1 2 show ?thesis by blast
qed

end
