(* ===== verification/End_To_End.thy ===== *)
theory End_To_End
  imports Key_Store_Props Session
begin

text \<open>
  Two nodes: the key store of one (src/ipv6rwc), the session layer between them (src/core), and the key
  store of the other.  In every run a node sends packets of its own local side only, also when they
  have waited for the answer to a lookup; so what it sends passes the checks of the node that owns
  the key it was sent to.
\<close>

section \<open>A node sends its own packets\<close>

definition mine :: "key_store \<Rightarrow> bytes \<Rightarrow> bool" where
  "mine s p \<longleftrightarrow> well_formed p \<and> local_end s (pkt_src p)"

definition same_ends :: "key_store \<Rightarrow> key_store \<Rightarrow> bool" where
  "same_ends s s' \<longleftrightarrow> ks_address s' = ks_address s \<and> ks_subnet s' = ks_subnet s"

definition holds_mine :: "key_store \<Rightarrow> bool" where
  "holds_mine s \<longleftrightarrow> (\<forall>b buf. ks_buffers s b = Some buf \<longrightarrow> mine s (pb_packet buf))"

definition sends_mine :: "key_store \<Rightarrow> ks_out list \<Rightarrow> bool" where
  "sends_mine s outs \<longleftrightarrow> (\<forall>p key. SendPacket p key \<in> set outs \<longrightarrow> mine s p)"

lemma mine_same: "same_ends s s' \<Longrightarrow> mine s' = mine s"
  by (auto simp: same_ends_def mine_def local_end_def fun_eq_iff)

lemma sends_mine_simps [simp]:
  "sends_mine s []"
  "sends_mine s (xs @ ys) \<longleftrightarrow> sends_mine s xs \<and> sends_mine s ys"
  "sends_mine s [SendPacket p key] \<longleftrightarrow> mine s p"
  "sends_mine s [sendKeyLookup sign partial]"
  "sends_mine s [sendKeyResponse sign key]"
  by (auto simp: sends_mine_def sendKeyLookup_def sendKeyResponse_def)

text \<open>A step keeps this when it keeps the ends, the buffers' packets are the node's own, and so is what it
  sends.\<close>

definition keeps_mine :: "key_store \<Rightarrow> key_store \<Rightarrow> ks_out list \<Rightarrow> bool" where
  "keeps_mine s s' outs \<longleftrightarrow> same_ends s s' \<and> holds_mine s' \<and> sends_mine s outs"

lemma keeps_mine_refl: "holds_mine s \<Longrightarrow> keeps_mine s s []"
  by (simp add: keeps_mine_def same_ends_def)

lemma keeps_mine_same:
  "holds_mine s \<Longrightarrow> ks_buffers s' = ks_buffers s \<Longrightarrow> same_ends s s' \<Longrightarrow> keeps_mine s s' []"
  by (auto simp: keeps_mine_def holds_mine_def dest: mine_same)

lemma keeps_mine_send: "holds_mine s \<Longrightarrow> keeps_mine s s [sendKeyResponse sign key]"
  by (simp add: keeps_mine_def same_ends_def)

lemma keeps_mine_reset: "holds_mine s \<Longrightarrow> sends_mine s outs \<Longrightarrow> keeps_mine s (resetTimeout p s) outs"
  by (simp add: keeps_mine_def same_ends_def holds_mine_def mine_def local_end_def)

lemma holds_mine_put: "holds_mine s \<Longrightarrow> mine s bs \<Longrightarrow> holds_mine (put_buffer b tm t n f bs s)"
  by (auto simp: holds_mine_def put_buffer_def mine_def local_end_def)

lemma keeps_mine_file_addr:
  assumes "buffers_ok s" and "holds_mine s" and "mine s bs"
  shows "keeps_mine s (file_addr addr bs s) [sendKeyLookup sign partial]"
proof -
  obtain b tm t n where eq: "file_addr addr bs s =
      (put_buffer b tm t n (ExpireAddrBuffer addr b) bs s)\<lparr>ks_addrBuffer := (ks_addrBuffer s)(addr \<mapsto> b)\<rparr>"
    by (rule file_addr_shape [OF assms(1)])
  show ?thesis
    using holds_mine_put [OF assms(2,3)]
    by (auto simp: eq keeps_mine_def same_ends_def holds_mine_def mine_def local_end_def)
qed

lemma keeps_mine_file_subnet:
  assumes "buffers_ok s" and "holds_mine s" and "mine s bs"
  shows "keeps_mine s (file_subnet subnet bs s) [sendKeyLookup sign partial]"
proof -
  obtain b tm t n where eq: "file_subnet subnet bs s =
      (put_buffer b tm t n (ExpireSubnetBuffer subnet b) bs s)\<lparr>ks_subnetBuffer := (ks_subnetBuffer s)(subnet \<mapsto> b)\<rparr>"
    by (rule file_subnet_shape [OF assms(1)])
  show ?thesis
    using holds_mine_put [OF assms(2,3)]
    by (auto simp: eq keeps_mine_def same_ends_def holds_mine_def mine_def local_end_def)
qed

lemma writePC_mine:
  assumes "buffers_ok s" and "holds_mine s" and "writePC nd sign bs s = Ret (r, s', outs)"
  shows "keeps_mine s s' outs"
proof (cases "well_formed bs \<and> local_end s (pkt_src bs)")
  case True
  then have m: "mine s bs" by (simp add: mine_def)
  show ?thesis
    using assms(3) True m keeps_mine_reset [OF assms(2)] keeps_mine_refl [OF assms(2)]
      keeps_mine_file_addr [OF assms(1,2) m] keeps_mine_file_subnet [OF assms(1,2) m]
    by (auto simp: writePC_sends sendToAddress_eq sendToSubnet_eq go_simps split: if_splits option.splits)
next
  case False
  then show ?thesis using writePC_refuses [OF False assms(3)] keeps_mine_refl [OF assms(2)] by simp
qed

lemma update_mine:
  assumes "holds_mine s" and "update nd key s = Ret (p, s', outs)"
  shows "keeps_mine s s' outs"
proof (cases "ks_keyToInfo s (go_copy (replicate 32 0) key)")
  case None
  then obtain a n where s': "s' = resetTimeout (ks_next s) (learn (go_copy (replicate 32 0) key) a n s)"
    and outs: "outs = map (\<lambda>packet. SendPacket packet (go_copy (replicate 32 0) key))
       (waiting s (ks_addrBuffer s a) @ waiting s (ks_subnetBuffer s n))"
    using assms(2) by (auto simp: update_eq Let_def go_simps)
  have "mine s q" if "q \<in> set (waiting s slot)" for q slot
    using assms(1) that by (auto simp: waiting_def holds_mine_def split: option.splits)
  then have "sends_mine s outs" by (auto simp: outs sends_mine_def)
  then show ?thesis
    using assms(1) by (simp add: s' keeps_mine_def same_ends_def holds_mine_def mine_def local_end_def)
next
  case (Some q)
  then show ?thesis using assms by (auto simp: update_eq Let_def intro: keeps_mine_reset)
qed

lemma ks_apply_mine:
  assumes "buffers_ok s" and "holds_mine s" and "ks_apply env e s = Ret (s', outs)"
  shows "keeps_mine s s' outs"
proof (cases e)
  case (LocalWrite bs)
  then show ?thesis using assms(3) by (auto simp: go_simps dest: writePC_mine [OF assms(1,2)])
next
  case (NetRead src bs)
  then obtain r where "readPC_packet (ke_nd env) (ke_sign env) (ke_marshal env) src bs s = Ret (r, s', outs)"
    using assms(3) by (auto simp: go_simps)
  then show ?thesis
    by (rule readPC_packet_cases)
      (auto intro: keeps_mine_refl [OF assms(2)] writePC_mine [OF assms(1,2)] update_mine [OF assms(2)])
next
  case (OobMessage fromKey toKey data)
  then show ?thesis
    using assms(3) keeps_mine_refl [OF assms(2)] keeps_mine_send [OF assms(2)]
    by (auto simp: oobHandler_def ed25519_Verify_def Let_def go_simps split: if_splits dest: update_mine [OF assms(2)])
next
  case (MtuSet mtu)
  then have "s' = SetMTU (ke_maxMTU env) mtu s" "outs = []" using assms(3) by simp_all
  then show ?thesis
    using keeps_mine_same [OF assms(2), of s'] by (simp add: SetMTU_def Let_def same_ends_def)
qed

lemma timer_mine:
  assumes "holds_mine s"
  shows "keeps_mine s (fire t s) []" and "keeps_mine s (run_fired i s) []"
proof -
  have run: "ks_address (run_timer f x) = ks_address x \<and> ks_subnet (run_timer f x) = ks_subnet x" for f x
    by (cases f) (auto simp: expire_info_def expire_addrBuffer_def expire_subnetBuffer_def Let_def split: option.splits)
  show "keeps_mine s (fire t s) []" "keeps_mine s (run_fired i s) []"
    by (rule keeps_mine_same [OF assms]; simp add: fire_def run_fired_def run same_ends_def split: option.splits)+
qed

definition node_ok :: "ks_env \<Rightarrow> bytes \<Rightarrow> ks_state \<Rightarrow> bool" where
  "node_ok env public st \<longleftrightarrow> ks_ok env st \<and> holds_mine (fst st) \<and> sends_mine (fst st) (snd st)
     \<and> AddrForKey (ke_nd env) public = Ret (Some (ks_address (fst st)))
     \<and> SubnetForKey (ke_nd env) public = Ret (Some (ks_subnet (fst st)))"

lemma node_ok_step:
  assumes "node_ok env public (s, log)" and "keeps_mine s s' outs" and "ks_ok env (s', log @ outs)"
  shows "node_ok env public (s', log @ outs)"
  using assms by (auto simp: node_ok_def keeps_mine_def same_ends_def sends_mine_def mine_def local_end_def)

interpretation node_runs: invariant_system "ks_start env public" "ks_step env" "node_ok env public"
  for env public
proof unfold_locales
  fix st assume start: "ks_start env public st"
  then show "node_ok env public st"
    using key_store_runs.init_inv [OF start]
    by (cases st) (auto simp: node_ok_def ks_start_def ks_init_def go_simps holds_mine_def split: if_splits)
next
  fix st st' assume ok: "node_ok env public st" and step: "ks_step env st st'"
  have "ks_ok env st" using ok by (simp add: node_ok_def)
  then have ok': "ks_ok env st'" by (rule key_store_runs.step_inv [OF _ step])
  from step show "node_ok env public st'"
  proof cases
    case (step_call e s s' outs log)
    have "buffers_ok s" "holds_mine s" using ok by (auto simp: step_call(1) node_ok_def ks_ok_def ks_inv_def)
    from ks_apply_mine [OF this step_call(3)] show ?thesis
      using ok ok' node_ok_step unfolding step_call by blast
  next
    case (step_fire s log t)
    then show ?thesis using ok ok' node_ok_step [of env public s log _ "[]"] timer_mine(1) [of s t]
      by (simp add: node_ok_def)
  next
    case (step_run s log i)
    then show ?thesis using ok ok' node_ok_step [of env public s log _ "[]"] timer_mine(2) [of s i]
      by (simp add: node_ok_def)
  qed
qed

section \<open>No step gets stuck\<close>

lemma total_when_prefix:
  assumes "GetPrefix nd = Ret pre"
  shows "IsValidAddress nd a \<noteq> Panic" "IsValidSubnet nd n \<noteq> Panic"
    "sendToAddress nd sign a bs s \<noteq> Panic" "sendToSubnet nd sign n bs s \<noteq> Panic"
  by (simp_all add: assms IsValidAddress_def IsValidSubnet_def sendToAddress_eq sendToSubnet_eq
      GetAddressKey_def GetSubnetKey_def Let_def split: option.split)

lemma writePC_no_Panic:
  assumes "GetPrefix nd = Ret pre" and "bs \<noteq> []"
  shows "writePC nd sign bs s \<noteq> Panic"
  using assms(2) total_when_prefix [OF assms(1)]
  by (auto simp: writePC_def Let_def bind_outcome_eq_Panic split: if_splits)

lemma readPC_no_Panic:
  assumes "ks_inv nd s" and "GetPrefix nd = Ret pre"
  shows "readPC_packet nd sign marshal src bs s \<noteq> Panic"
proof -
  obtain p s' outs where u: "update nd src s = Ret (p, s', outs)" using update_total [OF assms] .
  obtain info where "ks_infos s' p = Some info" by (rule update_info [OF assms(1) u])
  moreover have "writePC nd sign packet s \<noteq> Panic"
    if "CreateICMPv6 marshal (pkt_src bs) (pkt_dst bs) 2 0 (too_big s bs) = Some packet" for packet
    by (rule writePC_no_Panic [OF assms(2)]) (use that in \<open>auto simp: CreateICMPv6_eq icmp_header_def split: option.splits\<close>)
  ultimately show ?thesis using u by (auto simp: readPC_packet_eq bind_outcome_eq_Panic split: option.splits)
qed

lemma oobHandler_Panic:
  assumes "ks_inv nd s" and "GetPrefix nd = Ret pre"
  shows "oobHandler nd sign verify fromKey toKey data s = Panic \<longleftrightarrow>
     (\<exists>sig. length sig = 64
        \<and> (data = typeKeyLookup # sig
             \<and> (length toKey \<noteq> 32 \<or> SubnetForKey nd toKey = Ret (Some (ks_subnet s)) \<and> length fromKey \<noteq> 32)
           \<or> data = typeKeyResponse # sig \<and> length fromKey \<noteq> 32))"
proof -
  obtain p s' outs where "update nd fromKey s = Ret (p, s', outs)" using update_total [OF assms] .
  moreover have "deref (SubnetForKey nd toKey) = (case SubnetForKey nd toKey of Ret (Some n) \<Rightarrow> Ret n | _ \<Rightarrow> Panic)
      \<and> (length toKey \<noteq> 32 \<longleftrightarrow> (\<forall>n. SubnetForKey nd toKey \<noteq> Ret (Some n)))"
  proof (cases "length toKey = 32")
    case True
    obtain a n where "AddrForKey nd toKey = Ret (Some a)" "SubnetForKey nd toKey = Ret (Some n)"
      by (rule keys_total [OF assms(2) True])
    then show ?thesis using True by (simp add: deref_def)
  qed (simp add: deref_def SubnetForKey_eq)
  ultimately show ?thesis
    by (cases data) (auto simp: oobHandler_def ed25519_Verify_def key_types bind_outcome_eq_Panic
        split: outcome.splits option.splits)
qed

text \<open>C9: when the store gets stuck: in every state it can reach, a call panics exactly when it is an empty packet of
  the local side (whose first byte is read), a lookup for a key that is not 32 bytes long, a lookup for the
  node's own subnet from a key that is not 32 bytes long, or a response from such a key: there
  \<open>ed25519.Verify\<close> panics.  The last three have all 65 bytes of a message; every other call returns.\<close>

theorem store_never_panics:
  assumes "reach (ks_start env public) (ks_step env) (s, log)"
  shows "ks_apply env e s = Panic \<longleftrightarrow> e = LocalWrite []
     \<or> (\<exists>fromKey toKey sig. length sig = 64
          \<and> (e = OobMessage fromKey toKey (typeKeyLookup # sig)
               \<and> (length toKey \<noteq> 32
                  \<or> SubnetForKey (ke_nd env) toKey = Ret (Some (ks_subnet s)) \<and> length fromKey \<noteq> 32)
             \<or> e = OobMessage fromKey toKey (typeKeyResponse # sig) \<and> length fromKey \<noteq> 32))"
proof -
  have ok: "node_ok env public (s, log)" by (rule node_runs.reach_inv [OF assms])
  obtain pre where pre: "GetPrefix (ke_nd env) = Ret pre" using ok by (auto simp: node_ok_def dest!: AddrForKey_SomeD)
  have inv: "ks_inv (ke_nd env) s" using ok by (simp add: node_ok_def ks_ok_def)
  show ?thesis
  proof (cases e)
    case (LocalWrite bs)
    then show ?thesis using writePC_no_Panic [OF pre, of bs] by (cases "bs = []") (auto simp: bind_outcome_eq_Panic writePC_def)
  next
    case (NetRead src bs)
    then show ?thesis using readPC_no_Panic [OF inv pre] by (auto simp: bind_outcome_eq_Panic)
  qed (use oobHandler_Panic [OF inv pre] in auto)
qed

theorem store_never_panics_witness:
  "ks_apply test_env (LocalWrite []) test_store = Panic \<and> ks_apply test_env (NetRead own_key []) test_store \<noteq> Panic
   \<and> ks_apply test_env (OobMessage [] own_key (typeKeyResponse # replicate 64 7)) test_store = Panic
   \<and> ks_apply test_env (OobMessage test_key own_key (typeKeyResponse # replicate 64 7)) test_store \<noteq> Panic"
  by (auto simp: store_never_panics [OF test_start_reach] key_types test_packet_facts simp del: ks_apply.simps)

section \<open>From one local side to the other\<close>

text \<open>C1: the whole way of a packet: whatever a node has sent to a key in any run of its key store, at once or
  after a lookup, \<open>WriteTo\<close> hands to the session layer behind the type byte of traffic; the node with that key
  reads it off its own session layer, behind any packets that are not traffic, and passes it to its
  local side, in every state its own key store can reach, if its MTU allows the packet.  None of the checks of the receiver drops a packet of an honest sender.\<close>

theorem sent_packet_delivered:
  assumes "reach (ks_start envA keyA) (ks_step envA) (sA, log)" and "SendPacket bs keyB \<in> set log"
    and "reach (ks_start envB keyB) (ks_step envB) (sB, logB)" and "ke_nd envB = ke_nd envA"
    and "int (length bs) \<le> sint (ks_mtu sB)"
    and "list_all passes es" and "length bs \<le> length buf" and "unat m \<le> 65535"
  shows "(\<forall>layer. WriteTo layer bs keyB = (case layer (frame bs) keyB of (n, err) \<Rightarrow> (if n > 0 then n - 1 else n, err)))
     \<and> (\<exists>r. ReadFrom m buf (es @ [Packet (frame bs) keyA]) = Ret r
        \<and> sr_end r = ReadOk (bs @ drop (length bs) buf) (length bs) keyA)
     \<and> (\<exists>s' outs. readPC_packet (ke_nd envB) sign marshal keyA bs sB = Ret (Some bs, s', outs))"
proof -
  have A: "node_ok envA keyA (sA, log)" by (rule node_runs.reach_inv [OF assms(1)])
  have B: "node_ok envB keyB (sB, logB)" by (rule node_runs.reach_inv [OF assms(3)])
  have "mine sA bs" and own: "owner (ke_nd envA) keyB (pkt_dst bs)"
    using A assms(2) by (auto simp: node_ok_def sends_mine_def ks_ok_def list_all_iff)
  then have wf: "well_formed bs" and src: "owner (ke_nd envB) keyA (pkt_src bs)"
    using A assms(4) by (auto simp: mine_def local_end_def node_ok_def owner_def)
  have dst: "local_end sB (pkt_dst bs)"
    using B own assms(4) by (auto simp: local_end_def node_ok_def owner_def)
  obtain pre where pre: "GetPrefix (ke_nd envB) = Ret pre"
    using B by (auto simp: node_ok_def dest!: AddrForKey_SomeD)
  have inv: "ks_inv (ke_nd envB) sB" using B by (simp add: node_ok_def ks_ok_def)
  have "length keyA = 32" using A by (auto simp: node_ok_def dest!: AddrForKey_SomeD)
  from readPC_delivers [OF inv pre this wf assms(5) dst src]
  have "\<exists>s' outs. readPC_packet (ke_nd envB) sign marshal keyA bs sB = Ret (Some bs, s', outs)" .
  moreover have "\<exists>r. ReadFrom m buf (es @ [Packet (frame bs) keyA]) = Ret r
        \<and> sr_end r = ReadOk (bs @ drop (length bs) buf) (length bs) keyA"
    using write_then_read [OF assms(6,7,8)] by blast
  moreover have "WriteTo layer bs keyB = (case layer (frame bs) keyB of (n, err) \<Rightarrow> (if n > 0 then n - 1 else n, err))" for layer
    by (simp add: WriteTo_def frame_def)
  ultimately show ?thesis by blast
qed

text \<open>The packet that the example node sends after a lookup arrives.\<close>

theorem sent_packet_delivered_witness:
  "\<exists>sB. ks_init test_domain True test_key = Ret sB
     \<and> (\<exists>s' outs. readPC_packet test_domain (ke_sign test_env) (ke_marshal test_env) own_key test_packet sB
          = Ret (Some test_packet, s', outs))"
proof -
  obtain s l where A: "reach (ks_start test_env own_key) (ks_step test_env) (s, [l, SendPacket test_packet test_key])"
    using test_run_reach .
  obtain sB where B: "ks_init test_domain True test_key = Ret sB" "ks_mtu sB = 1280"
    by (simp add: ks_init_def deref_def test_AddrForKey test_SubnetForKey)
  have nd: "ke_nd test_env = test_domain" by (simp add: test_env_def)
  have R: "reach (ks_start test_env test_key) (ks_step test_env) (sB, [])"
    by (rule reach_init) (use B in \<open>auto simp: ks_start_def nd\<close>)
  have "length test_packet = 43" by code_simp
  with sent_packet_delivered [OF A _ R refl, where es = "[]" and buf = test_packet and m = 1280
      and sign = "ke_sign test_env" and marshal = "ke_marshal test_env"] B
  show ?thesis by (simp add: nd)
qed

end
