(* ===== verification/Mobile.thy ===== *)
theory Mobile
  imports Mesh_Main
begin

text \<open>
  The mobile library src/contrib/mobile/mobile.go: a node without a TUN adapter, whose packets the
  application reads and writes itself.  What \<open>json.Unmarshal\<close> makes of the configuration it is given
  is a parameter, and so are the encoders of the reports.
\<close>

section \<open>Starting\<close>

record mobile_mesh =
  mb_core :: "core option"
  mb_iprwc :: "key_store option"
  mb_config :: "NodeConfig option"
  mb_multicast :: "multicast option"
  mb_rest :: "rest_server option"

definition new_mobile :: mobile_mesh where
  "new_mobile = \<lparr>mb_core = None, mb_iprwc = None, mb_config = None, mb_multicast = None, mb_rest = None\<rparr>"

text \<open>The options of the core: those of the daemon without its listeners.\<close>

definition mobile_options :: "NodeConfig \<Rightarrow> setup_option list outcome" where
  "mobile_options cfg = bind_outcome (allowed_options cfg) (\<lambda>allowed.
     Ret (general_options cfg @ peer_options cfg @ allowed))"

text \<open>\<open>StartJSON\<close>: whether it succeeded, and the node.  Only the JSON is checked for an error; what else
  fails panics, except multicast and the REST server, which are logged.  \<open>unmarshal\<close> lays the JSON
  over the generated configuration, and leaves what it did of that when it fails.\<close>

definition StartJSON ::
  "new_env \<Rightarrow> mesh_system \<Rightarrow> NodeConfig \<Rightarrow> (bytes \<Rightarrow> NodeConfig \<Rightarrow> bool \<times> NodeConfig) \<Rightarrow> bytes \<Rightarrow> mobile_mesh
    \<Rightarrow> (bool \<times> mobile_mesh) outcome" where
  "StartJSON ne sy generated unmarshal configjson m =
     (case unmarshal configjson generated of (ok, cfg) \<Rightarrow>
        let m = m\<lparr>mb_config := Some cfg\<rparr>
        in if \<not> ok then Ret (False, m)
           else bind_outcome (new_core ne (mobile_options cfg) cfg) (\<lambda>(c, _).
             let m = m\<lparr>mb_core := Some c\<rparr>
             in bind_outcome
               (if length (cfg_MulticastInterfaces cfg) > 0
                then bind_outcome (multicast_options (sy_compile sy) cfg) (\<lambda>opts.
                       Ret (m\<lparr>mb_multicast := Some (snd (multicast_New (sy_resolve sy) (sy_socket sy) opts))\<rparr>))
                else Ret m)
               (\<lambda>m. let m = m\<lparr>mb_rest := setup_rest sy cfg\<rparr>;
                        mtu = of_nat (cfg_IfMTU cfg)
                    in bind_outcome (ks_init (cc_networkdomain (co_config c)) (sy_oobSet sy) (co_public c)) (\<lambda>store.
                         let mtu = (if sy_maxMTU sy < mtu then sy_maxMTU sy else mtu)
                         in Ret (True, m\<lparr>mb_iprwc := Some (SetMTU (sy_maxMTU sy) mtu store)\<rparr>)))))"

definition StartAutoconfigure ::
  "new_env \<Rightarrow> mesh_system \<Rightarrow> NodeConfig \<Rightarrow> (bytes \<Rightarrow> NodeConfig \<Rightarrow> bool \<times> NodeConfig) \<Rightarrow> mobile_mesh
    \<Rightarrow> (bool \<times> mobile_mesh) outcome" where
  "StartAutoconfigure ne sy generated unmarshal m =
     StartJSON ne sy generated unmarshal (map of_char ''{}'') m"

section \<open>Packets\<close>

text \<open>The results are the node and what it sent; the results of \<open>Write\<close> are dropped.\<close>

definition Send ::
  "network_domain \<Rightarrow> (bytes \<Rightarrow> bytes) \<Rightarrow> bytes \<Rightarrow> mobile_mesh \<Rightarrow> (mobile_mesh \<times> ks_out list) outcome" where
  "Send nd sign p m =
     (case mb_iprwc m of None \<Rightarrow> Ret (m, [])
      | Some s \<Rightarrow> bind_outcome (writePC nd sign p s) (\<lambda>(_, s, outs). Ret (m\<lparr>mb_iprwc := Some s\<rparr>, outs)))"

definition SendBuffer ::
  "network_domain \<Rightarrow> (bytes \<Rightarrow> bytes) \<Rightarrow> bytes \<Rightarrow> int \<Rightarrow> mobile_mesh \<Rightarrow> (mobile_mesh \<times> ks_out list) outcome" where
  "SendBuffer nd sign p len m =
     (case mb_iprwc m of None \<Rightarrow> Ret (m, [])
      | Some s \<Rightarrow>
          if int (length p) < len then Ret (m, [])
          else if len < 0 then Panic
          else bind_outcome (writePC nd sign (take (nat len) p) s) (\<lambda>(_, s, outs). Ret (m\<lparr>mb_iprwc := Some s\<rparr>, outs)))"

text \<open>\<open>Recv\<close> and \<open>RecvBuffer\<close> over the reads of the core: the packet, no packet without a node, an empty one
  on an error; \<open>None\<close> while it still waits.\<close>

definition RecvBuffer ::
  "network_domain \<Rightarrow> (bytes \<Rightarrow> bytes) \<Rightarrow> ptb_marshal \<Rightarrow> bytes \<Rightarrow> core_read list \<Rightarrow> mobile_mesh
    \<Rightarrow> ((bytes \<times> nat) option \<times> mobile_mesh \<times> ks_out list) outcome" where
  "RecvBuffer nd sign marshal buf es m =
     (case mb_iprwc m of None \<Rightarrow> Ret (Some (buf, 0), m, [])
      | Some s \<Rightarrow> bind_outcome (readPC nd sign marshal buf es s) (\<lambda>(r, s, outs).
          Ret (case r of ReadPacket buf n \<Rightarrow> Some (buf, n) | read_result.ReadError \<Rightarrow> Some (buf, 0) | ReadBlocked \<Rightarrow> None,
               m\<lparr>mb_iprwc := Some s\<rparr>, outs)))"

definition Recv ::
  "network_domain \<Rightarrow> (bytes \<Rightarrow> bytes) \<Rightarrow> ptb_marshal \<Rightarrow> core_read list \<Rightarrow> mobile_mesh
    \<Rightarrow> (bytes option \<times> mobile_mesh \<times> ks_out list) outcome" where
  "Recv nd sign marshal es m =
     (case mb_iprwc m of None \<Rightarrow> Ret (Some [], m, [])
      | Some s \<Rightarrow> bind_outcome (RecvBuffer nd sign marshal (replicate 65535 0) es m) (\<lambda>(r, m, outs).
          Ret (map_option (\<lambda>(buf, n). take n buf) r, m, outs)))"

section \<open>Stopping and reports\<close>

text \<open>\<open>Stop\<close>, with the node as it is where a nil module is dereferenced; multicast reports no error.\<close>

definition mobile_Stop :: "mobile_mesh \<Rightarrow> mobile_mesh \<times> unit outcome" where
  "mobile_Stop m =
     (case mb_multicast m of None \<Rightarrow> (m, Panic)
      | Some mc \<Rightarrow>
          let m = m\<lparr>mb_multicast := Some (multicast_stop mc)\<rparr>
          in case mb_core m of None \<Rightarrow> (m, Panic)
             | Some c \<Rightarrow>
                 let m = m\<lparr>mb_core := Some (core_close c)\<rparr>
                 in case mb_rest m of None \<Rightarrow> (m, Panic) | Some _ \<Rightarrow> (m\<lparr>mb_rest := None\<rparr>, Ret ()))"

text \<open>\<open>None\<close> within the outcome is a call that blocks.\<close>

definition mobile_RetryPeersNow :: "mobile_mesh \<Rightarrow> mobile_mesh option outcome" where
  "mobile_RetryPeersNow m =
     (case mb_core m of None \<Rightarrow> Panic
      | Some c \<Rightarrow> Ret (map_option (\<lambda>c. m\<lparr>mb_core := Some c\<rparr>) (RetryPeersNow c)))"

definition GenerateConfigJSON :: "(NodeConfig \<Rightarrow> bytes option) \<Rightarrow> NodeConfig \<Rightarrow> bytes" where
  "GenerateConfigJSON marshal generated =
     (case marshal (generated\<lparr>cfg_IfName := ''none''\<rparr>) of Some json \<Rightarrow> json | None \<Rightarrow> [])"

definition with_core :: "mobile_mesh \<Rightarrow> (core \<Rightarrow> 'a outcome) \<Rightarrow> 'a outcome" where
  "with_core m f = (case mb_core m of None \<Rightarrow> Panic | Some c \<Rightarrow> f c)"

definition GetAddressString :: "(bytes \<Rightarrow> string) \<Rightarrow> mobile_mesh \<Rightarrow> string outcome" where
  "GetAddressString show_ip m = with_core m (\<lambda>c. bind_outcome (core_Address c) (\<lambda>ip. Ret (show_ip ip)))"

definition GetSubnetString :: "(bytes \<times> nat \<Rightarrow> string) \<Rightarrow> mobile_mesh \<Rightarrow> string outcome" where
  "GetSubnetString show_net m = with_core m (\<lambda>c. bind_outcome (core_Subnet c) (\<lambda>subnet. Ret (show_net subnet)))"

text \<open>The key and the coordinates are those the library reports.\<close>

definition GetPublicKeyString :: "SelfInfo \<Rightarrow> mobile_mesh \<Rightarrow> string outcome" where
  "GetPublicKeyString self m = with_core m (\<lambda>c. Ret (hex_encode (self_Key self)))"

definition GetCoordsString :: "SelfInfo \<Rightarrow> mobile_mesh \<Rightarrow> string outcome" where
  "GetCoordsString self m = with_core m (\<lambda>c. Ret (''['' @ join_spaces (map show_nat (self_Coords self)) @ '']''))"

definition GetPeersJSON ::
  "(bytes \<Rightarrow> string) \<Rightarrow> ((PeerInfo \<times> string) list \<Rightarrow> string option) \<Rightarrow> PeerInfo list \<Rightarrow> mobile_mesh \<Rightarrow> string outcome" where
  "GetPeersJSON show_ip marshal peers m =
     with_core m (\<lambda>c. bind_outcome (collect (map (\<lambda>v. bind_outcome
         (deref (AddrForKey (cc_networkdomain (co_config c)) (pi_Key v))) (\<lambda>a. Ret (v, show_ip a))) peers))
       (\<lambda>ps. Ret (case marshal ps of Some res \<Rightarrow> res | None \<Rightarrow> ''{}'')))"

definition GetDHTJSON :: "(DHTEntryInfo list \<Rightarrow> string option) \<Rightarrow> DHTEntryInfo list \<Rightarrow> mobile_mesh \<Rightarrow> string outcome" where
  "GetDHTJSON marshal dht m = with_core m (\<lambda>c. Ret (case marshal dht of Some res \<Rightarrow> res | None \<Rightarrow> ''{}''))"

definition GetMTU :: "64 word \<Rightarrow> mobile_mesh \<Rightarrow> int outcome" where
  "GetMTU packetConnMTU m = with_core m (\<lambda>c. Ret (sint (MTU packetConnMTU)))"

text \<open>The build's version, set when the program is linked.\<close>

definition BuildName :: "string \<Rightarrow> string" where
  "BuildName buildName = (if buildName = '''' then ''unknown'' else buildName)"

definition BuildVersion :: "string \<Rightarrow> string" where
  "BuildVersion buildVersion = (if buildVersion = '''' then ''unknown'' else buildVersion)"

definition GetVersion :: "string \<Rightarrow> string" where
  "GetVersion buildVersion = BuildVersion buildVersion"

end
