(* ===== verification/Mesh_Props.thy ===== *)
theory Mesh_Props
  imports Mobile Mesh_Run Key_Store_Props
begin

text \<open>
  What the daemon and the mobile library make of a configuration, and how they end; the end of the
  daemon is that of its process (Mesh_Run), where a panic is recovered if the log is a file.
\<close>

section \<open>Folding the options\<close>

lemma applyOption_sets:
  "fst ` set (cc_peers (applyOption o1 c)) = fst ` set (cc_peers c) \<union> {p. o1 = OptPeer p}"
  "set (cc_listeners (applyOption o1 c)) = set (cc_listeners c) \<union> {a. o1 = OptListenAddress a}"
  "cc_allowedPublicKeys (applyOption o1 c) =
     cc_allowedPublicKeys c \<union> {go_copy (replicate 32 0) k | k. o1 = OptAllowedPublicKey k}"
  by (cases o1; auto simp: dom_map_of_conv_image_fst [symmetric] update_conv' image_iff
      dest: arg_cong [where f = dom]; fail)+

lemma fold_applyOption_sets:
  "fst ` set (cc_peers (fold applyOption opts c)) = fst ` set (cc_peers c) \<union> {p. OptPeer p \<in> set opts}"
  "set (cc_listeners (fold applyOption opts c)) = set (cc_listeners c) \<union> {a. OptListenAddress a \<in> set opts}"
  "cc_allowedPublicKeys (fold applyOption opts c) =
     cc_allowedPublicKeys c \<union> {go_copy (replicate 32 0) k | k. OptAllowedPublicKey k \<in> set opts}"
  by (induction opts arbitrary: c) (auto simp: applyOption_sets)

lemma fold_applyOption_distinct:
  "distinct (map fst (cc_peers c)) \<Longrightarrow> distinct (map fst (cc_peers (fold applyOption opts c)))"
proof (induction opts arbitrary: c)
  case (Cons o1 opts)
  then show ?case by (cases o1) (auto simp: AList.update_keys)
qed simp

definition is_general :: "setup_option \<Rightarrow> bool" where
  "is_general opt = (case opt of OptNodeInfo _ \<Rightarrow> True | OptNodeInfoPrivacy _ \<Rightarrow> True | OptNetworkDomain _ \<Rightarrow> True | _ \<Rightarrow> False)"

lemma fold_applyOption_general:
  assumes "list_all (\<lambda>opt. \<not> is_general opt) opts"
  shows "cc_networkdomain (fold applyOption opts c) = cc_networkdomain c
    \<and> cc_nodeinfo (fold applyOption opts c) = cc_nodeinfo c
    \<and> cc_nodeinfoPrivacy (fold applyOption opts c) = cc_nodeinfoPrivacy c"
  using assms
proof (induction opts arbitrary: c)
  case (Cons o1 opts)
  then show ?case by (cases o1) (auto simp: is_general_def)
qed simp

lemma decoded_options:
  "map (\<lambda>a. case hex_decode a of None \<Rightarrow> Panic | Some k \<Rightarrow> Ret (OptAllowedPublicKey k)) as = map Ret opts \<Longrightarrow>
     opts = map (OptAllowedPublicKey \<circ> the \<circ> hex_decode) as"
  by (induction as arbitrary: opts) (auto split: option.splits)

lemma allowed_options_Ret:
  "allowed_options cfg = Ret opts \<Longrightarrow> opts = map (OptAllowedPublicKey \<circ> the \<circ> hex_decode) (cfg_AllowedPublicKeys cfg)"
  unfolding allowed_options_def by (rule decoded_options, erule collect_eq_Ret)

lemma new_core_Ret:
  assumes "new_core ne options cfg = Ret (c, starts)"
  obtains opts where "options = Ret opts" and "co_config c = fold applyOption opts empty_config"
    and "hex_decode (cfg_PrivateKey cfg) = Some (co_secret c)" and "length (co_secret c) = 64"
    and "co_public c = drop 32 (co_secret c)" and "length starts = length (cc_listeners (co_config c))"
  using assms by (auto simp: new_core_def New_def Let_def go_simps go_copy_def split: option.splits if_splits sum.splits prod.splits)


section \<open>The node of a configuration\<close>

lemma in_peer_options:
  "OptPeer p \<in> set (peer_options cfg) \<longleftrightarrow>
     p \<in> {\<lparr>pe_URI = u, pe_SourceInterface = ''''\<rparr> | u. u \<in> set (cfg_Peers cfg)}
       \<union> {\<lparr>pe_URI = u, pe_SourceInterface = i\<rparr> | u i us. (i, us) \<in> set (cfg_InterfacePeers cfg) \<and> u \<in> set us}"
  by (simp add: peer_options_def image_iff) blast

lemma peer_options_only:
  "OptListenAddress a \<notin> set (peer_options cfg)" "OptAllowedPublicKey k \<notin> set (peer_options cfg)"
  "list_all (\<lambda>opt. \<not> is_general opt) (peer_options cfg)"
  by (auto simp: peer_options_def list_all_iff is_general_def)

text \<open>C16: the core that the daemon makes of a configuration: its peers are those of the list without an interface and
  those of each interface, each once; its listeners the addresses to listen on, each tried once; it
  accepts the allowed keys, cut or filled to 32 bytes; and its domain, node info, privacy and key pair are
  the configuration's.\<close>

theorem configured_core:
  assumes "setup_core ne cfg = Ret (c, starts)"
  shows "fst ` set (cc_peers (co_config c)) =
       {\<lparr>pe_URI = u, pe_SourceInterface = ''''\<rparr> | u. u \<in> set (cfg_Peers cfg)}
       \<union> {\<lparr>pe_URI = u, pe_SourceInterface = i\<rparr> | u i us. (i, us) \<in> set (cfg_InterfacePeers cfg) \<and> u \<in> set us}
     \<and> distinct (map fst (cc_peers (co_config c)))
     \<and> set (cc_listeners (co_config c)) = set (cfg_Listen cfg) \<and> length starts = length (cc_listeners (co_config c))
     \<and> cc_allowedPublicKeys (co_config c) =
         (\<lambda>a. go_copy (replicate 32 0) (the (hex_decode a))) ` set (cfg_AllowedPublicKeys cfg)
     \<and> cc_networkdomain (co_config c) = cfg_NetworkDomain cfg \<and> cc_nodeinfo (co_config c) = cfg_NodeInfo cfg
     \<and> cc_nodeinfoPrivacy (co_config c) = cfg_NodeInfoPrivacy cfg
     \<and> hex_decode (cfg_PrivateKey cfg) = Some (co_secret c) \<and> length (co_secret c) = 64
     \<and> co_public c = drop 32 (co_secret c)"
proof -
  obtain opts where opts: "core_options cfg = Ret opts" and cfg: "co_config c = fold applyOption opts empty_config"
    and key: "hex_decode (cfg_PrivateKey cfg) = Some (co_secret c)" "length (co_secret c) = 64"
      "co_public c = drop 32 (co_secret c)" and starts: "length starts = length (cc_listeners (co_config c))"
    using assms unfolding setup_core_def by (rule new_core_Ret)
  define allowed where
    "allowed = map (OptAllowedPublicKey \<circ> the \<circ> hex_decode) (cfg_AllowedPublicKeys cfg)"
  define rest where "rest = map OptListenAddress (cfg_Listen cfg) @ peer_options cfg @ allowed"
  have eq: "opts = general_options cfg @ rest"
    using opts by (auto simp: core_options_def go_simps rest_def allowed_def dest: allowed_options_Ret)
  have "list_all (\<lambda>opt. \<not> is_general opt) rest"
    using peer_options_only(3) [of cfg] by (auto simp: rest_def allowed_def list_all_iff is_general_def)
  from fold_applyOption_general [OF this, of "fold applyOption (general_options cfg) empty_config"]
  have general: "cc_networkdomain (co_config c) = cfg_NetworkDomain cfg" "cc_nodeinfo (co_config c) = cfg_NodeInfo cfg"
    "cc_nodeinfoPrivacy (co_config c) = cfg_NodeInfoPrivacy cfg"
    by (simp_all add: cfg eq general_options_def)
  have members: "OptPeer p \<in> set opts \<longleftrightarrow> OptPeer p \<in> set (peer_options cfg)"
    "OptListenAddress a \<in> set opts \<longleftrightarrow> a \<in> set (cfg_Listen cfg)"
    "OptAllowedPublicKey k \<in> set opts \<longleftrightarrow> k \<in> (the \<circ> hex_decode) ` set (cfg_AllowedPublicKeys cfg)" for p a k
    using peer_options_only(1,2) by (auto simp: eq rest_def allowed_def general_options_def)
  note sets = fold_applyOption_sets [of opts empty_config, folded cfg]
  have "fst ` set (cc_peers (co_config c)) = {p. OptPeer p \<in> set (peer_options cfg)}"
    using sets(1) by (simp add: members empty_config_def)
  moreover have "set (cc_listeners (co_config c)) = set (cfg_Listen cfg)"
    using sets(2) by (simp add: members empty_config_def)
  moreover have "cc_allowedPublicKeys (co_config c) =
      (\<lambda>a. go_copy (replicate 32 0) (the (hex_decode a))) ` set (cfg_AllowedPublicKeys cfg)"
    using sets(3) by (auto simp: members empty_config_def)
  moreover have "distinct (map fst (cc_peers (co_config c)))"
    unfolding cfg by (rule fold_applyOption_distinct) (simp add: empty_config_def)
  ultimately show ?thesis
    using key starts general by (simp add: in_peer_options Collect_disj_eq)
qed

definition test_ne :: new_env where
  "test_ne = \<lparr>ne_marshal = (\<lambda>_. Some []), ne_build = (\<lambda>_. ''''), ne_parse = (\<lambda>_. None), ne_sctp = True,
     ne_encryption = True, ne_now = 0\<rparr>"

definition test_cfg :: NodeConfig where
  "test_cfg = zero_config\<lparr>cfg_Peers := [''tcp://h:1''], cfg_InterfacePeers := [(''eth0'', [''tls://g:2''])],
     cfg_PrivateKey := concat (replicate 64 ''01''), cfg_NetworkDomain := \<lparr>Prefix = ''fc''\<rparr>, cfg_IfName := ''none''\<rparr>"

lemma test_cfg_key: "hex_decode (cfg_PrivateKey test_cfg) = Some (replicate 64 1)"
  by code_simp

lemma test_setup_core: "\<exists>c starts. setup_core test_ne test_cfg = Ret (c, starts)"
  by (simp add: setup_core_def core_options_def allowed_options_def new_core_def test_cfg_key New_def setNodeInfo_def
      Let_def test_ne_def, simp add: test_cfg_def zero_config_def)

theorem configured_core_witness:
  "\<exists>c starts. setup_core test_ne test_cfg = Ret (c, starts)
     \<and> fst ` set (cc_peers (co_config c)) = {\<lparr>pe_URI = ''tcp://h:1'', pe_SourceInterface = ''''\<rparr>,
         \<lparr>pe_URI = ''tls://g:2'', pe_SourceInterface = ''eth0''\<rparr>}"
proof -
  obtain c starts where c: "setup_core test_ne test_cfg = Ret (c, starts)" using test_setup_core by blast
  have "fst ` set (cc_peers (co_config c)) = {\<lparr>pe_URI = ''tcp://h:1'', pe_SourceInterface = ''''\<rparr>,
         \<lparr>pe_URI = ''tls://g:2'', pe_SourceInterface = ''eth0''\<rparr>}"
    using configured_core [OF c] by (auto simp: test_cfg_def)
  with c show ?thesis by blast
qed

section \<open>The end of the daemon\<close>

lemma NewRestServer_Inl:
  "(\<exists>e. NewRestServer ok fs a = Inl e) \<longleftrightarrow> a = ''none'' \<or> a = '''' \<or> \<not> ok"
  by (auto simp: NewRestServer_def split: prod.split)

lemma setup_rest_None:
  "setup_rest sy cfg = None \<longleftrightarrow> cfg_HttpAddress cfg = ''none'' \<or> cfg_HttpAddress cfg = ''''
     \<or> \<not> sy_url_ok sy (cfg_HttpAddress cfg)"
  unfolding NewRestServer_Inl [symmetric, where fs = "sy_docs sy (cfg_WwwRoot cfg)"]
  by (auto simp: setup_rest_def split: sum.splits)

text \<open>The address that the REST server is made with.  The one of the flag counts only where the configuration has
  none, and \<open><tun>\<close> in it is the node's own address.\<close>

definition http_address :: "(bytes \<Rightarrow> string) \<Rightarrow> rivArgs \<Rightarrow> NodeConfig \<Rightarrow> bytes \<Rightarrow> string" where
  "http_address show_ip args cfg ip =
     replace_first ''<tun>'' (''['' @ show_ip ip @ '']'')
       (if cfg_HttpAddress cfg = '''' then ar_httpaddress args else cfg_HttpAddress cfg)"

lemma run_node_rest:
  assumes "run_node ne sy args cfg = Ret n"
  obtains ip where "core_Address (nd_core n) = Ret ip"
    and "nd_rest n = None \<longleftrightarrow> http_address (sy_show_ip sy) args cfg ip = ''none''
        \<or> http_address (sy_show_ip sy) args cfg ip = '''' \<or> \<not> sy_url_ok sy (http_address (sy_show_ip sy) args cfg ip)"
proof -
  obtain ip where "core_Address (nd_core n) = Ret ip"
    and "nd_rest n = setup_rest sy (rest_config (sy_show_ip sy) args ip cfg)"
    using assms by (auto simp: run_node_def Let_def go_simps split: if_splits)
  moreover have "cfg_HttpAddress (rest_config (sy_show_ip sy) args ip cfg) = http_address (sy_show_ip sy) args cfg ip"
    by (simp add: rest_config_def http_address_def Let_def)
  ultimately show ?thesis using that setup_rest_None by metis
qed

lemma run_stop_stops:
  "\<not> mc_isOpen (nd_multicast (fst (run_stop n))) \<and> \<not> tu_isOpen (nd_tun (fst (run_stop n)))
     \<and> addPeerLoop parse (nd_core (fst (run_stop n))) = (nd_core (fst (run_stop n)), [])"
  "snd (run_stop n) = (case nd_rest n of None \<Rightarrow> Panic | Some a \<Rightarrow> Ret ())"
proof -
  have "co_done (core_close (nd_core n))" by (auto simp: core_close_def Let_def split: option.split)
  then show "\<not> mc_isOpen (nd_multicast (fst (run_stop n))) \<and> \<not> tu_isOpen (nd_tun (fst (run_stop n)))
     \<and> addPeerLoop parse (nd_core (fst (run_stop n))) = (nd_core (fst (run_stop n)), [])"
    by (simp add: run_stop_def Let_def multicast_stop_def tun_stop_def addPeerLoop_def)
qed (simp add: run_stop_def Let_def)

text \<open>C34: the end of a daemon whose node was set up, after the signal: multicast, the TUN adapter and the core are stopped in
  every case, and no peer loop calls anybody any more.  Then the process ends normally exactly when there is
  a REST server, which is so when its address is not empty, not disabled and a URL.  Without one the last call
  panics: the process crashes with status 2, unless its log is a file that could be opened; then the panic is
  recovered and the process ends with status 0, like a run without an error.\<close>

theorem daemon_stops:
  assumes "run_config generated read marshal genconf args = Ret (Inr cfg)"
    and "\<not> ar_getaddr args" and "\<not> ar_getsnet args" and "run_node ne sy args cfg = Ret n"
  shows "\<exists>n' ip a p. n' = fst (run_stop n) \<and> core_Address (nd_core n) = Ret ip
    \<and> a = http_address (sy_show_ip sy) args cfg ip
    \<and> p = mesh_run syslog_ok open_ok ne sy generated read marshal genconf args
    \<and> \<not> mc_isOpen (nd_multicast n') \<and> \<not> tu_isOpen (nd_tun n') \<and> addPeerLoop parse (nd_core n') = (nd_core n', [])
    \<and> p = (if a \<noteq> ''none'' \<and> a \<noteq> '''' \<and> sy_url_ok sy a then Exited (RunStopped n')
           else if ar_logto args \<noteq> ''stdout'' \<and> ar_logto args \<noteq> ''syslog'' \<and> open_ok (ar_logto args) then FatalLogged
           else Crashed)
    \<and> (exit_status p = 2 \<longleftrightarrow> p = Crashed) \<and> (exit_status p = 0 \<longleftrightarrow> p \<noteq> Crashed)"
proof -
  obtain ip where ip: "core_Address (nd_core n) = Ret ip"
    and rest: "nd_rest n = None \<longleftrightarrow> http_address (sy_show_ip sy) args cfg ip = ''none''
        \<or> http_address (sy_show_ip sy) args cfg ip = '''' \<or> \<not> sy_url_ok sy (http_address (sy_show_ip sy) args cfg ip)"
    by (rule run_node_rest [OF assms(4)])
  have "run_body ne sy generated read marshal genconf args =
      bind_outcome (snd (run_stop n)) (\<lambda>_. Ret (RunStopped (fst (run_stop n))))"
    by (simp add: run_body_def assms run_query_def split: prod.split)
  then have body: "run_body ne sy generated read marshal genconf args =
      (if nd_rest n = None then Panic else Ret (RunStopped (fst (run_stop n))))"
    by (auto simp: run_stop_stops(2) split: option.split)
  have "mesh_run syslog_ok open_ok ne sy generated read marshal genconf args =
      (if nd_rest n \<noteq> None then Exited (RunStopped (fst (run_stop n)))
       else if ar_logto args \<noteq> ''stdout'' \<and> ar_logto args \<noteq> ''syslog'' \<and> open_ok (ar_logto args) then FatalLogged
       else Crashed)"
    using run_logger_file [of syslog_ok open_ok "ar_logto args"]
    by (auto simp: mesh_run_def run_recover_def body split: log_target.splits)
  moreover have "(exit_status p = 2 \<longleftrightarrow> p = Crashed) \<and> (exit_status p = 0 \<longleftrightarrow> p \<noteq> Crashed)" for p
    by (cases p) (simp_all add: exit_status_def)
  ultimately show ?thesis
    using ip rest run_stop_stops(1) [of n parse] by (simp add: conj_commute)
qed

definition test_sys :: mesh_system where
  "test_sys = \<lparr>sy_compile = (\<lambda>_. None), sy_resolve = (\<lambda>_. True), sy_socket = True, sy_device = example_device,
     sy_maxMTU = 9000, sy_oobSet = True, sy_show_ip = (\<lambda>_. ''ip''), sy_url_ok = (\<lambda>_. True), sy_docs = (\<lambda>_. DocNotFound)\<rparr>"

definition test_args :: rivArgs where
  "test_args = \<lparr>ar_genconf = False, ar_useconf = True, ar_normaliseconf = False, ar_confjson = False,
     ar_autoconf = False, ar_ver = False, ar_getaddr = False, ar_getsnet = False, ar_useconffile = '''',
     ar_logto = ''stdout'', ar_loglevel = ''info'', ar_httpaddress = ''none'', ar_wwwroot = ''''\<rparr>"

lemma test_run_node: "\<exists>n. run_node test_ne test_sys test_args test_cfg = Ret n"
proof -
  obtain c starts where c: "setup_core test_ne test_cfg = Ret (c, starts)" using test_setup_core by blast
  obtain opts where opts: "core_options test_cfg = Ret opts" "co_config c = fold applyOption opts empty_config"
    and key: "hex_decode (cfg_PrivateKey test_cfg) = Some (co_secret c)" "co_public c = drop 32 (co_secret c)"
    using c unfolding setup_core_def by (rule new_core_Ret)
  have "co_secret c = replicate 64 1" using key(1) test_cfg_key by simp
  then have public: "co_public c = replicate 32 1" using key(2) by simp
  have nd: "cc_networkdomain (co_config c) = \<lparr>Prefix = ''fc''\<rparr>"
    using opts by (auto simp: core_options_def allowed_options_def general_options_def peer_options_def test_cfg_def
        zero_config_def go_simps)
  obtain a n where "AddrForKey \<lparr>Prefix = ''fc''\<rparr> (replicate 32 1) = Ret (Some a)"
    "SubnetForKey \<lparr>Prefix = ''fc''\<rparr> (replicate 32 1) = Ret (Some n)"
    by (rule keys_total [OF example_prefix, of "replicate 32 1"]) simp_all
  then show ?thesis
    by (simp add: run_node_def c public nd multicast_options_def test_sys_def tun_New_def ks_init_def deref_def tun_start_def
        tun_options_def example_prefix Let_def core_Address_def core_Subnet_def, simp add: test_cfg_def zero_config_def)
qed

text \<open>The example node has no REST server: it crashes when it logs to stdout.\<close>

theorem daemon_stops_witness:
  "\<exists>n. run_node test_ne test_sys test_args test_cfg = Ret n \<and> \<not> tu_isOpen (nd_tun (fst (run_stop n)))
     \<and> mesh_run True (\<lambda>_. True) test_ne test_sys test_cfg (\<lambda>_. Some test_cfg) (\<lambda>_ _. None) (\<lambda>_. '''') test_args = Crashed"
proof -
  obtain n where n: "run_node test_ne test_sys test_args test_cfg = Ret n" using test_run_node by blast
  have c: "run_config test_cfg (\<lambda>_. Some test_cfg) (\<lambda>_ _. None) (\<lambda>_. '''') test_args = Ret (Inr test_cfg)"
    by (simp add: run_config_def test_args_def)
  have a: "http_address (sy_show_ip test_sys) test_args test_cfg ip = ''none''" for ip
    by (simp add: http_address_def test_cfg_def zero_config_def test_args_def HasPrefix_def)
  have q: "\<not> ar_getaddr test_args" "\<not> ar_getsnet test_args" and l: "ar_logto test_args = ''stdout''"
    by (simp_all add: test_args_def)
  from daemon_stops [OF c q n, of True "\<lambda>_. True" "\<lambda>_. None"] n show ?thesis by (auto simp: a l)
qed

text \<open>Asking for the address before there is a core never prints one: it prints nothing when the private key is not
  hexadecimal, and crashes otherwise.\<close>

lemma address_never_printed:
  "run_query args None cfg \<in> {None, Some (Ret None), Some Panic}"
  by (auto simp: run_query_def getNodeKey_def nil_core_def deref_def split: option.split)

text \<open>The log levels: the chosen one and all that are more severe; an unknown one counts as info.\<close>

lemma log_levels_enabled:
  "setLogLevel ''WARN'' = [''error'', ''warn''] \<and> setLogLevel ''loud'' = [''error'', ''warn'', ''info'']"
  by code_simp

section \<open>The mobile library\<close>

text \<open>A node that was started stops once: \<open>Stop\<close> crashes when the configuration has no multicast interfaces or no
  usable REST address, and always when it is called again.\<close>

lemma mobile_stops_once:
  assumes "StartJSON ne sy generated unmarshal configjson new_mobile = Ret (True, m)"
  shows "\<exists>cfg. mb_config m = Some cfg
     \<and> (snd (mobile_Stop m) = Panic \<longleftrightarrow> cfg_MulticastInterfaces cfg = [] \<or> setup_rest sy cfg = None)
     \<and> snd (mobile_Stop (fst (mobile_Stop m))) = Panic"
  using assms
  by (auto simp: StartJSON_def new_mobile_def mobile_Stop_def Let_def go_simps split: prod.splits if_splits option.splits)

text \<open>The MTU of a mobile node is what a session carries or the configuration asks for, whichever is less, and 1280
  at least.\<close>

lemma mobile_mtu:
  assumes "StartJSON ne sy generated unmarshal configjson new_mobile = Ret (True, m)"
  shows "\<exists>s. mb_iprwc m = Some s \<and> 1280 \<le> ks_mtu s \<and> ks_mtu s \<le> max 1280 (sy_maxMTU sy)"
  using assms
  by (auto simp: StartJSON_def new_mobile_def SetMTU_def Let_def go_simps max_def not_less not_le
      split: prod.splits if_splits)

end
