(* ===== verification/Meshctl.thy ===== *)
theory Meshctl
  imports Rest_Dispatch Config
begin

text \<open>
  The command line client src/cmd/meshctl (cmd_line_env.go and main.go): the endpoint it talks to and the
  request it makes of a command, and which of its commands the REST server of Rest_Dispatch answers.
  The flags, the configuration file, its decoders and the HTTP client are parameters.
\<close>

section \<open>The endpoint\<close>

record CmdLineEnv =
  ce_args :: "string list"
  ce_endpoint :: string
  ce_server :: string
  ce_injson :: bool
  ce_ver :: bool

definition newCmdLineEnv :: CmdLineEnv where
  "newCmdLineEnv = \<lparr>ce_args = [], ce_endpoint = def_HttpAddress Define, ce_server = '''', ce_injson = False, ce_ver = False\<rparr>"

text \<open>The flags as they were given: \<open>-endpoint\<close> is the default endpoint when it was not.\<close>

record cmd_flags =
  fl_endpoint :: "string option"
  fl_json :: bool
  fl_version :: bool
  fl_args :: "string list"

definition parseFlagsAndArgs :: "cmd_flags \<Rightarrow> CmdLineEnv \<Rightarrow> CmdLineEnv" where
  "parseFlagsAndArgs fl env =
     env\<lparr>ce_args := fl_args fl, ce_server := (case fl_endpoint fl of None \<Rightarrow> ce_endpoint env | Some e \<Rightarrow> e),
         ce_injson := fl_json fl, ce_ver := fl_version fl\<rparr>"

text \<open>\<open>setEndpoint\<close>: \<open>file\<close> is the platform's configuration file, if it can be read, \<open>utf16\<close> decodes it and
  \<open>unmarshal\<close> parses it.  The lines that are logged are left out.\<close>

definition setEndpoint ::
  "(bytes \<Rightarrow> bytes option) \<Rightarrow> (bytes \<Rightarrow> (string \<rightharpoonup> json) option) \<Rightarrow> bytes option \<Rightarrow> CmdLineEnv \<Rightarrow> CmdLineEnv outcome" where
  "setEndpoint utf16 unmarshal config env =
     (if ce_server env = ce_endpoint env
      then (case config of None \<Rightarrow> Ret env
            | Some conf \<Rightarrow>
                (case (if has_bom conf then utf16 conf else Some conf) of None \<Rightarrow> Panic
                 | Some conf \<Rightarrow>
                     (case unmarshal conf of None \<Rightarrow> Panic
                      | Some dat \<Rightarrow>
                          (case dat ''HttpAddress'' of
                             Some (JString ep) \<Rightarrow>
                               if ep \<noteq> ''none'' \<and> ep \<noteq> '''' then Ret (env\<lparr>ce_endpoint := ep\<rparr>) else Ret env
                           | _ \<Rightarrow> Ret env))))
      else Ret (env\<lparr>ce_endpoint := ce_server env\<rparr>))"

section \<open>The request\<close>

text \<open>What \<open>run\<close> does: the version, the usage, or the address it gets; \<open>parse\<close> is \<open>url.Parse\<close> followed by
  \<open>URL.String\<close>.\<close>

datatype ctl_action = ShowVersion | ShowUsage | Get string

definition command_path :: "string \<Rightarrow> string" where
  "command_path command = ''/api/'' @ command"

definition ctl_run ::
  "(string \<Rightarrow> string option) \<Rightarrow> (CmdLineEnv \<Rightarrow> CmdLineEnv outcome) \<Rightarrow> cmd_flags \<Rightarrow> ctl_action outcome" where
  "ctl_run parse setEndpoint' fl =
     (let env = parseFlagsAndArgs fl newCmdLineEnv
      in if ce_ver env then Ret ShowVersion
         else case ce_args env of [] \<Rightarrow> Ret ShowUsage
         | command # _ \<Rightarrow>
             bind_outcome (setEndpoint' env) (\<lambda>env.
               case parse (ce_endpoint env) of None \<Rightarrow> Panic
               | Some u \<Rightarrow> Ret (Get (if ce_injson env then u @ command_path command
                                     else u @ command_path command @ ''?fmt=table''))))"

text \<open>The result of the request, or the recovered panic: \<open>http.Get\<close> and reading its body can fail.\<close>

definition ctl_print :: "(string \<Rightarrow> string option option) \<Rightarrow> ctl_action \<Rightarrow> string option outcome" where
  "ctl_print http_get act =
     (case act of Get url \<Rightarrow>
        (case http_get url of None \<Rightarrow> Panic | Some None \<Rightarrow> Panic | Some (Some result) \<Rightarrow> Ret (Some result))
      | _ \<Rightarrow> Ret None)"

section \<open>Which commands there are\<close>

text \<open>the endpoint: an \<open>-endpoint\<close> flag that differs from the default wins; otherwise the address of the
  platform's configuration file, unless it has none or it is disabled; a file that is there but
  cannot be parsed stops the client.\<close>

definition ctl_endpoint :: "(bytes \<Rightarrow> bytes option) \<Rightarrow> (bytes \<Rightarrow> (string \<rightharpoonup> json) option) \<Rightarrow> bytes option \<Rightarrow> string option
    \<Rightarrow> string outcome" where
  "ctl_endpoint utf16 unmarshal config flag =
     bind_outcome (setEndpoint utf16 unmarshal config
         (parseFlagsAndArgs \<lparr>fl_endpoint = flag, fl_json = False, fl_version = False, fl_args = []\<rparr> newCmdLineEnv))
       (\<lambda>env. Ret (ce_endpoint env))"

lemma endpoint_flag:
  "e \<noteq> def_HttpAddress Define \<Longrightarrow> ctl_endpoint utf16 unmarshal config (Some e) = Ret e"
  by (simp add: ctl_endpoint_def setEndpoint_def parseFlagsAndArgs_def newCmdLineEnv_def)

lemma endpoint_default:
  "ctl_endpoint utf16 unmarshal None None = Ret (def_HttpAddress Define)"
  by (simp add: ctl_endpoint_def setEndpoint_def parseFlagsAndArgs_def newCmdLineEnv_def)

text \<open>every documented GET endpoint without a key is a command of the client: its path, without the
  \<open>/api/\<close> in front, is answered by the endpoint.  The commands that the client's own help names,
  \<open>list\<close> and \<open>DHT\<close>, and \<open>getSelf\<close>, which it points to for the version, are none: the server looks
  for a document of that name.\<close>

theorem meshctl_commands:
  "list_all (\<lambda>(method, pattern, e). local_request ''GET'' (command_path (drop 5 pattern)) = Handled e)
     (filter (\<lambda>(method, pattern, e). method = ''GET'' \<and> CHR ''{'' \<notin> set pattern \<and> HasPrefix pattern ''/api/'') api_entries)
   \<and> map (\<lambda>command. local_request ''GET'' (command_path command)) [''self'', ''peers'', ''list'', ''DHT'', ''getSelf'']
     = [Handled ApiSelf, Handled ApiPeers, StaticFile, StaticFile, StaticFile]"
proof
  show "list_all (\<lambda>(method, pattern, e). local_request ''GET'' (command_path (drop 5 pattern)) = Handled e)
     (filter (\<lambda>(method, pattern, e). method = ''GET'' \<and> CHR ''{'' \<notin> set pattern \<and> HasPrefix pattern ''/api/'') api_entries)"
    by code_simp
  show "map (\<lambda>command. local_request ''GET'' (command_path command)) [''self'', ''peers'', ''list'', ''DHT'', ''getSelf'']
     = [Handled ApiSelf, Handled ApiPeers, StaticFile, StaticFile, StaticFile]"
    by code_simp
qed

end
