(* ===== verification/Spec2Isabelle.thy ===== *)
theory Spec2Isabelle
  imports Address_Key Genkeys Version_Meta Icmpv6 Proto_Runs Nodeinfo Links_Runs Core_Reports
    Link_Handler Link_Listen Socket_Options Tls_Config Tun_Setup Mesh_Run Rest_Props End_To_End Mesh_Props Meshctl
begin

text \<open>
  v6Space is an overlay network.  A node has an ed25519 key pair; its IPv6 address and subnet are
  computed from the public key.  It connects to peers over TCP, TLS, SCTP, unix sockets, SOCKS proxies
  and multipath TCP, finds peers on the local network by multicast, and carries IPv6 packets
  between a TUN device and the nodes that own their destinations.  Routing and encryption are done by
  the ironwood library, which is not part of the repository; everything the program itself does
  around it is what these theories model.

  \<^bold>\<open>Conventions.\<close>  Each definition has the name of the function it models, with a prefix where the name is
  taken (\<open>tun_start\<close> is \<open>_start\<close> of tun.go).  Bytes are \<open>8 word\<close>, the counters and MTUs of the code
  \<open>64 word\<close>, Go's strings are lists of characters.  A Go panic is \<open>Panic\<close> of the type
  \<open>outcome\<close> (Prelude), an error a value of the operation's own result type.  An actor of the phony
  library handles one message at a time, a mutex admits one method at a time: each message or
  method is one step, and the theories ending in Runs and Props reason about all interleavings.  A Go
  map that is iterated is an association list whose order stands for the order of iteration, which the
  language leaves open; the theorems hold for each.  What the repository does not contain (ironwood,
  crypto/ed25519, the JSON and hjson encoders, url.Parse, sockets, the TUN device) is an argument of the
  definitions that use it.

  \<^bold>\<open>Foundations.\<close>  Prelude: outcomes, Go's \<open>copy\<close>, hexadecimal, decimal and 16-bit encodings.
  Bit_Strings: bytes as bit lists.  Systems: the locales the components share (\<open>invariant_system\<close> for the
  reachable states of a step relation, \<open>codec\<close> and \<open>strict_codec\<close> for wire formats, \<open>expiring_table\<close> for
  tables whose entries are removed by timers).  Net: \<open>strings.Split\<close>, \<open>SplitHostPort\<close> and the like.

  \<^bold>\<open>Addresses\<close> (src/core/address.go, cmd/genkeys).  Address holds the code, bit loop included, Address_Key
  what it computes: the bits of an address as a function of the bits of the key, the partial key of an address
  derives that address again, which keys share an address, the ranges of addresses and subnets.  Genkeys: the search for
  keys ends with the least key received.

  \<^bold>\<open>Wire formats\<close>.  Version_Meta (version.go): the handshake metadata.  Session (core.go, types.go): the
  type byte of a packet, and what \<open>ReadFrom\<close> returns, hands to the protocol handler and leaves.
  Icmpv6 (icmpv6.go): the Packet Too Big message.

  \<^bold>\<open>The key store\<close> (src/ipv6rwc/ipv6rwc.go).  Key_Store is the code: who owns which address, and the
  packets that wait for the answer to a lookup, with Go's pointers as numbers and its timers as armed,
  fired (waiting for the mutex) or stopped too late.  Key_Store_Safety has the invariant \<open>ks_inv\<close>,
  Key_Store_Runs the transition system and that every step keeps it, Key_Store_Props what
  follows: a packet is sent to an owner of its destination only, a key is learnt from its owner only, a
  packet is delivered if and only if its source belongs to the sender, everything is forgotten in
  time.  End_To_End joins two key stores through the session layer: what one node sends, the owner of
  the key delivers; and exactly which calls panic in a reachable state, those included in which
  \<open>ed25519.Verify\<close> is given a key of the wrong length.

  \<^bold>\<open>Protocols\<close> (proto.go, nodeinfo.go).  Proto and Proto_Runs: the debug requests with their tables,
  timers and callbacks, each of which is called once at most.  Nodeinfo: the node info with its callbacks.

  \<^bold>\<open>Links\<close> (link*.go).  Links: the call of a peer, its retries, and the handshake with all its failures.
  Link_Handler: the whole handler of a connection, what it does and when it tries again.
  Links_Runs: the registry of links under interleaved handlers; it drains, but because the test and the mark
  of a link are two steps, two links of one address can get in.
  Listeners: the listening goroutines under a shutdown, which ends and silences all listeners but the
  multipath and SCTP ones.
  Dialer and Dialer_Props: the choice of source addresses, and the dialling of each link type.
  Link_Listen: the listen function of each type, what it registers and how it accepts.  Tls_Config: the
  certificate of a node and the TLS configuration.  Socket_Options: the options each platform sets on its
  sockets (link_tcp_*.go, link_mpath_*.go, multicast_*.go), and which of their errors count.

  \<^bold>\<open>The core\<close> (core.go, options.go, api.go).  Core_Config: options, \<open>New\<close>, the peer loop, adding and
  removing peers, where \<open>RemovePeers\<close> takes a schedule of the links actor, which reads the loop's variable.
  Core_Peers: runs of the core with its peer loops and the goroutines they start, whose panic is the end of the
  run; what removing peers closes under every schedule.  Core_Reports: the reports of the admin API.

  \<^bold>\<open>Multicast\<close> (src/multicast).  Multicast and Multicast_Props: a beacon of another node leads to a call that can
  only end in a link with the key the beacon announced; listeners follow the interfaces.

  \<^bold>\<open>The REST server\<close> (src/restapi).  Rest_Dispatch: table, routes, access checks.  Rest_Handlers, Rest_Peers,
  Rest_Events: the handlers, each with its response and what it does to node and configuration
  file, and the queue of server events.  A poll of the events runs beside others without a lock, so it goes in
  steps (\<open>poll_step\<close>), one for each access to what they share.  Rest_Props: what PUT and POST leave; the order
  of events under every interleaving, and how two polls come to print one id.

  \<^bold>\<open>The TUN device\<close> (src/tun).  Tun: the adapter, its reader and writer.  Tun_Setup: what each platform asks
  of its system, byte for byte, over Ip_Text, the text of IPv6 addresses: on macOS and BSD the
  set-up writes the address of the node or crashes on one whose text is abbreviated; on Windows the
  attempts and their pauses.

  \<^bold>\<open>Programs\<close>.  Config (src/config, src/defaults), Mesh_Main (the node cmd/mesh builds), Mobile
  (contrib/mobile), Meshctl (cmd/meshctl), and Mesh_Props: the core has what the configuration says, and
  how the daemon ends, with a log file and without.  Mesh_Run: the whole run, from its flags and its log to the
  end of the process, with the profiler (core/debug.go) and the loggers of the mobile library.

  \<^bold>\<open>Bounds and fuel.\<close>  No definition uses fuel.  Loops over input are recursions on the input; the
  retries of a link end by the measure \<open>3 - attempt\<close>, those of the Windows address by \<open>10 - i\<close>; the loop
  of a poll, which may go on as long as events arrive, is a step function.  Loops that wait for ever read a list
  of what they are given and end in a value for waiting (\<open>ReadWait\<close>, \<open>ReadBlocked\<close>) when it is used up;
  calls that block for good are \<open>None\<close>.

  \<^bold>\<open>Not modelled.\<close>  The ironwood library, crypto/tls and crypto/x509, the SCTP and multipath libraries, wintun,
  winipcfg and netlink: their answers are arguments.  The text of log lines throughout; the parsing of flags; the
  files the REST server serves; the country database.  Sockets are what they are asked and what they answer:
  buffer sizes and the kernel's own timing are left out.
\<close>

end
